(* ===== verification/Prelude.thy ===== *)
theory Prelude
  imports Main "HOL-Library.Word"
begin

text \<open>
  Shared vocabulary of the development: machine integer types, C++ exceptions and the
  state-and-exception computations built over them, loops over lists, decimal conversion
  (\<open>std::to_string\<close>, \<open>std::stoi\<close>), the C++ string searches the sources use, and a model of
  \<open>std::map\<close> in which the identity of a node is visible, so that raw pointers into a map can
  be followed.  \<open>size_t\<close> and \<open>unsigned long\<close> have 32 bits: the layers of the repository
  build for the AST2600, a 32-bit ARM.
\<close>

named_theorems keeps_intro \<open>preservation rules for state-and-exception computations\<close>
named_theorems nothrow_intro \<open>rules for computations that never throw\<close>
named_theorems exm_simps \<open>evaluation rules for state-and-exception computations\<close>

section \<open>Machine integers\<close>

type_synonym u8 = "8 word"
type_synonym u16 = "16 word"
type_synonym u32 = "32 word"
type_synonym u64 = "64 word"
type_synonym size_t = "32 word"

section \<open>Exceptions and stateful computations\<close>

text \<open>
  The exceptions the modelled code throws or lets pass.  \<open>Undefined_Behaviour\<close> marks an
  execution for which the C++ standard gives no meaning (a dangling or null dereference, an
  access outside an array).  \<open>Exit\<close> is a call of \<open>exit\<close>: it unwinds every caller like an exception that nobody
  catches.
\<close>

datatype exn =
    PECIError string
  | Out_Of_Range string
  | Invalid_Argument string
  | SdBus_Error string
  | Json_Error string
  | Regex_Error string
  | Undefined_Behaviour string
  | Exit int

text \<open>A computation keeps the state it had reached when it throws, as C++ does.\<close>

type_synonym ('s, 'a) exm = "'s \<Rightarrow> (exn + 'a) \<times> 's"

definition ret :: "'a \<Rightarrow> ('s, 'a) exm" where
  "ret a = (\<lambda>s. (Inr a, s))"

definition throw :: "exn \<Rightarrow> ('s, 'a) exm" where
  "throw e = (\<lambda>s. (Inl e, s))"

definition bindE :: "('s, 'a) exm \<Rightarrow> ('a \<Rightarrow> ('s, 'b) exm) \<Rightarrow> ('s, 'b) exm" where
  "bindE m f = (\<lambda>s. case m s of (Inl e, s') \<Rightarrow> (Inl e, s') | (Inr a, s') \<Rightarrow> f a s')"

definition thenE :: "('s, 'a) exm \<Rightarrow> ('s, 'b) exm \<Rightarrow> ('s, 'b) exm" where
  "thenE m k = bindE m (\<lambda>_. k)"

definition gets :: "('s \<Rightarrow> 'a) \<Rightarrow> ('s, 'a) exm" where
  "gets f = (\<lambda>s. (Inr (f s), s))"

definition modify :: "('s \<Rightarrow> 's) \<Rightarrow> ('s, unit) exm" where
  "modify f = (\<lambda>s. (Inr (), f s))"

definition lift_sum :: "exn + 'a \<Rightarrow> ('s, 'a) exm" where
  "lift_sum r = (\<lambda>s. (r, s))"

definition sum_bind :: "'e + 'a \<Rightarrow> ('a \<Rightarrow> 'e + 'b) \<Rightarrow> 'e + 'b" where
  "sum_bind x k = (case x of Inl e \<Rightarrow> Inl e | Inr a \<Rightarrow> k a)"

lemma sum_bind_simps [simp]: "sum_bind (Inl e) k = Inl e" "sum_bind (Inr a) k = k a"
  by (simp_all add: sum_bind_def)

lemma sum_bind_Inr_iff: "sum_bind x k = Inr b \<longleftrightarrow> (\<exists>a. x = Inr a \<and> k a = Inr b)"
  by (cases x) auto

text \<open>\<open>catchE p m h\<close> runs \<open>h\<close> on the exceptions selected by \<open>p\<close>, as a typed \<open>catch\<close> does.\<close>

definition catchE :: "(exn \<Rightarrow> bool) \<Rightarrow> ('s, 'a) exm \<Rightarrow> (exn \<Rightarrow> ('s, 'a) exm) \<Rightarrow> ('s, 'a) exm" where
  "catchE p m h = (\<lambda>s. case m s of
     (Inl e, s') \<Rightarrow> (if p e then h e s' else (Inl e, s'))
   | (Inr a, s') \<Rightarrow> (Inr a, s'))"

primrec forE :: "'b list \<Rightarrow> ('b \<Rightarrow> ('s, unit) exm) \<Rightarrow> ('s, unit) exm" where
  "forE [] f = ret ()"
| "forE (x # xs) f = thenE (f x) (forE xs f)"

primrec foldE :: "('a \<Rightarrow> 'b \<Rightarrow> ('s, 'a) exm) \<Rightarrow> 'a \<Rightarrow> 'b list \<Rightarrow> ('s, 'a) exm" where
  "foldE f a [] = ret a"
| "foldE f a (x # xs) = bindE (f a x) (\<lambda>a'. foldE f a' xs)"

lemma ret_apply [simp, exm_simps]: "ret a s = (Inr a, s)"
  by (simp add: ret_def)

lemma throw_apply [simp, exm_simps]: "throw e s = (Inl e, s)"
  by (simp add: throw_def)

lemma gets_apply [simp, exm_simps]: "gets f s = (Inr (f s), s)"
  by (simp add: gets_def)

lemma modify_apply [simp, exm_simps]: "modify f s = (Inr (), f s)"
  by (simp add: modify_def)

lemma lift_sum_apply [simp, exm_simps]: "lift_sum r s = (r, s)"
  by (simp add: lift_sum_def)

lemma bindE_apply [exm_simps]:
  "bindE m f s = (case m s of (Inl e, s') \<Rightarrow> (Inl e, s') | (Inr a, s') \<Rightarrow> f a s')"
  by (simp add: bindE_def)

lemma thenE_apply [exm_simps]:
  "thenE m k s = (case m s of (Inl e, s') \<Rightarrow> (Inl e, s') | (Inr a, s') \<Rightarrow> k s')"
  by (simp add: thenE_def bindE_def)

lemma catchE_apply [exm_simps]:
  "catchE p m h s = (case m s of
     (Inl e, s') \<Rightarrow> (if p e then h e s' else (Inl e, s'))
   | (Inr a, s') \<Rightarrow> (Inr a, s'))"
  by (simp add: catchE_def)

lemma bindE_Inr_iff:
  "bindE m f s = (Inr b, t) \<longleftrightarrow> (\<exists>a s'. m s = (Inr a, s') \<and> f a s' = (Inr b, t))"
  by (auto simp: bindE_def split: prod.splits sum.splits)

lemma thenE_Inr_iff:
  "thenE m k s = (Inr b, t) \<longleftrightarrow> (\<exists>a s'. m s = (Inr a, s') \<and> k s' = (Inr b, t))"
  by (auto simp: thenE_def bindE_Inr_iff)

lemma bindE_value: "m s = (Inr a, s') \<Longrightarrow> bindE m f s = f a s'"
  by (simp add: bindE_def)

lemma bindE_lift_sum: "bindE (lift_sum (Inr a)) f = f a" "bindE (lift_sum (Inl e)) f = throw e"
  by (simp_all add: fun_eq_iff bindE_apply)

lemma bindE_ret: "bindE (ret a) f = f a"
  by (simp add: fun_eq_iff bindE_apply)

lemma thenE_ret: "thenE (ret a) k = k"
  by (simp add: thenE_def bindE_ret)

lemma bindE_error: "m s = (Inl e, s') \<Longrightarrow> bindE m f s = (Inl e, s')"
  by (simp add: bindE_def)

lemma thenE_value: "m s = (Inr a, s') \<Longrightarrow> thenE m k s = k s'"
  by (simp add: thenE_def bindE_def)

lemma thenE_error: "m s = (Inl e, s') \<Longrightarrow> thenE m k s = (Inl e, s')"
  by (simp add: thenE_def bindE_def)

lemma forE_append: "forE (xs @ ys) f = thenE (forE xs f) (forE ys f)"
  by (induction xs) (auto simp: fun_eq_iff exm_simps split: prod.splits sum.splits)

subsection \<open>Preservation\<close>

text \<open>
  \<open>keeps P m\<close>: from any state that satisfies \<open>P\<close>, the computation ends, normally or with an
  exception, in a state that satisfies \<open>P\<close>.
\<close>

definition keeps :: "('s \<Rightarrow> bool) \<Rightarrow> ('s, 'a) exm \<Rightarrow> bool" where
  "keeps P m \<longleftrightarrow> (\<forall>s. P s \<longrightarrow> P (snd (m s)))"

lemma keepsI: "(\<And>s. P s \<Longrightarrow> P (snd (m s))) \<Longrightarrow> keeps P m"
  by (simp add: keeps_def)

lemma keepsD: "keeps P m \<Longrightarrow> P s \<Longrightarrow> m s = (r, t) \<Longrightarrow> P t"
  by (metis keeps_def snd_conv)

lemma keeps_ret [keeps_intro]: "keeps P (ret a)"
  by (simp add: keeps_def)

lemma keeps_throw [keeps_intro]: "keeps P (throw e)"
  by (simp add: keeps_def)

lemma keeps_gets [keeps_intro]: "keeps P (gets f)"
  by (simp add: keeps_def)

lemma keeps_lift_sum [keeps_intro]: "keeps P (lift_sum r)"
  by (simp add: keeps_def)

lemma keeps_modify [keeps_intro]: "(\<And>s. P s \<Longrightarrow> P (f s)) \<Longrightarrow> keeps P (modify f)"
  by (simp add: keeps_def)

lemma keeps_bindE [keeps_intro]: "keeps P m \<Longrightarrow> (\<And>a. keeps P (f a)) \<Longrightarrow> keeps P (bindE m f)"
  unfolding keeps_def bindE_def
  by (simp split: prod.splits sum.splits) (metis snd_conv)

lemma keeps_thenE [keeps_intro]: "keeps P m \<Longrightarrow> keeps P k \<Longrightarrow> keeps P (thenE m k)"
  unfolding thenE_def by (rule keeps_bindE)

lemma keeps_catchE [keeps_intro]:
  "keeps P m \<Longrightarrow> (\<And>e. keeps P (h e)) \<Longrightarrow> keeps P (catchE p m h)"
  by (force simp: keeps_def catchE_def split: prod.splits sum.splits)

lemma keeps_forE [keeps_intro]: "(\<And>x. keeps P (f x)) \<Longrightarrow> keeps P (forE xs f)"
  by (induction xs) (auto intro: keeps_intro)

lemma keeps_foldE [keeps_intro]: "(\<And>a x. keeps P (f a x)) \<Longrightarrow> keeps P (foldE f a xs)"
  by (induction xs arbitrary: a) (auto intro: keeps_intro)

lemma keeps_if [keeps_intro]: "keeps P m \<Longrightarrow> keeps P k \<Longrightarrow> keeps P (if b then m else k)"
  by simp

lemma keeps_option [keeps_intro]:
  "keeps P m \<Longrightarrow> (\<And>a. keeps P (f a)) \<Longrightarrow> keeps P (case x of None \<Rightarrow> m | Some a \<Rightarrow> f a)"
  by (cases x) auto

lemma keeps_prod [keeps_intro]:
  "(\<And>a b. keeps P (f a b)) \<Longrightarrow> keeps P (case x of (a, b) \<Rightarrow> f a b)"
  by (cases x) auto

lemma keeps_Let [keeps_intro]: "keeps P (f a) \<Longrightarrow> keeps P (Let a f)"
  by simp

text \<open>\<open>nothrow m\<close>: the computation ends normally from every state.\<close>

definition nothrow :: "('s, 'a) exm \<Rightarrow> bool" where
  "nothrow m \<longleftrightarrow> (\<forall>s. \<exists>a s'. m s = (Inr a, s'))"

lemma nothrowD: "nothrow m \<Longrightarrow> \<exists>a s'. m s = (Inr a, s')"
  by (simp add: nothrow_def)

lemma nothrow_ret [nothrow_intro]: "nothrow (ret a)"
  by (simp add: nothrow_def)

lemma nothrow_gets [nothrow_intro]: "nothrow (gets f)"
  by (simp add: nothrow_def)

lemma nothrow_modify [nothrow_intro]: "nothrow (modify f)"
  by (simp add: nothrow_def)

lemma nothrow_bindE [nothrow_intro]: "nothrow m \<Longrightarrow> (\<And>a. nothrow (f a)) \<Longrightarrow> nothrow (bindE m f)"
  unfolding nothrow_def
proof
  fix s
  assume m: "\<forall>s. \<exists>a s'. m s = (Inr a, s')" and f: "\<And>a. \<forall>s. \<exists>b s'. f a s = (Inr b, s')"
  from m obtain a s' where "m s = (Inr a, s')" by blast
  with f show "\<exists>b s'. bindE m f s = (Inr b, s')" by (simp add: bindE_value)
qed

lemma nothrow_thenE [nothrow_intro]: "nothrow m \<Longrightarrow> nothrow k \<Longrightarrow> nothrow (thenE m k)"
  unfolding thenE_def by (rule nothrow_bindE)

lemma nothrow_if [nothrow_intro]: "nothrow m \<Longrightarrow> nothrow k \<Longrightarrow> nothrow (if b then m else k)"
  by simp

lemma nothrow_option [nothrow_intro]:
  "nothrow m \<Longrightarrow> (\<And>a. nothrow (f a)) \<Longrightarrow> nothrow (case x of None \<Rightarrow> m | Some a \<Rightarrow> f a)"
  by (cases x) auto

section \<open>C++ strings\<close>

text \<open>Decimal digits: \<open>std::to_string\<close> of an unsigned value.\<close>

definition digit_char :: "nat \<Rightarrow> char" where
  "digit_char d = char_of (48 + d)"

fun to_string :: "nat \<Rightarrow> string" where
  "to_string n = (if n < 10 then [digit_char n] else to_string (n div 10) @ [digit_char (n mod 10)])"

declare to_string.simps [simp del]

definition char_code :: "char \<Rightarrow> nat" where
  "char_code c = of_char c"

definition isdigit :: "char \<Rightarrow> bool" where
  "isdigit c \<longleftrightarrow> 48 \<le> char_code c \<and> char_code c \<le> 57"

definition isspace :: "char \<Rightarrow> bool" where
  "isspace c \<longleftrightarrow> char_code c = 32 \<or> (9 \<le> char_code c \<and> char_code c \<le> 13)"

definition isalpha :: "char \<Rightarrow> bool" where
  "isalpha c \<longleftrightarrow> (65 \<le> char_code c \<and> char_code c \<le> 90) \<or> (97 \<le> char_code c \<and> char_code c \<le> 122)"

definition digits_value :: "string \<Rightarrow> nat" where
  "digits_value ds = foldl (\<lambda>a c. 10 * a + (char_code c - 48)) 0 ds"

text \<open>
  \<open>std::stoi(s, &pos)\<close> in base 10: leading white space, an optional sign, then digits.  No digit
  is \<open>std::invalid_argument\<close>, a value outside \<open>int\<close> is \<open>std::out_of_range\<close>; \<open>pos\<close> is the number
  of characters consumed.
\<close>

definition stoi :: "string \<Rightarrow> exn + int \<times> nat" where
  "stoi s =
     (let ws = length (takeWhile isspace s);
          s1 = drop ws s;
          sg = (case s1 of [] \<Rightarrow> 0 | c # _ \<Rightarrow> if c = CHR ''-'' \<or> c = CHR ''+'' then 1 else 0);
          neg = (case s1 of [] \<Rightarrow> False | c # _ \<Rightarrow> c = CHR ''-'');
          ds = takeWhile isdigit (drop sg s1);
          v = (if neg then - int (digits_value ds) else int (digits_value ds))
      in if ds = [] then Inl (Invalid_Argument ''stoi'')
         else if v < - (2 ^ 31) \<or> 2 ^ 31 - 1 < v then Inl (Out_Of_Range ''stoi'')
         else Inr (v, ws + sg + length ds))"

definition starts_with :: "string \<Rightarrow> string \<Rightarrow> bool" where
  "starts_with p s \<longleftrightarrow> take (length p) s = p"

text \<open>\<open>find_first_of\<close> / \<open>find_first_not_of\<close>; \<open>None\<close> is \<open>npos\<close>.\<close>

fun find_first :: "('a \<Rightarrow> bool) \<Rightarrow> 'a list \<Rightarrow> nat option" where
  "find_first p [] = None"
| "find_first p (x # xs) = (if p x then Some 0 else map_option Suc (find_first p xs))"

lemma find_first_eq:
  "find_first p xs = (let n = length (takeWhile (\<lambda>x. \<not> p x) xs)
                      in if n < length xs then Some n else None)"
  by (induction xs) (auto simp: Let_def)

lemma find_first_None_iff: "find_first p xs = None \<longleftrightarrow> (\<forall>x \<in> set xs. \<not> p x)"
  by (induction xs) auto

lemma find_first_SomeD:
  "find_first p xs = Some n \<Longrightarrow> n < length xs \<and> p (xs ! n) \<and> (\<forall>i < n. \<not> p (xs ! i))"
proof (induction xs arbitrary: n)
  case Nil
  then show ?case by simp
next
  case (Cons x xs)
  show ?case
  proof (cases "p x")
    case True
    with Cons.prems show ?thesis by auto
  next
    case False
    with Cons.prems obtain k where k: "find_first p xs = Some k" "n = Suc k" by auto
    from Cons.IH [OF k(1)] False k(2) show ?thesis
      by (auto simp: nth_Cons split: nat.splits)
  qed
qed

lemma char_code_digit: "d < 10 \<Longrightarrow> char_code (digit_char d) = 48 + d"
  by (simp add: char_code_def digit_char_def)

lemma isdigit_digit_char [simp]: "d < 10 \<Longrightarrow> isdigit (digit_char d)"
  by (simp add: isdigit_def char_code_digit)

lemma to_string_digits: "c \<in> set (to_string n) \<Longrightarrow> isdigit c"
proof (induction n rule: to_string.induct)
  case (1 n)
  then show ?case by (subst (asm) to_string.simps) (auto split: if_splits)
qed

lemma to_string_nonempty [simp]: "to_string n \<noteq> []"
  by (subst to_string.simps) simp

lemma digits_value_snoc: "digits_value (ds @ [c]) = 10 * digits_value ds + (char_code c - 48)"
  by (simp add: digits_value_def)

lemma digits_value_to_string [simp]: "digits_value (to_string n) = n"
proof (induction n rule: to_string.induct)
  case (1 n)
  show ?case
  proof (cases "n < 10")
    case True
    then show ?thesis
      by (subst to_string.simps) (simp add: digits_value_def char_code_digit)
  next
    case False
    with 1 have "digits_value (to_string (n div 10)) = n div 10" by simp
    with False show ?thesis
      by (subst to_string.simps) (simp add: digits_value_snoc char_code_digit)
  qed
qed

lemma to_string_inject [simp]: "to_string m = to_string n \<longleftrightarrow> m = n"
  by (metis digits_value_to_string)

lemma isdigit_not_space: "isdigit c \<Longrightarrow> \<not> isspace c"
  by (auto simp: isdigit_def isspace_def)

lemma isdigit_not_alpha: "isdigit c \<Longrightarrow> \<not> isalpha c"
  by (auto simp: isdigit_def isalpha_def)

lemma char_code_inject: "char_code c = char_code d \<longleftrightarrow> c = d"
  by (simp add: char_code_def)

lemma isdigit_no_sign: "isdigit c \<Longrightarrow> c \<noteq> CHR ''-'' \<and> c \<noteq> CHR ''+''"
  by (auto simp: isdigit_def char_code_def)

lemma stoi_digits_eq:
  assumes "ds \<noteq> []" and "\<forall>c \<in> set ds. isdigit c"
  shows "stoi ds = (if 2 ^ 31 - 1 < int (digits_value ds)
      then Inl (Out_Of_Range ''stoi'') else Inr (int (digits_value ds), length ds))"
proof -
  obtain c cs where ds: "ds = c # cs"
    using assms(1) by (cases ds) auto
  have c: "isdigit c" "\<not> isspace c" "c \<noteq> CHR ''-''" "c \<noteq> CHR ''+''"
    using assms(2) ds by (auto dest: isdigit_not_space isdigit_no_sign)
  have tw: "takeWhile isdigit cs = cs"
    using assms(2) ds by simp
  show ?thesis
    using c unfolding stoi_def ds
    by (simp add: Let_def tw del: takeWhile_eq_all_conv)
qed

lemma stoi_digits:
  assumes "ds \<noteq> []" and "\<forall>c \<in> set ds. isdigit c" and "digits_value ds < 2 ^ 31"
  shows "stoi ds = Inr (int (digits_value ds), length ds)"
  using stoi_digits_eq [OF assms(1,2)] assms(3) by simp

lemma stoi_digits_overflow:
  assumes "ds \<noteq> []" and "\<forall>c \<in> set ds. isdigit c" and "2 ^ 31 \<le> digits_value ds"
  shows "stoi ds = Inl (Out_Of_Range ''stoi'')"
  using stoi_digits_eq [OF assms(1,2)] assms(3) by simp

lemma stoi_to_string: "n < 2 ^ 31 \<Longrightarrow> stoi (to_string n) = Inr (int n, length (to_string n))"
  using stoi_digits [of "to_string n"] to_string_digits by simp

lemma stoi_range: "stoi s = Inr (v, pos) \<Longrightarrow> - (2 ^ 31) \<le> v \<and> v < 2 ^ 31"
  by (auto simp: stoi_def Let_def split: if_splits)

end
