(* ===== verification/Std_Map.thy ===== *)
theory Std_Map
  imports Prelude
begin

text \<open>
  \<open>std::map<int, T>\<close> with the identity of its nodes.  The SST back end keeps raw pointers to the
  values of two such maps, so the model records which allocation a value lives in: assigning to
  an existing key writes the value in place, inserting a key allocates a new node, and erasing a
  key frees its node.  A pointer is the key together with the allocation it pointed to.
\<close>

record 'v std_map =
  sm_nodes :: "int \<rightharpoonup> nat \<times> 'v"
  sm_fresh :: nat

type_synonym node_ptr = "int \<times> nat"

definition sm_empty :: "'v std_map" where
  "sm_empty = \<lparr>sm_nodes = Map.empty, sm_fresh = 0\<rparr>"

definition sm_at :: "'v std_map \<Rightarrow> int \<Rightarrow> 'v option" where
  "sm_at m k = map_option snd (sm_nodes m k)"

definition sm_contains :: "'v std_map \<Rightarrow> int \<Rightarrow> bool" where
  "sm_contains m k = (sm_at m k \<noteq> None)"

definition sm_ptr :: "'v std_map \<Rightarrow> int \<Rightarrow> node_ptr option" where
  "sm_ptr m k = map_option (\<lambda>(g, _). (k, g)) (sm_nodes m k)"

text \<open>Reading through a pointer; \<open>None\<close> when the node has been freed.\<close>

definition sm_deref :: "'v std_map \<Rightarrow> node_ptr \<Rightarrow> 'v option" where
  "sm_deref m p = (case sm_nodes m (fst p) of
     None \<Rightarrow> None
   | Some (g, v) \<Rightarrow> (if g = snd p then Some v else None))"

text \<open>\<open>m[k] = v\<close>.\<close>

definition sm_assign :: "int \<Rightarrow> 'v \<Rightarrow> 'v std_map \<Rightarrow> 'v std_map" where
  "sm_assign k v m = (case sm_nodes m k of
     Some (g, _) \<Rightarrow> m\<lparr>sm_nodes := (sm_nodes m)(k \<mapsto> (g, v))\<rparr>
   | None \<Rightarrow> m\<lparr>sm_nodes := (sm_nodes m)(k \<mapsto> (sm_fresh m, v)), sm_fresh := Suc (sm_fresh m)\<rparr>)"

text \<open>\<open>m.erase(k)\<close>.\<close>

definition sm_erase :: "int \<Rightarrow> 'v std_map \<Rightarrow> 'v std_map" where
  "sm_erase k m = m\<lparr>sm_nodes := (sm_nodes m)(k := None)\<rparr>"

definition sm_wf :: "'v std_map \<Rightarrow> bool" where
  "sm_wf m \<longleftrightarrow> (\<forall>k g v. sm_nodes m k = Some (g, v) \<longrightarrow> g < sm_fresh m)"

definition sm_allocated :: "'v std_map \<Rightarrow> node_ptr \<Rightarrow> bool" where
  "sm_allocated m p \<longleftrightarrow> snd p < sm_fresh m"

section \<open>The contract of a map whose nodes can be pointed to\<close>

locale node_map =
  fixes at_key :: "'m \<Rightarrow> 'k \<Rightarrow> 'v option"
    and ptr :: "'m \<Rightarrow> 'k \<Rightarrow> 'p option"
    and deref :: "'m \<Rightarrow> 'p \<Rightarrow> 'v option"
    and assign :: "'k \<Rightarrow> 'v \<Rightarrow> 'm \<Rightarrow> 'm"
    and erase :: "'k \<Rightarrow> 'm \<Rightarrow> 'm"
    and wf :: "'m \<Rightarrow> bool"
    and allocated :: "'m \<Rightarrow> 'p \<Rightarrow> bool"
  assumes at_assign: "at_key (assign k v m) = (at_key m)(k \<mapsto> v)"
    and at_erase: "at_key (erase k m) = (at_key m)(k := None)"
    and ptr_iff: "ptr m k = None \<longleftrightarrow> at_key m k = None"
    and deref_ptr: "ptr m k = Some p \<Longrightarrow> deref m p = at_key m k"
    and ptr_allocated: "wf m \<Longrightarrow> ptr m k = Some p \<Longrightarrow> allocated m p"
    and wf_assign: "wf m \<Longrightarrow> wf (assign k v m)"
    and wf_erase: "wf m \<Longrightarrow> wf (erase k m)"
    and ptr_assign: "ptr m j = Some p \<Longrightarrow> ptr (assign k v m) j = Some p"
    and allocated_assign: "allocated m p \<Longrightarrow> allocated (assign k v m) p"
    and allocated_erase: "allocated m p \<Longrightarrow> allocated (erase k m) p"
    and freed_by_erase: "ptr m k = Some p \<Longrightarrow> deref (erase k m) p = None"
    and freed_assign: "allocated m p \<Longrightarrow> deref m p = None \<Longrightarrow> deref (assign k v m) p = None"
    and freed_erase: "deref m p = None \<Longrightarrow> deref (erase k m) p = None"
begin

lemma at_assign_same [simp]: "at_key (assign k v m) k = Some v"
  by (simp add: at_assign)

lemma at_assign_other: "j \<noteq> k \<Longrightarrow> at_key (assign k v m) j = at_key m j"
  by (simp add: at_assign)

lemma at_erase_same [simp]: "at_key (erase k m) k = None"
  by (simp add: at_erase)

text \<open>A pointer follows the assignments made through its key.\<close>

lemma deref_after_assign: "ptr m k = Some p \<Longrightarrow> deref (assign k v m) p = Some v"
  using deref_ptr [OF ptr_assign] by simp

text \<open>
  Once its node is freed a pointer stays dangling, whatever is inserted and erased afterwards,
  a value under the same key included.
\<close>

lemma dangling_forever:
  assumes "wf m" and "allocated m p" and "deref m p = None"
    and "\<forall>f \<in> set fs. (\<exists>k v. f = assign k v) \<or> (\<exists>k. f = erase k)"
  shows "deref (fold (\<lambda>f m. f m) fs m) p = None"
  using assms
proof (induction fs arbitrary: m)
  case Nil
  then show ?case by simp
next
  case (Cons f fs)
  then consider k v where "f = assign k v" | k where "f = erase k" by auto
  then have "wf (f m) \<and> allocated (f m) p \<and> deref (f m) p = None"
    using Cons.prems
    by cases (auto intro: wf_assign wf_erase allocated_assign allocated_erase freed_assign freed_erase)
  with Cons.IH [of "f m"] Cons.prems(4) show ?case by simp
qed

lemma erase_then_reinsert_dangles:
  assumes "wf m" and "ptr m k = Some p"
  shows "deref (assign k v (erase k m)) p = None"
  by (rule freed_assign [OF allocated_erase [OF ptr_allocated [OF assms]] freed_by_erase [OF assms(2)]])

end

lemma sm_at_assign [simp]: "sm_at (sm_assign k v m) j = (if j = k then Some v else sm_at m j)"
  by (auto simp: sm_at_def sm_assign_def split: option.splits)

lemma sm_at_erase [simp]: "sm_at (sm_erase k m) j = (if j = k then None else sm_at m j)"
  by (simp add: sm_at_def sm_erase_def)

lemma sm_at_empty [simp]: "sm_at sm_empty k = None"
  by (simp add: sm_at_def sm_empty_def)

lemma sm_wfD: "sm_wf m \<Longrightarrow> sm_nodes m k = Some (g, v) \<Longrightarrow> g < sm_fresh m"
  by (auto simp: sm_wf_def)

lemma sm_wf_empty [simp]: "sm_wf sm_empty"
  by (simp add: sm_wf_def sm_empty_def)

lemma sm_wf_assign [simp]: "sm_wf m \<Longrightarrow> sm_wf (sm_assign k v m)"
  by (auto simp: sm_wf_def sm_assign_def split: option.splits if_splits) (meson less_SucI)

lemma sm_wf_erase [simp]: "sm_wf m \<Longrightarrow> sm_wf (sm_erase k m)"
  by (auto simp: sm_wf_def sm_erase_def split: if_splits)

interpretation sm: node_map sm_at sm_ptr sm_deref sm_assign sm_erase sm_wf sm_allocated
  by (unfold_locales; (erule sm_wf_assign | erule sm_wf_erase)?;
    auto simp: sm_at_def sm_ptr_def sm_deref_def sm_assign_def sm_erase_def
      sm_allocated_def fun_eq_iff split: option.splits if_splits intro: less_SucI dest: sm_wfD)

end
