(* ===== verification/Tpmi_Cache.thy ===== *)
theory Tpmi_Cache
  imports Std_Map
begin

text \<open>
  \<open>TPMIDBusCache\<close> of \<open>sst_tpmi.cpp\<close>: the singleton that mirrors the \<open>com.intel.TPMI\<close> objects of
  D-Bus.  Its state is the two maps of the class and the requests it has sent whose replies are
  still to come; replies and signals arrive in any order, one event at a time.

  The D-Bus library is a parameter, a record of functions: the object-path accessors of
  \<open>sdbusplus\<close> and the typed property extraction behind \<open>sdbusplus::unpackProperties\<close>, which
  throws exactly when one of the requested properties cannot be extracted.
\<close>

section \<open>Data\<close>

record CPU =
  cpu_address :: u8
  cpu_segment :: u8
  cpu_bus :: u8
  cpu_device :: u8
  cpu_function :: u8
  cpu_bar :: u8

record Feature =
  f_offset :: u32
  f_instances :: u32
  f_size :: u32
  f_enabled :: bool
  f_inBandWrite :: bool
  f_inBandRead :: bool
  f_usePCS :: bool
  f_locked :: bool

definition sstTPMIID :: int where
  "sstTPMIID = 5"

datatype MutableFeatureProperty = P_enabled | P_inBandWrite | P_inBandRead | P_usePCS | P_locked

fun mutableFeaturePropertyNames :: "MutableFeatureProperty \<Rightarrow> string" where
  "mutableFeaturePropertyNames P_enabled = ''Enabled''"
| "mutableFeaturePropertyNames P_inBandWrite = ''InBandWriteAllowed''"
| "mutableFeaturePropertyNames P_inBandRead = ''InBandReadAllowed''"
| "mutableFeaturePropertyNames P_usePCS = ''UsePCS''"
| "mutableFeaturePropertyNames P_locked = ''Locked''"

datatype dbus_variant = V_monostate | V_u8 u8 | V_u32 u32 | V_bool bool

type_synonym Properties = "(string \<times> dbus_variant) list"

record PathComponents =
  cpuIndex :: int
  featureID :: int

definition invalidPathComponent :: int where
  "invalidPathComponent = -1"

text \<open>The D-Bus library.\<close>

record sdbusplus_lib =
  op_filename :: "string \<Rightarrow> string"
  op_parent_path :: "string \<Rightarrow> string"
  op_append :: "string \<Rightarrow> string \<Rightarrow> string"
  unpack_u8 :: "Properties \<Rightarrow> string \<Rightarrow> u8 option"
  unpack_u32 :: "Properties \<Rightarrow> string \<Rightarrow> u32 option"
  unpack_bool :: "Properties \<Rightarrow> string \<Rightarrow> bool option"

text \<open>Requests in flight, with what their completion handlers have captured.\<close>

datatype dbus_request =
    GetSubTreeReq
  | GetAllReq string string string bool int
  | SetReq string string int MutableFeatureProperty bool

record TPMIDBusCache =
  cpus :: "CPU std_map"
  features :: "Feature std_map"
  outbox :: "dbus_request list"

text \<open>The signal messages of \<open>org.freedesktop.DBus.ObjectManager\<close>.\<close>

record tpmi_msg =
  msg_path :: string
  msg_member :: string
  msg_added :: "(string \<times> Properties) list"
  msg_removed :: "string list"

section \<open>Operations\<close>

text \<open>The constructor: empty maps, one \<open>GetSubTree\<close> call in flight.\<close>

definition TPMIDBusCache_new :: TPMIDBusCache where
  "TPMIDBusCache_new = \<lparr>cpus = sm_empty, features = sm_empty, outbox = [GetSubTreeReq]\<rparr>"

definition cache_contains :: "TPMIDBusCache \<Rightarrow> int \<Rightarrow> bool" where
  "cache_contains c index \<longleftrightarrow> sm_contains (cpus c) index \<and> sm_contains (features c) index"

definition sstObjectPath :: "sdbusplus_lib \<Rightarrow> nat \<Rightarrow> string" where
  "sstObjectPath L cpu_index =
     op_append L (op_append L ''/com/intel/tpmi'' (''cpu'' @ to_string cpu_index))
       (to_string (nat sstTPMIID))"

definition decode_cpu_name :: "string \<Rightarrow> int \<Rightarrow> exn + PathComponents option" where
  "decode_cpu_name name fid =
     (if \<not> starts_with ''cpu'' name then Inr None
      else case stoi (drop 3 name) of
        Inl (Invalid_Argument m) \<Rightarrow> Inr None
      | Inl e \<Rightarrow> Inl e
      | Inr (i, pos) \<Rightarrow>
          (if i < 0 \<or> pos \<noteq> length (drop 3 name) then Inr None
           else Inr (Some \<lparr>cpuIndex = i, featureID = fid\<rparr>)))"

definition decodePath :: "sdbusplus_lib \<Rightarrow> string \<Rightarrow> exn + PathComponents option" where
  "decodePath L path =
     (let name = op_filename L path in
      if \<not> starts_with ''cpu'' name then
        (case stoi name of
           Inl (Invalid_Argument m) \<Rightarrow> Inr None
         | Inl e \<Rightarrow> Inl e
         | Inr (fid, pos) \<Rightarrow>
             (if fid < 0 \<or> 255 < fid \<or> pos \<noteq> length name then Inr None
              else decode_cpu_name (op_filename L (op_parent_path L path)) fid))
      else decode_cpu_name name invalidPathComponent)"

definition removeCPU :: "int \<Rightarrow> TPMIDBusCache \<Rightarrow> TPMIDBusCache" where
  "removeCPU index c = c\<lparr>cpus := sm_erase index (cpus c)\<rparr>"

definition removeFeature :: "int \<Rightarrow> TPMIDBusCache \<Rightarrow> TPMIDBusCache" where
  "removeFeature index c = c\<lparr>features := sm_erase index (features c)\<rparr>"

text \<open>
  \<open>setProperty\<close> sends the request; its completion handler \<open>setProperty_done\<close> updates the cached
  copy through \<open>features.at(index)\<close>, which throws when the entry has gone.
\<close>

definition setProperty ::
    "sdbusplus_lib \<Rightarrow> int \<Rightarrow> MutableFeatureProperty \<Rightarrow> bool \<Rightarrow> TPMIDBusCache \<Rightarrow> TPMIDBusCache" where
  "setProperty L index property v c =
     c\<lparr>outbox := outbox c @
        [SetReq (sstObjectPath L (nat index)) (mutableFeaturePropertyNames property) index property v]\<rparr>"

fun feature_set :: "MutableFeatureProperty \<Rightarrow> bool \<Rightarrow> Feature \<Rightarrow> Feature" where
  "feature_set P_enabled v f = f\<lparr>f_enabled := v\<rparr>"
| "feature_set P_inBandWrite v f = f\<lparr>f_inBandWrite := v\<rparr>"
| "feature_set P_inBandRead v f = f\<lparr>f_inBandRead := v\<rparr>"
| "feature_set P_usePCS v f = f\<lparr>f_usePCS := v\<rparr>"
| "feature_set P_locked v f = f\<lparr>f_locked := v\<rparr>"

definition setProperty_done ::
    "int \<Rightarrow> MutableFeatureProperty \<Rightarrow> bool \<Rightarrow> bool \<Rightarrow> (TPMIDBusCache, unit) exm" where
  "setProperty_done index property v ec =
     (if ec then ret ()
      else bindE (gets (\<lambda>c. sm_at (features c) index)) (\<lambda>fo. case fo of
          None \<Rightarrow> throw (Out_Of_Range ''map::at'')
        | Some f \<Rightarrow> modify (\<lambda>c. c\<lparr>features :=
            sm_assign index (feature_set property v f) (features c)\<rparr>)))"

definition unpack_cpu :: "sdbusplus_lib \<Rightarrow> Properties \<Rightarrow> CPU option" where
  "unpack_cpu L ps =
     (case (unpack_u8 L ps ''Address'', unpack_u8 L ps ''Segment'', unpack_u8 L ps ''Bus'',
            unpack_u8 L ps ''Device'', unpack_u8 L ps ''Function'', unpack_u8 L ps ''BARIndex'') of
       (Some a, Some s, Some b, Some d, Some fn, Some br) \<Rightarrow>
         Some \<lparr>cpu_address = a, cpu_segment = s, cpu_bus = b, cpu_device = d,
               cpu_function = fn, cpu_bar = br\<rparr>
     | _ \<Rightarrow> None)"

definition addCPU :: "sdbusplus_lib \<Rightarrow> int \<Rightarrow> Properties \<Rightarrow> TPMIDBusCache \<Rightarrow> TPMIDBusCache" where
  "addCPU L index ps c =
     (case unpack_cpu L ps of
        None \<Rightarrow> removeCPU index c
      | Some cpu \<Rightarrow> c\<lparr>cpus := sm_assign index cpu (cpus c)\<rparr>)"

definition unpack_feature :: "sdbusplus_lib \<Rightarrow> Properties \<Rightarrow> Feature option" where
  "unpack_feature L ps =
     (case (unpack_u32 L ps ''Offset'', unpack_u32 L ps ''Instances'', unpack_u32 L ps ''Size'',
            unpack_bool L ps ''Enabled'', unpack_bool L ps ''InBandReadAllowed'',
            unpack_bool L ps ''InBandWriteAllowed'', unpack_bool L ps ''UsePCS'',
            unpack_bool L ps ''Locked'') of
       (Some off, Some ins, Some sz, Some en, Some rd, Some wr, Some pcs, Some lk) \<Rightarrow>
         Some \<lparr>f_offset = off, f_instances = ins, f_size = sz, f_enabled = en,
               f_inBandWrite = wr, f_inBandRead = rd, f_usePCS = pcs, f_locked = lk\<rparr>
     | _ \<Rightarrow> None)"

text \<open>
  \<open>addSSTFeature\<close>, with its early returns: a locked feature that is disabled or uses PCS cannot
  be used and is dropped; an unlocked one is cached at once and the two corrective writes are
  sent.
\<close>

definition addSSTFeature ::
    "sdbusplus_lib \<Rightarrow> int \<Rightarrow> Properties \<Rightarrow> TPMIDBusCache \<Rightarrow> TPMIDBusCache" where
  "addSSTFeature L index ps c =
     (case unpack_feature L ps of
        None \<Rightarrow> removeFeature index c
      | Some f \<Rightarrow>
          (if \<not> f_enabled f \<and> f_locked f then removeFeature index c
           else
             let c1 = (if \<not> f_enabled f then setProperty L index P_enabled True c else c) in
             if f_usePCS f \<and> f_locked f then removeFeature index c1
             else
               let c2 = (if f_usePCS f then setProperty L index P_usePCS False c1 else c1) in
               c2\<lparr>features := sm_assign index f (features c2)\<rparr>))"

section \<open>Event handlers\<close>

definition relevant_path :: "PathComponents \<Rightarrow> bool" where
  "relevant_path p \<longleftrightarrow> \<not> (featureID p \<noteq> invalidPathComponent \<and> featureID p \<noteq> sstTPMIID)"

definition signal_added ::
    "sdbusplus_lib \<Rightarrow> int \<Rightarrow> (string \<times> Properties) list \<Rightarrow> (TPMIDBusCache, unit) exm" where
  "signal_added L i ifs = forE ifs (\<lambda>(interfaceName, ps).
     if interfaceName = ''com.intel.TPMI'' then modify (addCPU L i ps)
     else if interfaceName = ''com.intel.TPMI.Feature'' then modify (addSSTFeature L i ps)
     else ret ())"

definition signal_removed :: "int \<Rightarrow> string list \<Rightarrow> (TPMIDBusCache, unit) exm" where
  "signal_removed i ifs = forE ifs (\<lambda>interfaceName.
     if interfaceName = ''com.intel.TPMI'' then modify (removeCPU i)
     else if interfaceName = ''com.intel.TPMI.Feature'' then modify (removeFeature i)
     else ret ())"

definition handleTPMISignal :: "sdbusplus_lib \<Rightarrow> tpmi_msg \<Rightarrow> (TPMIDBusCache, unit) exm" where
  "handleTPMISignal L m = bindE (lift_sum (decodePath L (msg_path m))) (\<lambda>obj. case obj of
     None \<Rightarrow> ret ()
   | Some p \<Rightarrow>
       (if \<not> relevant_path p then ret ()
        else if msg_member m = ''InterfacesAdded'' then signal_added L (cpuIndex p) (msg_added m)
        else if msg_member m = ''InterfacesRemoved'' then signal_removed (cpuIndex p) (msg_removed m)
        else ret ()))"

definition subtree_interface ::
    "string \<Rightarrow> string \<Rightarrow> int \<Rightarrow> string \<Rightarrow> (TPMIDBusCache, unit) exm" where
  "subtree_interface path svc i interface =
     (if interface = ''com.intel.TPMI''
      then modify (\<lambda>c. c\<lparr>outbox := outbox c @ [GetAllReq svc path interface True i]\<rparr>)
      else if interface \<noteq> ''com.intel.TPMI.Feature'' then ret ()
      else modify (\<lambda>c. c\<lparr>outbox := outbox c @ [GetAllReq svc path interface False i]\<rparr>))"

text \<open>The reply to \<open>GetSubTree\<close>; the list is the order in which the hash map is traversed.\<close>

definition handleGetTPMISubTree ::
    "sdbusplus_lib \<Rightarrow> bool \<Rightarrow> (string \<times> (string \<times> string list) list) list
      \<Rightarrow> (TPMIDBusCache, unit) exm" where
  "handleGetTPMISubTree L ec subTree =
     (if ec then ret ()
      else forE subTree (\<lambda>(path, services).
        bindE (lift_sum (decodePath L path)) (\<lambda>obj. case obj of
          None \<Rightarrow> ret ()
        | Some p \<Rightarrow>
            (if \<not> relevant_path p then ret ()
             else forE services (\<lambda>(svc, interfaces).
               forE interfaces (subtree_interface path svc (cpuIndex p)))))))"

definition getAll_done ::
    "sdbusplus_lib \<Rightarrow> bool \<Rightarrow> int \<Rightarrow> bool \<Rightarrow> Properties \<Rightarrow> (TPMIDBusCache, unit) exm" where
  "getAll_done L isCPUInterface i ec ps =
     (if ec then ret ()
      else if isCPUInterface then modify (addCPU L i ps)
      else modify (addSSTFeature L i ps))"

section \<open>The event loop\<close>

datatype dbus_reply =
    SubTreeReply bool "(string \<times> (string \<times> string list) list) list"
  | GetAllReply bool Properties
  | SetReply bool

datatype tpmi_event =
    TPMISignal tpmi_msg
  | Reply nat dbus_reply

definition drop_request :: "nat \<Rightarrow> TPMIDBusCache \<Rightarrow> TPMIDBusCache" where
  "drop_request n c = c\<lparr>outbox := take n (outbox c) @ drop (Suc n) (outbox c)\<rparr>"

fun run_completion ::
    "sdbusplus_lib \<Rightarrow> dbus_request \<Rightarrow> dbus_reply \<Rightarrow> (TPMIDBusCache, unit) exm" where
  "run_completion L GetSubTreeReq (SubTreeReply ec t) = handleGetTPMISubTree L ec t"
| "run_completion L (GetAllReq svc path interface isCPU i) (GetAllReply ec ps) =
     getAll_done L isCPU i ec ps"
| "run_completion L (SetReq path name i p v) (SetReply ec) = setProperty_done i p v ec"
| "run_completion L _ _ = ret ()"

fun tpmi_step :: "sdbusplus_lib \<Rightarrow> tpmi_event \<Rightarrow> (TPMIDBusCache, unit) exm" where
  "tpmi_step L (TPMISignal m) = handleTPMISignal L m"
| "tpmi_step L (Reply n r) = bindE (gets outbox) (\<lambda>reqs.
     if n < length reqs then thenE (modify (drop_request n)) (run_completion L (reqs ! n) r)
     else ret ())"

inductive tpmi_reachable :: "sdbusplus_lib \<Rightarrow> TPMIDBusCache \<Rightarrow> bool" for L where
  start: "tpmi_reachable L TPMIDBusCache_new"
| event: "tpmi_reachable L c \<Longrightarrow> tpmi_step L ev c = (r, c') \<Longrightarrow> tpmi_reachable L c'"

section \<open>The D-Bus library, by its documented behaviour\<close>

text \<open>
  For components made of letters and digits, \<open>object_path::operator/\<close> joins with a slash and
  \<open>filename\<close> and \<open>parent_path\<close> split at the last one.
\<close>

definition plain_component :: "string \<Rightarrow> bool" where
  "plain_component n \<longleftrightarrow> n \<noteq> [] \<and> list_all (\<lambda>c. isdigit c \<or> isalpha c) n"

definition object_path_ok :: "sdbusplus_lib \<Rightarrow> bool" where
  "object_path_ok L \<longleftrightarrow> (\<forall>p n. plain_component n \<longrightarrow>
     op_append L p n = p @ ''/'' @ n \<and>
     op_filename L (p @ ''/'' @ n) = n \<and> op_parent_path L (p @ ''/'' @ n) = p)"

text \<open>Property extraction: the value stored under the name, when it has the requested type.\<close>

definition unpack_ok :: "sdbusplus_lib \<Rightarrow> bool" where
  "unpack_ok L \<longleftrightarrow>
     (\<forall>ps n. unpack_u8 L ps n = (case map_of ps n of Some (V_u8 x) \<Rightarrow> Some x | _ \<Rightarrow> None)) \<and>
     (\<forall>ps n. unpack_u32 L ps n = (case map_of ps n of Some (V_u32 x) \<Rightarrow> Some x | _ \<Rightarrow> None)) \<and>
     (\<forall>ps n. unpack_bool L ps n = (case map_of ps n of Some (V_bool x) \<Rightarrow> Some x | _ \<Rightarrow> None))"

text \<open>A concrete library with this behaviour, for the witnesses.\<close>

definition plain_lib :: sdbusplus_lib where
  "plain_lib = \<lparr>
     op_filename = (\<lambda>p. rev (takeWhile (\<lambda>c. c \<noteq> CHR ''/'') (rev p))),
     op_parent_path = (\<lambda>p. rev (tl (dropWhile (\<lambda>c. c \<noteq> CHR ''/'') (rev p)))),
     op_append = (\<lambda>p n. p @ ''/'' @ n),
     unpack_u8 = (\<lambda>ps n. case map_of ps n of Some (V_u8 x) \<Rightarrow> Some x | _ \<Rightarrow> None),
     unpack_u32 = (\<lambda>ps n. case map_of ps n of Some (V_u32 x) \<Rightarrow> Some x | _ \<Rightarrow> None),
     unpack_bool = (\<lambda>ps n. case map_of ps n of Some (V_bool x) \<Rightarrow> Some x | _ \<Rightarrow> None)\<rparr>"

lemma slash_not_plain: "plain_component n \<Longrightarrow> CHR ''/'' \<notin> set n"
  by (auto simp: plain_component_def list_all_iff isdigit_def isalpha_def char_code_def)

lemma split_last_slash:
  assumes "CHR ''/'' \<notin> set n"
  shows "takeWhile (\<lambda>c. c \<noteq> CHR ''/'') (rev (p @ ''/'' @ n)) = rev n"
    and "dropWhile (\<lambda>c. c \<noteq> CHR ''/'') (rev (p @ ''/'' @ n)) = CHR ''/'' # rev p"
  using assms by (auto simp: takeWhile_append dropWhile_append)

lemma plain_lib_object_path [simp]: "object_path_ok plain_lib"
  using split_last_slash [OF slash_not_plain]
  by (auto simp: object_path_ok_def plain_lib_def)

lemma plain_lib_unpack [simp]: "unpack_ok plain_lib"
  by (simp add: unpack_ok_def plain_lib_def)

lemma plain_to_string [simp]: "plain_component (to_string n)"
  by (auto simp: plain_component_def list_all_iff dest: to_string_digits)

lemma plain_cpu_name [simp]: "plain_component ds \<Longrightarrow> plain_component (''cpu'' @ ds)"
  by (auto simp: plain_component_def isalpha_def char_code_def)

lemma plain_digits: "ds \<noteq> [] \<Longrightarrow> \<forall>c \<in> set ds. isdigit c \<Longrightarrow> plain_component ds"
  by (simp add: plain_component_def list_all_iff)

lemma object_path_filename:
  "object_path_ok L \<Longrightarrow> plain_component n \<Longrightarrow> op_filename L (p @ ''/'' @ n) = n"
  by (simp add: object_path_ok_def)

lemma object_path_parent:
  "object_path_ok L \<Longrightarrow> plain_component n \<Longrightarrow> op_parent_path L (p @ ''/'' @ n) = p"
  by (simp add: object_path_ok_def)

lemma object_path_append:
  "object_path_ok L \<Longrightarrow> plain_component n \<Longrightarrow> op_append L p n = p @ ''/'' @ n"
  by (simp add: object_path_ok_def)

lemmas object_path_laws = object_path_filename object_path_parent object_path_append

section \<open>Paths\<close>

lemma starts_with_cpu [simp]: "starts_with ''cpu'' (''cpu'' @ s)"
  by (simp add: starts_with_def)

lemma digits_not_cpu: "\<forall>c \<in> set ds. isdigit c \<Longrightarrow> ds \<noteq> [] \<Longrightarrow> \<not> starts_with ''cpu'' ds"
  by (cases ds) (auto simp: starts_with_def isdigit_def char_code_def)

lemma sstObjectPath_eq:
  "object_path_ok L \<Longrightarrow>
   sstObjectPath L n = (''/com/intel/tpmi/cpu'' @ to_string n) @ ''/'' @ to_string (nat sstTPMIID)"
  using object_path_append [OF _ plain_cpu_name [OF plain_to_string]]
  by (simp add: sstObjectPath_def object_path_append)

lemma decode_cpu_name_digits:
  "n < 2 ^ 31 \<Longrightarrow>
   decode_cpu_name (''cpu'' @ to_string n) fid = Inr (Some \<lparr>cpuIndex = int n, featureID = fid\<rparr>)"
  by (simp add: decode_cpu_name_def starts_with_def stoi_to_string)

lemma decode_feature_path:
  assumes L: "object_path_ok L" and k: "k < 256" and n: "n < 2 ^ 31"
  shows "decodePath L ((''/com/intel/tpmi/cpu'' @ to_string n) @ ''/'' @ to_string k)
     = Inr (Some \<lparr>cpuIndex = int n, featureID = int k\<rparr>)"
proof -
  have name: "op_filename L ((''/com/intel/tpmi/cpu'' @ to_string n) @ ''/'' @ to_string k) = to_string k"
    using L by (rule object_path_filename) simp
  have parent: "op_parent_path L ((''/com/intel/tpmi/cpu'' @ to_string n) @ ''/'' @ to_string k)
      = ''/com/intel/tpmi'' @ ''/'' @ (''cpu'' @ to_string n)"
    using object_path_parent [OF L plain_to_string, of "''/com/intel/tpmi/cpu'' @ to_string n" k]
    by simp
  have cpu: "op_filename L (''/com/intel/tpmi'' @ ''/'' @ (''cpu'' @ to_string n)) = ''cpu'' @ to_string n"
    using L by (rule object_path_filename) (rule plain_cpu_name, rule plain_to_string)
  have "\<not> starts_with ''cpu'' (to_string k)"
    by (rule digits_not_cpu) (auto dest: to_string_digits)
  moreover have "stoi (to_string k) = Inr (int k, length (to_string k))"
    using k by (intro stoi_to_string) simp
  ultimately show ?thesis
    using k unfolding decodePath_def name parent cpu
    using decode_cpu_name_digits [OF n] by (simp add: Let_def)
qed

lemma decode_cpu_name_range:
  assumes "decode_cpu_name name fid = Inr (Some q)"
  shows "0 \<le> cpuIndex q \<and> cpuIndex q < 2 ^ 31 \<and> featureID q = fid"
proof -
  from assms obtain i pos where i: "stoi (drop 3 name) = Inr (i, pos)" "0 \<le> i"
    and q: "q = \<lparr>cpuIndex = i, featureID = fid\<rparr>"
    by (auto simp: decode_cpu_name_def split: if_splits sum.splits exn.splits)
  from stoi_range [OF i(1)] i(2) q show ?thesis by simp
qed

lemma decode_overflow:
  assumes L: "object_path_ok L" and ds: "ds \<noteq> []" "\<forall>c \<in> set ds. isdigit c"
    and big: "2 ^ 31 \<le> digits_value ds"
  shows "decodePath L (''/com/intel/tpmi/cpu'' @ ds) = Inl (Out_Of_Range ''stoi'')"
proof -
  have "op_filename L (''/com/intel/tpmi'' @ ''/'' @ (''cpu'' @ ds)) = ''cpu'' @ ds"
    using L by (rule object_path_filename) (rule plain_cpu_name, rule plain_digits [OF ds])
  then have "op_filename L (''/com/intel/tpmi/cpu'' @ ds) = ''cpu'' @ ds" by simp
  then show ?thesis
    using stoi_digits_overflow [OF ds big]
    by (simp add: decodePath_def decode_cpu_name_def Let_def starts_with_def)
qed

text \<open>\<open>decodePath\<close> inverts \<open>sstObjectPath\<close>: the object path built for a CPU index that fits an
  \<open>int\<close> decodes to that index and the SST feature ID, so the write requests and the signals of the
  cache name the same objects.\<close>

theorem decode_sst_object_path:
  assumes "object_path_ok L" and "n < 2 ^ 31"
  shows "decodePath L (sstObjectPath L n)
    = Inr (Some \<lparr>cpuIndex = int n, featureID = sstTPMIID\<rparr>)"
  using decode_feature_path [OF assms(1) _ assms(2), of "nat sstTPMIID"]
  by (simp add: sstObjectPath_eq [OF assms(1)] sstTPMIID_def)

theorem decode_sst_object_path_witness:
  "decodePath plain_lib (sstObjectPath plain_lib 3)
    = Inr (Some \<lparr>cpuIndex = 3, featureID = sstTPMIID\<rparr>)"
  using decode_sst_object_path [of plain_lib 3] by simp

text \<open>A path that \<open>decodePath\<close> accepts gives a CPU index in the range of a non-negative \<open>int\<close> and
  a feature ID that is either the marker of a CPU object or a byte.\<close>

theorem decodePath_range:
  assumes "decodePath L path = Inr (Some p)"
  shows "0 \<le> cpuIndex p \<and> cpuIndex p < 2 ^ 31
    \<and> (featureID p = invalidPathComponent \<or> 0 \<le> featureID p \<and> featureID p \<le> 255)"
proof -
  from assms obtain name fid where "decode_cpu_name name fid = Inr (Some p)"
    and "fid = invalidPathComponent \<or> 0 \<le> fid \<and> fid \<le> 255"
    by (fastforce simp: decodePath_def Let_def split: if_splits sum.splits exn.splits)
  with decode_cpu_name_range [of name fid p] show ?thesis by auto
qed

theorem decodePath_range_witness:
  "0 \<le> (3::int) \<and> (3::int) < 2 ^ 31
    \<and> (sstTPMIID = invalidPathComponent \<or> 0 \<le> sstTPMIID \<and> sstTPMIID \<le> 255)"
  using decodePath_range [OF decode_feature_path [of plain_lib 5 3]]
  by (simp add: sstTPMIID_def)

text \<open>\<open>decodePath\<close> only catches \<open>std::invalid_argument\<close>: for a CPU object whose number does not
  fit an \<open>int\<close>, \<open>std::stoi\<close> throws \<open>std::out_of_range\<close> and the signal handler lets it escape, with
  the cache untouched.\<close>

theorem signal_handler_throws_on_large_index:
  assumes "object_path_ok L" and "ds \<noteq> []" and "\<forall>c \<in> set ds. isdigit c"
    and "2 ^ 31 \<le> digits_value ds" and "msg_path m = ''/com/intel/tpmi/cpu'' @ ds"
  shows "handleTPMISignal L m c = (Inl (Out_Of_Range ''stoi''), c)"
  using decode_overflow [OF assms(1-4)] assms(5)
  by (simp add: handleTPMISignal_def bindE_apply)

theorem signal_handler_throws_on_large_index_witness:
  "handleTPMISignal plain_lib
     \<lparr>msg_path = ''/com/intel/tpmi/cpu'' @ ''4294967296'', msg_member = ''InterfacesAdded'',
      msg_added = [], msg_removed = []\<rparr> TPMIDBusCache_new
   = (Inl (Out_Of_Range ''stoi''), TPMIDBusCache_new)"
  by (rule signal_handler_throws_on_large_index [of plain_lib "''4294967296''"])
    (simp_all add: isdigit_def char_code_def digits_value_def)

section \<open>The invariant of the cache\<close>

text \<open>
  Every cached feature can be used, at once or after the corrective writes: a locked one is
  enabled and does not use PCS.  The writes in flight are only corrective ones.
\<close>

definition corrective :: "dbus_request \<Rightarrow> bool" where
  "corrective r \<longleftrightarrow> (case r of
     SetReq path name i p v \<Rightarrow> p = P_enabled \<and> v \<or> p = P_usePCS \<and> \<not> v
   | _ \<Rightarrow> True)"

definition usable_or_unlocked :: "Feature \<Rightarrow> bool" where
  "usable_or_unlocked f \<longleftrightarrow> (f_locked f \<longrightarrow> f_enabled f \<and> \<not> f_usePCS f)"

definition cache_inv :: "TPMIDBusCache \<Rightarrow> bool" where
  "cache_inv c \<longleftrightarrow> sm_wf (cpus c) \<and> sm_wf (features c)
     \<and> (\<forall>i f. sm_at (features c) i = Some f \<longrightarrow> usable_or_unlocked f)
     \<and> list_all corrective (outbox c)"

lemma cache_inv_new: "cache_inv TPMIDBusCache_new"
  by (simp add: cache_inv_def TPMIDBusCache_new_def corrective_def)

lemma cache_inv_removeCPU: "cache_inv c \<Longrightarrow> cache_inv (removeCPU i c)"
  by (simp add: cache_inv_def removeCPU_def)

lemma cache_inv_removeFeature: "cache_inv c \<Longrightarrow> cache_inv (removeFeature i c)"
  by (simp add: cache_inv_def removeFeature_def)

lemma cache_inv_addCPU: "cache_inv c \<Longrightarrow> cache_inv (addCPU L i ps c)"
  by (auto simp: addCPU_def cache_inv_removeCPU split: option.splits)
    (simp add: cache_inv_def)

lemma cache_inv_request:
  "cache_inv c \<Longrightarrow> corrective r \<Longrightarrow> cache_inv (c\<lparr>outbox := outbox c @ [r]\<rparr>)"
  by (simp add: cache_inv_def)

lemma cache_inv_setProperty:
  "cache_inv c \<Longrightarrow> p = P_enabled \<and> v \<or> p = P_usePCS \<and> \<not> v \<Longrightarrow> cache_inv (setProperty L i p v c)"
  unfolding setProperty_def by (rule cache_inv_request) (auto simp: corrective_def)

lemma cache_inv_store:
  "cache_inv c \<Longrightarrow> usable_or_unlocked f
    \<Longrightarrow> cache_inv (c\<lparr>features := sm_assign i f (features c)\<rparr>)"
  by (simp add: cache_inv_def)

lemma cache_inv_addSSTFeature: "cache_inv c \<Longrightarrow> cache_inv (addSSTFeature L i ps c)"
  by (cases "unpack_feature L ps")
    (auto simp: addSSTFeature_def Let_def usable_or_unlocked_def
      intro!: cache_inv_removeFeature cache_inv_setProperty cache_inv_store)

lemma cache_inv_drop: "cache_inv c \<Longrightarrow> cache_inv (drop_request n c)"
  by (auto simp: cache_inv_def drop_request_def list_all_iff dest: in_set_takeD in_set_dropD)

lemma feature_set_corrective:
  "usable_or_unlocked f \<Longrightarrow> p = P_enabled \<and> v \<or> p = P_usePCS \<and> \<not> v
    \<Longrightarrow> usable_or_unlocked (feature_set p v f)"
  by (auto simp: usable_or_unlocked_def)

lemma cache_inv_setProperty_done:
  assumes "p = P_enabled \<and> v \<or> p = P_usePCS \<and> \<not> v"
  shows "keeps cache_inv (setProperty_done i p v ec)"
proof (rule keepsI)
  fix c
  assume c: "cache_inv c"
  then have "usable_or_unlocked f" if "sm_at (features c) i = Some f" for f
    using that by (auto simp: cache_inv_def)
  with c assms show "cache_inv (snd (setProperty_done i p v ec c))"
    by (auto simp: setProperty_done_def bindE_apply split: option.splits
        intro!: cache_inv_store feature_set_corrective)
qed

lemmas cache_ops_keep = cache_inv_addCPU cache_inv_addSSTFeature cache_inv_removeCPU
  cache_inv_removeFeature

lemma handleTPMISignal_keeps: "keeps cache_inv (handleTPMISignal L m)"
  unfolding handleTPMISignal_def signal_added_def signal_removed_def
  by (intro keeps_intro cache_ops_keep)

lemma subtree_interface_keeps: "keeps cache_inv (subtree_interface path svc i ifc)"
  unfolding subtree_interface_def
  by (intro keeps_intro cache_inv_request) (simp_all add: corrective_def)

lemma handleGetTPMISubTree_keeps: "keeps cache_inv (handleGetTPMISubTree L ec t)"
  unfolding handleGetTPMISubTree_def
  by (intro keeps_intro subtree_interface_keeps)

lemma getAll_done_keeps: "keeps cache_inv (getAll_done L b i ec ps)"
  unfolding getAll_done_def by (intro keeps_intro cache_ops_keep)

lemma run_completion_keeps: "corrective r \<Longrightarrow> keeps cache_inv (run_completion L r rep)"
  by (cases "(L, r, rep)" rule: run_completion.cases)
    (simp_all add: handleGetTPMISubTree_keeps getAll_done_keeps corrective_def keeps_ret
      cache_inv_setProperty_done)

lemma cache_inv_reply:
  assumes "cache_inv c"
  shows "cache_inv (snd (tpmi_step L (Reply n r) c))"
proof (cases "n < length (outbox c)")
  case True
  with assms have "corrective (outbox c ! n)"
    by (auto simp: cache_inv_def list_all_length)
  then have "keeps cache_inv (run_completion L (outbox c ! n) r)"
    by (rule run_completion_keeps)
  with True cache_inv_drop [OF assms, of n] show ?thesis
    by (simp add: bindE_apply thenE_apply keeps_def)
next
  case False
  with assms show ?thesis by (simp add: bindE_apply)
qed

lemma tpmi_step_keeps: "keeps cache_inv (tpmi_step L ev)"
  by (cases ev) (auto intro: keepsI cache_inv_reply simp: handleTPMISignal_keeps simp del: tpmi_step.simps(2))



section \<open>Corrective writes\<close>

definition feature_ready :: "TPMIDBusCache \<Rightarrow> int \<Rightarrow> bool" where
  "feature_ready c i \<longleftrightarrow>
     (case sm_at (features c) i of None \<Rightarrow> False | Some f \<Rightarrow> f_enabled f \<and> \<not> f_usePCS f)"

text \<open>The requests a call has appended to the outbox.\<close>

definition new_requests :: "TPMIDBusCache \<Rightarrow> TPMIDBusCache \<Rightarrow> dbus_request list" where
  "new_requests c c' = drop (length (outbox c)) (outbox c')"

definition deliver_ok :: "sdbusplus_lib \<Rightarrow> dbus_request \<Rightarrow> (TPMIDBusCache, unit) exm" where
  "deliver_ok L r = run_completion L r (SetReply False)"

definition enable_req :: "sdbusplus_lib \<Rightarrow> int \<Rightarrow> dbus_request" where
  "enable_req L i = SetReq (sstObjectPath L (nat i)) ''Enabled'' i P_enabled True"

definition pcs_req :: "sdbusplus_lib \<Rightarrow> int \<Rightarrow> dbus_request" where
  "pcs_req L i = SetReq (sstObjectPath L (nat i)) ''UsePCS'' i P_usePCS False"

lemma addSSTFeature_unlocked:
  assumes "unpack_feature L ps = Some f" and "\<not> f_locked f"
  shows "addSSTFeature L i ps c = c\<lparr>outbox := outbox c
      @ (if f_enabled f then [] else [enable_req L i]) @ (if f_usePCS f then [pcs_req L i] else []),
      features := sm_assign i f (features c)\<rparr>"
  using assms by (simp add: addSSTFeature_def setProperty_def enable_req_def pcs_req_def Let_def)

lemma deliver_corrective:
  assumes "sm_at (features c) i = Some f" and "r \<in> {enable_req L i, pcs_req L i}"
  shows "\<exists>c'. deliver_ok L r c = (Inr (), c') \<and> cpus c' = cpus c \<and> sm_at (features c') i =
     Some (if r = enable_req L i then f\<lparr>f_enabled := True\<rparr> else f\<lparr>f_usePCS := False\<rparr>)"
  using assms
  by (auto simp: deliver_ok_def enable_req_def pcs_req_def setProperty_done_def bindE_apply)

lemma deliver_all_corrective:
  assumes "sm_at (features c) i = Some f" and "set rs \<subseteq> {enable_req L i, pcs_req L i}"
  shows "\<exists>c'. forE rs (deliver_ok L) c = (Inr (), c') \<and> cpus c' = cpus c \<and> sm_at (features c') i =
    Some (f\<lparr>f_enabled := f_enabled f \<or> enable_req L i \<in> set rs, f_usePCS := f_usePCS f \<and> pcs_req L i \<notin> set rs\<rparr>)"
  using assms
proof (induction rs arbitrary: c f)
  case Nil
  then show ?case by simp
next
  case (Cons r rs)
  have distinct_reqs: "enable_req L i \<noteq> pcs_req L i"
    by (simp add: enable_req_def pcs_req_def)
  from deliver_corrective [OF Cons.prems(1), of r L] Cons.prems(2) obtain c1 where
    d: "deliver_ok L r c = (Inr (), c1)" "cpus c1 = cpus c" and c1: "sm_at (features c1) i =
      Some (if r = enable_req L i then f\<lparr>f_enabled := True\<rparr> else f\<lparr>f_usePCS := False\<rparr>)"
    by auto
  from Cons.IH [OF c1] Cons.prems(2) d distinct_reqs show ?case
    by (auto simp: thenE_value split: if_splits)
qed

text \<open>What \<open>addSSTFeature\<close> sends for an unlocked feature, delivered in any order, repairs exactly the two
  properties and nothing else.\<close>

lemma corrective_writes_repair:
  assumes "unpack_feature L ps = Some f" and "\<not> f_locked f"
    and "c1 = addSSTFeature L i ps c" and "set rs = set (new_requests c c1)"
  shows "\<exists>c'. forE rs (deliver_ok L) c1 = (Inr (), c') \<and> cpus c' = cpus c \<and>
    sm_at (features c') i = Some (f\<lparr>f_enabled := True, f_usePCS := False\<rparr>)"
proof -
  have c1: "c1 = c\<lparr>outbox := outbox c
      @ (if f_enabled f then [] else [enable_req L i]) @ (if f_usePCS f then [pcs_req L i] else []),
      features := sm_assign i f (features c)\<rparr>"
    using assms(3) addSSTFeature_unlocked [OF assms(1,2)] by simp
  have at: "sm_at (features c1) i = Some f" by (simp add: c1)
  have rs: "set rs = (if f_enabled f then {} else {enable_req L i}) \<union> (if f_usePCS f then {pcs_req L i} else {})"
    using assms(4) by (auto simp: new_requests_def c1)
  then have "set rs \<subseteq> {enable_req L i, pcs_req L i}" by auto
  from deliver_all_corrective [OF at this] rs show ?thesis
    by (auto simp: c1 split: if_splits)
qed

text \<open>An unlocked SST feature becomes ready: once every write that \<open>addSSTFeature\<close> has sent for it
  is answered with success, in any order, no handler has thrown and the cached feature is enabled and
  does not use PCS.\<close>

theorem corrective_writes_make_ready:
  assumes "unpack_feature L ps = Some f" and "\<not> f_locked f"
    and "c1 = addSSTFeature L i ps c" and "set rs = set (new_requests c c1)"
  shows "\<exists>c'. forE rs (deliver_ok L) c1 = (Inr (), c') \<and> feature_ready c' i"
  using corrective_writes_repair [OF assms] by (auto simp: feature_ready_def)

definition sample_properties :: Properties where
  "sample_properties =
     [(''Offset'', V_u32 64), (''Instances'', V_u32 2), (''Size'', V_u32 1024), (''Enabled'', V_bool False),
      (''InBandReadAllowed'', V_bool True), (''InBandWriteAllowed'', V_bool True),
      (''UsePCS'', V_bool True), (''Locked'', V_bool False)]"

lemma sample_properties_unpack: "unpack_feature plain_lib sample_properties = Some
   \<lparr>f_offset = 64, f_instances = 2, f_size = 1024, f_enabled = False, f_inBandWrite = True,
    f_inBandRead = True, f_usePCS = True, f_locked = False\<rparr>"
  by (simp add: unpack_feature_def plain_lib_def sample_properties_def)

theorem corrective_writes_make_ready_witness:
  "\<exists>c'. forE [pcs_req plain_lib 1, enable_req plain_lib 1] (deliver_ok plain_lib)
      (addSSTFeature plain_lib 1 sample_properties TPMIDBusCache_new) = (Inr (), c')
    \<and> feature_ready c' 1"
  by (rule corrective_writes_make_ready [OF sample_properties_unpack _ refl])
    (auto simp: addSSTFeature_unlocked [OF sample_properties_unpack] new_requests_def)

text \<open>The completion handler of a property write looks its feature up with \<open>map::at\<close>: when the
  feature has been removed while the write was in flight, a successful reply makes the handler throw
  \<open>std::out_of_range\<close> into the event loop, and the cache stays as it was.\<close>

theorem write_reply_after_removal_throws:
  assumes "n < length (outbox c)" and "outbox c ! n = SetReq path name i p v"
    and "sm_at (features c) i = None"
  shows "tpmi_step L (Reply n (SetReply False)) c
    = (Inl (Out_Of_Range ''map::at''), drop_request n c)"
  using assms
  by (simp add: bindE_apply thenE_apply setProperty_done_def drop_request_def)

theorem write_reply_after_removal_throws_witness:
  "tpmi_step plain_lib (Reply 1 (SetReply False))
      (removeFeature 1 (addSSTFeature plain_lib 1 sample_properties TPMIDBusCache_new))
    = (Inl (Out_Of_Range ''map::at''), drop_request 1
      (removeFeature 1 (addSSTFeature plain_lib 1 sample_properties TPMIDBusCache_new)))"
  by (rule write_reply_after_removal_throws [of _ _ "sstObjectPath plain_lib 1" "''Enabled''" 1 P_enabled True])
    (simp_all add: addSSTFeature_unlocked [OF sample_properties_unpack] removeFeature_def
      TPMIDBusCache_new_def enable_req_def)

lemma unpack_featureD:
  assumes "unpack_feature L ps = Some f"
  shows "unpack_u32 L ps ''Offset'' = Some (f_offset f)" "unpack_u32 L ps ''Instances'' = Some (f_instances f)"
    "unpack_u32 L ps ''Size'' = Some (f_size f)" "unpack_bool L ps ''Enabled'' = Some (f_enabled f)"
    "unpack_bool L ps ''InBandReadAllowed'' = Some (f_inBandRead f)"
    "unpack_bool L ps ''InBandWriteAllowed'' = Some (f_inBandWrite f)"
    "unpack_bool L ps ''UsePCS'' = Some (f_usePCS f)" "unpack_bool L ps ''Locked'' = Some (f_locked f)"
  using assms by (auto simp: unpack_feature_def split: option.splits)

lemma unpack_bool_Cons:
  "unpack_ok L \<Longrightarrow> unpack_bool L ((n, V_bool v) # ps) m = (if m = n then Some v else unpack_bool L ps m)"
  by (simp add: unpack_ok_def)

lemma unpack_u32_Cons:
  "unpack_ok L \<Longrightarrow> unpack_u32 L ((n, V_bool v) # ps) m = (if m = n then None else unpack_u32 L ps m)"
  by (simp add: unpack_ok_def)

text \<open>The cache update after a successful property write agrees with reading the properties again:
  unpacking the property list in which the written D-Bus property has its new value gives the feature
  that the completion handler stores.\<close>

theorem write_agrees_with_reread:
  assumes "unpack_ok L" and "unpack_feature L ps = Some f"
  shows "unpack_feature L ((mutableFeaturePropertyNames p, V_bool v) # ps) = Some (feature_set p v f)"
  using unpack_featureD [OF assms(2)]
  by (cases p) (simp_all add: unpack_feature_def unpack_bool_Cons [OF assms(1)] unpack_u32_Cons [OF assms(1)])

theorem write_agrees_with_reread_witness:
  "unpack_feature plain_lib ((''UsePCS'', V_bool False) # sample_properties) = Some
   \<lparr>f_offset = 64, f_instances = 2, f_size = 1024, f_enabled = False, f_inBandWrite = True,
    f_inBandRead = True, f_usePCS = False, f_locked = False\<rparr>"
  using write_agrees_with_reread [OF plain_lib_unpack sample_properties_unpack, of P_usePCS False]
  by simp

end
