(* ===== verification/Peci_Wake.thy ===== *)
theory Peci_Wake
  imports Tpmi_Cache
begin

text \<open>
  \<open>WakeOnPECIManager\<close> of \<open>sst_tpmi.cpp\<close>: PECI operations that are retried once with wake-on-PECI
  when the CPU reports itself unavailable, and the wake-on-PECI bit of every die behind them.

  \<open>libpeci\<close> and the helpers of \<open>cpuinfo_utils.hpp\<close> and \<open>speed_select.hpp\<close> are a parameter: a
  record of functions over a hardware state of any type.  A PECI call returns its status, the
  completion code and what it has read, and the hardware state after it.
\<close>

section \<open>The libraries and the state\<close>

record ('h, 'st) peci_lib =
  peci_RdPkgConfig :: "u8 \<Rightarrow> nat \<Rightarrow> nat \<Rightarrow> 'h \<Rightarrow> ('st \<times> u8 \<times> u32) \<times> 'h"
  peci_WrPkgConfig_dom :: "u8 \<Rightarrow> nat \<Rightarrow> nat \<Rightarrow> u32 \<Rightarrow> 'h \<Rightarrow> ('st \<times> u8) \<times> 'h"
  peci_RdEndPointConfigMmio :: "CPU \<Rightarrow> u64 \<Rightarrow> 'h \<Rightarrow> ('st \<times> u8 \<times> u64) \<times> 'h"
  peci_WrEndPointConfigMmio :: "CPU \<Rightarrow> u64 \<Rightarrow> u64 \<Rightarrow> 'h \<Rightarrow> ('st \<times> u8 \<times> unit) \<times> 'h"
  checkPECIStatus :: "'st \<Rightarrow> u8 \<Rightarrow> bool"
  PECI_CC_SUCCESS :: 'st
  PECI_CC_TIMEOUT :: 'st
  MIN_CLIENT_ADDR :: u8
  mask_bits :: "u64 \<Rightarrow> nat \<Rightarrow> nat \<Rightarrow> u64"
  bit_value :: "nat \<Rightarrow> u64"
  convertMaskToList :: "u64 \<Rightarrow> u32 list"

datatype WakePolicy = wakeAllowed | dontWake

text \<open>
  The state of a register set: the D-Bus cache, the flag of its wake manager, the two function
  static caches and the hardware.
\<close>

record 'h sst_state =
  tpmi :: TPMIDBusCache
  peciWoken :: bool
  dieMasks :: "u8 \<rightharpoonup> u32"
  cachedRegs :: "u8 \<times> u32 \<times> size_t \<rightharpoonup> u64"
  hw :: 'h

definition liftHw :: "('h \<Rightarrow> 'a \<times> 'h) \<Rightarrow> ('h sst_state, 'a) exm" where
  "liftHw opn = (\<lambda>s. case opn (hw s) of (r, h') \<Rightarrow> (Inr r, s\<lparr>hw := h'\<rparr>))"

lemma liftHw_apply [exm_simps]: "opn (hw s) = (r, h') \<Longrightarrow> liftHw opn s = (Inr r, s\<lparr>hw := h'\<rparr>)"
  by (simp add: liftHw_def)

lemma keeps_liftHw:
  "(\<And>s r h'. P s \<Longrightarrow> opn (hw s) = (r, h') \<Longrightarrow> P (s\<lparr>hw := h'\<rparr>)) \<Longrightarrow> keeps P (liftHw opn)"
  by (auto simp: keeps_def liftHw_def split: prod.splits)

section \<open>Operations\<close>

definition pkgIDIndex :: nat where "pkgIDIndex = 0"
definition diePresenceParam :: nat where "diePresenceParam = 7"
definition wakeOnPECIIndex :: nat where "wakeOnPECIIndex = 5"

text \<open>The die mask of a CPU is read once and kept in a function static map.\<close>

definition readDieMask :: "('h, 'st) peci_lib \<Rightarrow> u8 \<Rightarrow> ('h sst_state, u32) exm" where
  "readDieMask L cpuAddr = bindE (gets dieMasks) (\<lambda>dm. case dm cpuAddr of
     Some m \<Rightarrow> ret m
   | None \<Rightarrow> bindE (liftHw (peci_RdPkgConfig L cpuAddr pkgIDIndex diePresenceParam)) (\<lambda>(status, cc, data).
       if \<not> checkPECIStatus L status cc then throw (PECIError ''Failed to read die mask'')
       else thenE (modify (\<lambda>s. s\<lparr>dieMasks := (dieMasks s)(cpuAddr \<mapsto> data)\<rparr>)) (ret data)))"

text \<open>The \<open>do ... while (status == PECI_CC_TIMEOUT && ++tries <= 5)\<close> loop around one write.\<close>

function wakeWrite ::
    "('h, 'st) peci_lib \<Rightarrow> u8 \<Rightarrow> nat \<Rightarrow> bool \<Rightarrow> nat \<Rightarrow> ('h sst_state, 'st \<times> u8) exm" where
  "wakeWrite L cpuAddr i enable tries =
     bindE (liftHw (peci_WrPkgConfig_dom L cpuAddr i wakeOnPECIIndex (if enable then 1 else 0)))
       (\<lambda>(status, cc).
         if status = PECI_CC_TIMEOUT L \<and> Suc tries \<le> 5 then wakeWrite L cpuAddr i enable (Suc tries)
         else ret (status, cc))"
  by pat_completeness auto
termination
  by (relation "measure (\<lambda>(L, cpuAddr, i, enable, tries). 6 - tries)") auto

declare wakeWrite.simps [simp del]

definition setWakeDie ::
    "('h, 'st) peci_lib \<Rightarrow> u8 \<Rightarrow> bool \<Rightarrow> nat \<Rightarrow> ('h sst_state, unit) exm" where
  "setWakeDie L cpuAddr enable i = bindE (wakeWrite L cpuAddr i enable 0) (\<lambda>(status, cc).
     if \<not> checkPECIStatus L status cc then throw (PECIError ''Failed to set Wake-On-PECI mode bit'')
     else if enable then modify (\<lambda>s. s\<lparr>peciWoken := True\<rparr>)
     else ret ())"

definition setWakeOnPECI :: "('h, 'st) peci_lib \<Rightarrow> u8 \<Rightarrow> bool \<Rightarrow> ('h sst_state, unit) exm" where
  "setWakeOnPECI L cpuAddr enable = bindE (gets peciWoken) (\<lambda>w.
     if enable = w then ret ()
     else bindE (readDieMask L cpuAddr) (\<lambda>dieMask.
       thenE (forE [0..<32] (\<lambda>i. if \<not> bit dieMask i then ret () else setWakeDie L cpuAddr enable i))
         (if \<not> enable then modify (\<lambda>s. s\<lparr>peciWoken := False\<rparr>) else ret ())))"

definition ccUnavailResource :: u8 where "ccUnavailResource = 0x82"

definition peciOpWithWakeRetry ::
    "('h, 'st) peci_lib \<Rightarrow> WakePolicy \<Rightarrow> u8 \<Rightarrow> ('h \<Rightarrow> ('st \<times> u8 \<times> 'a) \<times> 'h)
      \<Rightarrow> ('h sst_state, 'st \<times> u8 \<times> 'a) exm" where
  "peciOpWithWakeRetry L policy cpuAddr peciOp = bindE (liftHw peciOp) (\<lambda>(status, cc, data).
     if policy = wakeAllowed \<and> status = PECI_CC_SUCCESS L \<and> cc = ccUnavailResource
     then thenE (setWakeOnPECI L cpuAddr True) (liftHw peciOp)
     else ret (status, cc, data))"

definition is_PECIError :: "exn \<Rightarrow> bool" where
  "is_PECIError e \<longleftrightarrow> (case e of PECIError _ \<Rightarrow> True | _ \<Rightarrow> False)"

definition wakeManager_destroy :: "('h, 'st) peci_lib \<Rightarrow> u8 \<Rightarrow> ('h sst_state, unit) exm" where
  "wakeManager_destroy L cpuAddr =
     catchE is_PECIError
       (bindE (gets peciWoken) (\<lambda>w. if w then setWakeOnPECI L cpuAddr False else ret ()))
       (\<lambda>_. ret ())"

section \<open>Frame properties\<close>

text \<open>No wake operation touches the D-Bus cache or the register cache.\<close>

definition same_caches :: "'h sst_state \<Rightarrow> 'h sst_state \<Rightarrow> bool" where
  "same_caches s0 s \<longleftrightarrow> tpmi s = tpmi s0 \<and> cachedRegs s = cachedRegs s0"

lemma same_caches_refl [simp]: "same_caches s s"
  by (simp add: same_caches_def)

lemma wakeWrite_frame:
  assumes "\<And>s r h'. P s \<Longrightarrow> peci_WrPkgConfig_dom L a i wakeOnPECIIndex (if en then 1 else 0) (hw s) = (r, h')
    \<Longrightarrow> P (s\<lparr>hw := h'\<rparr>)"
  shows "keeps P (wakeWrite L a i en n)"
proof (induction "6 - n" arbitrary: n)
  case 0
  then show ?case
    by (subst wakeWrite.simps) (auto intro!: keeps_intro keeps_liftHw assms)
next
  case (Suc k)
  then have "keeps P (wakeWrite L a i en (Suc n))" by simp
  then show ?case
    by (subst wakeWrite.simps) (auto intro!: keeps_intro keeps_liftHw assms)
qed

lemma setWakeDie_same_caches: "keeps (same_caches s0) (setWakeDie L a en i)"
  unfolding setWakeDie_def
  by (intro keeps_intro wakeWrite_frame) (simp_all add: same_caches_def)

lemma readDieMask_same_caches: "keeps (same_caches s0) (readDieMask L a)"
  unfolding readDieMask_def
  by (intro keeps_intro keeps_liftHw) (simp_all add: same_caches_def)

lemma setWakeOnPECI_same_caches: "keeps (same_caches s0) (setWakeOnPECI L a en)"
  unfolding setWakeOnPECI_def
  by (intro keeps_intro readDieMask_same_caches setWakeDie_same_caches) (simp add: same_caches_def)

lemma peciOp_same_caches: "keeps (same_caches s0) (peciOpWithWakeRetry L pol a opn)"
  unfolding peciOpWithWakeRetry_def
  by (intro keeps_intro keeps_liftHw setWakeOnPECI_same_caches) (simp_all add: same_caches_def)

section \<open>The wake-on-PECI bits\<close>

text \<open>
  What the code relies on in the wake writes: \<open>woken\<close> reads the set of dies whose wake-on-PECI bit
  is set; a write that passes \<open>checkPECIStatus\<close> has set or cleared the bit of its die, a write that
  does not has changed none, a timeout does not pass, and reading the configuration changes nothing.
\<close>

definition wake_ok :: "('h, 'st) peci_lib \<Rightarrow> u8 \<Rightarrow> ('h \<Rightarrow> nat set) \<Rightarrow> bool" where
  "wake_ok L a woken \<longleftrightarrow>
     (\<forall>i v h st cc h'. peci_WrPkgConfig_dom L a i wakeOnPECIIndex v h = ((st, cc), h') \<longrightarrow>
        woken h' = (if checkPECIStatus L st cc
          then if v = 1 then insert i (woken h) else woken h - {i} else woken h)) \<and>
     (\<forall>cc. \<not> checkPECIStatus L (PECI_CC_TIMEOUT L) cc) \<and>
     (\<forall>h r h'. peci_RdPkgConfig L a pkgIDIndex diePresenceParam h = (r, h') \<longrightarrow> woken h' = woken h)"

definition after_wake_write :: "bool \<Rightarrow> nat \<Rightarrow> nat set \<Rightarrow> nat set" where
  "after_wake_write en i w = (if en then insert i w else w - {i})"

lemma wake_write_step:
  assumes "wake_ok L a woken"
    and "peci_WrPkgConfig_dom L a i wakeOnPECIIndex (if en then 1 else 0) h = ((st, cc), h')"
  shows "woken h' = (if checkPECIStatus L st cc then after_wake_write en i (woken h) else woken h)"
  using assms by (auto simp: wake_ok_def after_wake_write_def split: if_splits)

lemma wakeWrite_spec:
  assumes L: "wake_ok L a woken"
  shows "wakeWrite L a i en n s = (r, s') \<Longrightarrow> (case r of Inl e \<Rightarrow> False
    | Inr (st, cc) \<Rightarrow> s' = s\<lparr>hw := hw s'\<rparr> \<and> woken (hw s') =
        (if checkPECIStatus L st cc then after_wake_write en i (woken (hw s)) else woken (hw s)))"
proof (induction "6 - n" arbitrary: n s)
  case 0
  obtain st cc h' where w: "peci_WrPkgConfig_dom L a i wakeOnPECIIndex (if en then 1 else 0) (hw s) = ((st, cc), h')"
    by (metis surj_pair)
  have "r = Inr (st, cc) \<and> s' = s\<lparr>hw := h'\<rparr>"
    using 0 w by (subst (asm) wakeWrite.simps) (simp add: bindE_apply liftHw_def)
  with wake_write_step [OF L w] show ?case by simp
next
  case (Suc k)
  obtain st cc h' where w: "peci_WrPkgConfig_dom L a i wakeOnPECIIndex (if en then 1 else 0) (hw s) = ((st, cc), h')"
    by (metis surj_pair)
  note step = wake_write_step [OF L w]
  show ?case
  proof (cases "st = PECI_CC_TIMEOUT L \<and> Suc n \<le> 5")
    case True
    then have "\<not> checkPECIStatus L st cc" using L by (auto simp: wake_ok_def)
    moreover have "wakeWrite L a i en (Suc n) (s\<lparr>hw := h'\<rparr>) = (r, s')"
      using Suc.prems True w by (subst (asm) wakeWrite.simps) (simp add: bindE_apply liftHw_def)
    moreover have "k = 6 - Suc n" using Suc.hyps(2) by simp
    ultimately show ?thesis
      using Suc.hyps(1) [of "Suc n" "s\<lparr>hw := h'\<rparr>"] step by (auto split: sum.splits)
  next
    case False
    then have "r = Inr (st, cc) \<and> s' = s\<lparr>hw := h'\<rparr>"
      using Suc.prems w by (subst (asm) wakeWrite.simps) (auto simp: bindE_apply liftHw_def)
    with step show ?thesis by simp
  qed
qed

text \<open>One die: what the write does to the bits and to the flag, with and without an exception.\<close>

lemma setWakeDie_spec:
  assumes L: "wake_ok L a woken" and run: "setWakeDie L a en i s = (r, s')"
  shows "dieMasks s' = dieMasks s \<and>
    (case r of
       Inr _ \<Rightarrow> woken (hw s') = after_wake_write en i (woken (hw s)) \<and> peciWoken s' = (en \<or> peciWoken s)
     | Inl e \<Rightarrow> is_PECIError e \<and> woken (hw s') = woken (hw s) \<and> peciWoken s' = peciWoken s)"
proof -
  obtain r1 s1 where w: "wakeWrite L a i en 0 s = (r1, s1)" by fastforce
  from wakeWrite_spec [OF L w] obtain st cc h where r1: "r1 = Inr (st, cc)" and s1: "s1 = s\<lparr>hw := h\<rparr>"
    and wk: "woken h = (if checkPECIStatus L st cc then after_wake_write en i (woken (hw s)) else woken (hw s))"
    by (auto split: sum.splits)
  show ?thesis
    using run wk
    by (auto simp: setWakeDie_def bindE_apply w r1 s1 is_PECIError_def split: if_splits)
qed

definition wakeLoop :: "('h, 'st) peci_lib \<Rightarrow> u8 \<Rightarrow> bool \<Rightarrow> u32 \<Rightarrow> nat list \<Rightarrow> ('h sst_state, unit) exm" where
  "wakeLoop L a en m xs = forE xs (\<lambda>i. if \<not> bit m i then ret () else setWakeDie L a en i)"

lemma wakeLoop_spec:
  assumes L: "wake_ok L a woken"
  shows "wakeLoop L a en m xs s = (r, s') \<Longrightarrow> dieMasks s' = dieMasks s \<and>
    (peciWoken s \<longrightarrow> peciWoken s') \<and> (\<not> en \<longrightarrow> peciWoken s' = peciWoken s) \<and>
    (woken (hw s') \<noteq> woken (hw s) \<longrightarrow> en \<longrightarrow> peciWoken s') \<and>
    woken (hw s') \<subseteq> woken (hw s) \<union> (if en then {i \<in> set xs. bit m i} else {}) \<and>
    (case r of Inl e \<Rightarrow> is_PECIError e
     | Inr _ \<Rightarrow> woken (hw s') = (if en then woken (hw s) \<union> {i \<in> set xs. bit m i}
                               else woken (hw s) - {i \<in> set xs. bit m i}))"
proof (induction xs arbitrary: s)
  case Nil
  then show ?case by (auto simp: wakeLoop_def)
next
  case (Cons x xs)
  show ?case
  proof (cases "bit m x")
    case False
    with Cons.prems have "wakeLoop L a en m xs s = (r, s')" by (simp add: wakeLoop_def thenE_apply)
    from Cons.IH [OF this] False show ?thesis by (auto split: sum.splits)
  next
    case True
    obtain r1 s1 where d: "setWakeDie L a en x s = (r1, s1)" by fastforce
    note spec = setWakeDie_spec [OF L d]
    show ?thesis
    proof (cases r1)
      case (Inl e)
      with Cons.prems d True have "r = Inl e \<and> s' = s1" by (simp add: wakeLoop_def thenE_apply)
      with spec Inl show ?thesis by auto
    next
      case (Inr u)
      with Cons.prems d True have "wakeLoop L a en m xs s1 = (r, s')" by (simp add: wakeLoop_def thenE_apply)
      from Cons.IH [OF this] spec Inr True show ?thesis
        by (cases en) (auto simp: after_wake_write_def split: sum.splits)
    qed
  qed
qed

lemma readDieMask_spec:
  assumes "wake_ok L a woken" and "readDieMask L a s = (r, s')"
  shows "woken (hw s') = woken (hw s) \<and> peciWoken s' = peciWoken s \<and>
    (case r of Inl e \<Rightarrow> is_PECIError e \<and> dieMasks s' = dieMasks s
     | Inr m \<Rightarrow> dieMasks s' a = Some m \<and> (dieMasks s a = None \<or> dieMasks s a = Some m))"
  using assms
  by (auto simp: readDieMask_def bindE_apply thenE_apply liftHw_def wake_ok_def is_PECIError_def
      split: option.splits prod.splits sum.splits if_splits)

lemma setWakeOnPECI_unfold:
  "setWakeOnPECI L a en = bindE (gets peciWoken) (\<lambda>w. if en = w then ret ()
     else bindE (readDieMask L a) (\<lambda>m. thenE (wakeLoop L a en m [0..<32])
       (if \<not> en then modify (\<lambda>s. s\<lparr>peciWoken := False\<rparr>) else ret ())))"
  unfolding setWakeOnPECI_def wakeLoop_def by (rule refl)

text \<open>
  The invariant of a wake manager: only dies of the cached mask have their bit set, and when some
  die has, the flag that makes the destructor clear the bits is set.
\<close>

definition wake_inv :: "u8 \<Rightarrow> ('h \<Rightarrow> nat set) \<Rightarrow> 'h sst_state \<Rightarrow> bool" where
  "wake_inv a woken s \<longleftrightarrow> (woken (hw s) \<noteq> {} \<longrightarrow> peciWoken s) \<and>
     woken (hw s) \<subseteq> (case dieMasks s a of None \<Rightarrow> {} | Some m \<Rightarrow> {i. i < 32 \<and> bit m i})"

lemma setWakeOnPECI_spec:
  assumes L: "wake_ok L a woken" and inv: "wake_inv a woken s"
    and run: "setWakeOnPECI L a en s = (r, s')"
  shows "wake_inv a woken s' \<and> (\<forall>e. r = Inl e \<longrightarrow> is_PECIError e) \<and>
    (r = Inr () \<longrightarrow> en \<noteq> peciWoken s \<longrightarrow> (\<exists>m. dieMasks s' a = Some m \<and>
       woken (hw s') = (if en then {i. i < 32 \<and> bit m i} else {})) \<and> (\<not> en \<longrightarrow> \<not> peciWoken s'))"
proof (cases "en = peciWoken s")
  case True
  with run inv show ?thesis by (auto simp: setWakeOnPECI_unfold bindE_apply)
next
  case False
  obtain r1 s1 where d: "readDieMask L a s = (r1, s1)" by fastforce
  note rd = readDieMask_spec [OF L d]
  show ?thesis
  proof (cases r1)
    case (Inl e)
    with False run d have "r = Inl e \<and> s' = s1" by (simp add: setWakeOnPECI_unfold bindE_apply)
    with rd Inl inv show ?thesis by (auto simp: wake_inv_def)
  next
    case (Inr m)
    obtain r2 s2 where lp: "wakeLoop L a en m [0..<32] s1 = (r2, s2)" by fastforce
    note loop = wakeLoop_spec [OF L lp]
    have bits: "{i \<in> set [0..<32]. bit m i} = {i. i < 32 \<and> bit m i}" by auto
    have sub: "woken (hw s) \<subseteq> {i. i < 32 \<and> bit m i}"
      using rd Inr inv by (auto simp: wake_inv_def)
    have res: "r = r2" "s' = (if en \<or> isl r2 then s2 else s2\<lparr>peciWoken := False\<rparr>)"
      using run False d Inr lp
      by (auto simp: setWakeOnPECI_unfold bindE_apply thenE_apply split: sum.splits if_splits)
    show ?thesis
      using rd loop bits sub inv Inr res False
      by (cases r2; cases en) (auto simp: wake_inv_def)
  qed
qed

section \<open>The number of wake writes\<close>

definition counts_writes :: "('h, 'st) peci_lib \<Rightarrow> u8 \<Rightarrow> ('h \<Rightarrow> nat) \<Rightarrow> bool" where
  "counts_writes L a cnt \<longleftrightarrow>
     (\<forall>i v h r h'. peci_WrPkgConfig_dom L a i wakeOnPECIIndex v h = (r, h') \<longrightarrow> cnt h' = Suc (cnt h)) \<and>
     (\<forall>h r h'. peci_RdPkgConfig L a pkgIDIndex diePresenceParam h = (r, h') \<longrightarrow> cnt h' = cnt h)"

lemma wakeWrite_count:
  assumes "counts_writes L a cnt"
  shows "n \<le> 5 \<Longrightarrow> wakeWrite L a i en n s = (r, s') \<Longrightarrow> cnt (hw s') \<le> cnt (hw s) + (6 - n)"
proof (induction "6 - n" arbitrary: n s)
  case 0
  then show ?case by simp
next
  case (Suc k)
  obtain st cc h' where w: "peci_WrPkgConfig_dom L a i wakeOnPECIIndex (if en then 1 else 0) (hw s) = ((st, cc), h')"
    by (metis surj_pair)
  with assms have c: "cnt h' = Suc (cnt (hw s))" by (auto simp: counts_writes_def)
  show ?case
  proof (cases "st = PECI_CC_TIMEOUT L \<and> Suc n \<le> 5")
    case True
    then have "wakeWrite L a i en (Suc n) (s\<lparr>hw := h'\<rparr>) = (r, s')"
      using Suc.prems(2) w by (subst (asm) wakeWrite.simps) (simp add: bindE_apply liftHw_def)
    have "k = 6 - Suc n" and "Suc n \<le> 5" using Suc.hyps(2) True by simp_all
    from Suc.hyps(1) [OF this \<open>wakeWrite L a i en (Suc n) _ = _\<close>] c
    have "cnt (hw s') \<le> Suc (cnt (hw s)) + (6 - Suc n)" by simp
    with Suc.prems(1) show ?thesis by linarith
  next
    case False
    then have "s' = s\<lparr>hw := h'\<rparr>"
      using Suc.prems(2) w by (subst (asm) wakeWrite.simps) (auto simp: bindE_apply liftHw_def)
    with c Suc.prems(1) show ?thesis by simp
  qed
qed

lemma setWakeDie_count:
  assumes "counts_writes L a cnt" and "setWakeDie L a en i s = (r, s')"
  shows "cnt (hw s') \<le> cnt (hw s) + 6"
proof -
  obtain r1 s1 where w: "wakeWrite L a i en 0 s = (r1, s1)" by fastforce
  from assms(2) w have "hw s' = hw s1"
    by (auto simp: setWakeDie_def bindE_apply split: sum.splits if_splits prod.splits)
  with wakeWrite_count [OF assms(1) _ w] show ?thesis by simp
qed

lemma wakeLoop_count:
  assumes "counts_writes L a cnt"
  shows "wakeLoop L a en m xs s = (r, s') \<Longrightarrow> cnt (hw s') \<le> cnt (hw s) + 6 * length (filter (bit m) xs)"
proof (induction xs arbitrary: s)
  case Nil
  then show ?case by (simp add: wakeLoop_def)
next
  case (Cons x xs)
  obtain r1 s1 where d: "setWakeDie L a en x s = (r1, s1)" by fastforce
  from setWakeDie_count [OF assms d] Cons.IH [of s1] Cons.IH [of s] Cons.prems d show ?case
    by (cases r1) (auto simp: wakeLoop_def thenE_apply split: if_splits)
qed

section \<open>A concrete library, for the witnesses\<close>

record demo_hw =
  dh_woken :: "nat set"
  dh_writes :: nat
  dh_asleep :: bool
  dh_mem :: "u64 \<Rightarrow> u64 option"

text \<open>A CPU with dies 0 and 2; an address without memory answers with completion code 0x90, and a
  sleeping CPU without a woken die with 0x82.\<close>

definition demo_lib :: "(demo_hw, nat) peci_lib" where
  "demo_lib = \<lparr>
     peci_RdPkgConfig = (\<lambda>a ix p h. ((0, 0x40, 5), h)),
     peci_WrPkgConfig_dom = (\<lambda>a i ix v h. ((0, 0x40),
        h\<lparr>dh_woken := (if v = 1 then insert i (dh_woken h) else dh_woken h - {i}),
          dh_writes := Suc (dh_writes h)\<rparr>)),
     peci_RdEndPointConfigMmio = (\<lambda>c off h.
        (if dh_asleep h \<and> dh_woken h = {} then (0, 0x82, 0)
         else case dh_mem h off of Some v \<Rightarrow> (0, 0x40, v) | None \<Rightarrow> (0, 0x90, 0), h)),
     peci_WrEndPointConfigMmio = (\<lambda>c off v h. ((0, 0x40, ()), h\<lparr>dh_mem := (dh_mem h)(off \<mapsto> v)\<rparr>)),
     checkPECIStatus = (\<lambda>st cc. st = 0 \<and> cc = 0x40),
     PECI_CC_SUCCESS = 0,
     PECI_CC_TIMEOUT = 6,
     MIN_CLIENT_ADDR = 0x30,
     mask_bits = (\<lambda>v lo hi. take_bit (Suc hi - lo) (drop_bit lo v)),
     bit_value = (\<lambda>n. push_bit n 1),
     convertMaskToList = (\<lambda>m. map of_nat (filter (bit m) [0..<64]))\<rparr>"

definition demo_state :: "demo_hw sst_state" where
  "demo_state = \<lparr>tpmi = TPMIDBusCache_new, peciWoken = False, dieMasks = [0x30 \<mapsto> 5],
     cachedRegs = Map.empty,
     hw = \<lparr>dh_woken = {}, dh_writes = 0, dh_asleep = False, dh_mem = Map.empty\<rparr>\<rparr>"

lemma demo_wake_ok: "wake_ok demo_lib a dh_woken"
  by (simp add: wake_ok_def demo_lib_def)

lemma demo_counts: "counts_writes demo_lib a dh_writes"
  by (auto simp: counts_writes_def demo_lib_def)

lemma demo_wake_inv: "wake_inv 0x30 dh_woken demo_state"
  by (simp add: wake_inv_def demo_state_def)

lemma demo_wake_run: "\<exists>s'. setWakeOnPECI demo_lib 0x30 True demo_state = (Inr (), s')"
  by (simp add: setWakeOnPECI_unfold readDieMask_def wakeLoop_def setWakeDie_def wakeWrite.simps
      bindE_apply thenE_apply liftHw_def demo_lib_def demo_state_def forE_def upt_rec)

section \<open>Properties\<close>



text \<open>When \<open>setWakeOnPECI\<close> returns and had something to do, exactly the dies of the CPU's die mask
  have their wake bit set after enabling, and none after disabling.\<close>

theorem setWakeOnPECI_result:
  assumes "wake_ok L a woken" and "wake_inv a woken s" and "en \<noteq> peciWoken s"
    and "setWakeOnPECI L a en s = (Inr (), s')"
  shows "\<exists>m. dieMasks s' a = Some m \<and> woken (hw s') = (if en then {i. i < 32 \<and> bit m i} else {})"
  using setWakeOnPECI_spec [OF assms(1,2,4)] assms(3) by simp

theorem setWakeOnPECI_result_witness:
  "\<exists>s' m. setWakeOnPECI demo_lib 0x30 True demo_state = (Inr (), s') \<and>
     dieMasks s' 0x30 = Some m \<and> dh_woken (hw s') = {i. i < 32 \<and> bit m i}"
proof -
  obtain s' where run: "setWakeOnPECI demo_lib 0x30 True demo_state = (Inr (), s')"
    using demo_wake_run by blast
  have "True \<noteq> peciWoken demo_state" by (simp add: demo_state_def)
  from setWakeOnPECI_result [OF demo_wake_ok demo_wake_inv this run] run show ?thesis by auto
qed

text \<open>The destructor of the wake manager never throws, and it leaves no die awake unless clearing
  the bits has thrown a \<open>PECIError\<close>, which it swallows; the invariant holds afterwards in both cases.\<close>

theorem wakeManager_destroy_sleeps:
  assumes "wake_ok L a woken" and "wake_inv a woken s"
  shows "\<exists>s'. wakeManager_destroy L a s = (Inr (), s') \<and> wake_inv a woken s' \<and>
    (woken (hw s') = {} \<and> \<not> peciWoken s' \<or>
     (\<exists>m. setWakeOnPECI L a False s = (Inl (PECIError m), s')))"
proof -
  obtain r s1 where run: "setWakeOnPECI L a False s = (r, s1)" by fastforce
  note spec = setWakeOnPECI_spec [OF assms run]
  show ?thesis
  proof (cases "peciWoken s")
    case False
    then show ?thesis using assms(2)
      by (auto simp: wakeManager_destroy_def catchE_apply bindE_apply wake_inv_def)
  next
    case True
    with spec run show ?thesis
      by (cases r) (auto simp: wakeManager_destroy_def catchE_apply bindE_apply is_PECIError_def split: exn.splits)
  qed
qed

theorem wakeManager_destroy_sleeps_witness:
  "\<exists>s'. wakeManager_destroy demo_lib 0x30 demo_state = (Inr (), s') \<and> wake_inv 0x30 dh_woken s' \<and>
    (dh_woken (hw s') = {} \<and> \<not> peciWoken s' \<or>
     (\<exists>m. setWakeOnPECI demo_lib 0x30 False demo_state = (Inl (PECIError m), s')))"
  by (rule wakeManager_destroy_sleeps [OF demo_wake_ok demo_wake_inv])

text \<open>Without permission to wake the CPU, a PECI operation is performed exactly once and nothing
  else is sent.\<close>

theorem dontWake_runs_once: "peciOpWithWakeRetry L dontWake a opn = liftHw opn"
  by (auto simp: fun_eq_iff peciOpWithWakeRetry_def bindE_apply liftHw_def split: prod.splits)

text \<open>The retry loops are bounded: changing wake-on-PECI sends at most six writes for every die of
  the CPU's die mask, however often PECI times out.\<close>

theorem setWakeOnPECI_write_bound:
  assumes "counts_writes L a cnt" and "dieMasks s a = Some m" and "setWakeOnPECI L a en s = (r, s')"
  shows "cnt (hw s') \<le> cnt (hw s) + 6 * length (filter (bit m) [0..<32])"
proof (cases "en = peciWoken s")
  case True
  with assms(3) show ?thesis by (simp add: setWakeOnPECI_unfold bindE_apply)
next
  case False
  obtain r2 s2 where lp: "wakeLoop L a en m [0..<32] s = (r2, s2)" by fastforce
  have "readDieMask L a s = (Inr m, s)"
    using assms(2) by (simp add: readDieMask_def bindE_apply)
  with assms(3) False lp have "hw s' = hw s2"
    by (auto simp: setWakeOnPECI_unfold bindE_apply thenE_apply split: sum.splits if_splits)
  with wakeLoop_count [OF assms(1) lp] show ?thesis by simp
qed

theorem setWakeOnPECI_write_bound_witness:
  "\<exists>r s'. setWakeOnPECI demo_lib 0x30 True demo_state = (r, s')
    \<and> dh_writes (hw s') \<le> 6 * length (filter (bit (5::u32)) [0..<32])"
proof -
  obtain r s' where run: "setWakeOnPECI demo_lib 0x30 True demo_state = (r, s')" by fastforce
  have "dieMasks demo_state 0x30 = Some 5" by (simp add: demo_state_def)
  from setWakeOnPECI_write_bound [OF demo_counts this run] run show ?thesis
    by (auto simp: demo_state_def)
qed

end
