(* ===== verification/Sst_Registers.thy ===== *)
theory Sst_Registers
  imports Peci_Wake
begin

text \<open>
  \<open>SSTRegisterSet\<close> of \<open>sst_tpmi.cpp\<close>: 64-bit registers of the SST instances of one CPU, read and
  written through PECI MMIO at addresses computed from the cached TPMI feature, with a function
  static cache for the read-only ones.  The object keeps raw pointers into the two maps of the
  D-Bus cache; reading through one whose node has been freed is undefined behaviour.
\<close>

section \<open>The register set\<close>

record sst_regset =
  rs_cpu :: node_ptr
  rs_feature :: node_ptr
  rs_cpuIndex :: u8
  rs_policy :: WakePolicy

definition invalidRead :: u64 where
  "invalidRead = 0x00000000FFFFFFFF"

definition rs_address :: "('h, 'st) peci_lib \<Rightarrow> sst_regset \<Rightarrow> u8" where
  "rs_address L r = rs_cpuIndex r + MIN_CLIENT_ADDR L"

text \<open>The constructor; its wake manager starts with no die woken.\<close>

definition SSTRegisterSet_new ::
    "u8 \<Rightarrow> WakePolicy \<Rightarrow> ('h sst_state, sst_regset) exm" where
  "SSTRegisterSet_new i policy = thenE (modify (\<lambda>s. s\<lparr>peciWoken := False\<rparr>)) (bindE (gets tpmi) (\<lambda>c.
     if \<not> cache_contains c (uint i) then throw (PECIError ''Unavailable'')
     else case (sm_ptr (cpus c) (uint i), sm_ptr (features c) (uint i)) of
       (Some p, Some q) \<Rightarrow> ret \<lparr>rs_cpu = p, rs_feature = q, rs_cpuIndex = i, rs_policy = policy\<rparr>
     | _ \<Rightarrow> throw (Out_Of_Range ''map::at'')))"

definition derefFeature :: "sst_regset \<Rightarrow> ('h sst_state, Feature) exm" where
  "derefFeature r = bindE (gets (\<lambda>s. sm_deref (features (tpmi s)) (rs_feature r))) (\<lambda>fo. case fo of
     Some f \<Rightarrow> ret f
   | None \<Rightarrow> throw (Undefined_Behaviour ''feature''))"

definition derefCPU :: "sst_regset \<Rightarrow> ('h sst_state, CPU) exm" where
  "derefCPU r = bindE (gets (\<lambda>s. sm_deref (cpus (tpmi s)) (rs_cpu r))) (\<lambda>co. case co of
     Some c \<Rightarrow> ret c
   | None \<Rightarrow> throw (Undefined_Behaviour ''cpu''))"

text \<open>\<open>offset + feature->offset + feature->size * instance\<close>, in 32-bit arithmetic.\<close>

definition reg_address :: "Feature \<Rightarrow> u32 \<Rightarrow> size_t \<Rightarrow> size_t" where
  "reg_address f inst offset = offset + f_offset f + f_size f * inst"

definition readNoThrow ::
    "('h, 'st) peci_lib \<Rightarrow> sst_regset \<Rightarrow> u32 \<Rightarrow> size_t \<Rightarrow> ('h sst_state, u64 \<times> 'st \<times> u8) exm" where
  "readNoThrow L r inst offset = bindE (derefFeature r) (\<lambda>f. bindE (derefCPU r) (\<lambda>c.
     bindE (peciOpWithWakeRetry L (rs_policy r) (rs_address L r)
         (peci_RdEndPointConfigMmio L c (ucast (reg_address f inst offset))))
       (\<lambda>(status, cc, data). ret (data, status, cc))))"

definition reg_read ::
    "('h, 'st) peci_lib \<Rightarrow> sst_regset \<Rightarrow> u32 \<Rightarrow> size_t \<Rightarrow> ('h sst_state, u64) exm" where
  "reg_read L r inst offset = bindE (derefFeature r) (\<lambda>f.
     if f_instances f \<le> inst then throw (Out_Of_Range ''Invalid instance'')
     else bindE (readNoThrow L r inst offset) (\<lambda>(data, status, cc).
       if \<not> checkPECIStatus L status cc then throw (PECIError ''MMIO Read failed'')
       else ret data))"

definition reg_write ::
    "('h, 'st) peci_lib \<Rightarrow> sst_regset \<Rightarrow> u32 \<Rightarrow> size_t \<Rightarrow> u64 \<Rightarrow> ('h sst_state, unit) exm" where
  "reg_write L r inst offset data = bindE (derefFeature r) (\<lambda>f.
     if f_instances f \<le> inst then throw (Out_Of_Range ''Invalid instance'')
     else bindE (derefCPU r) (\<lambda>c.
       bindE (peciOpWithWakeRetry L (rs_policy r) (rs_address L r)
           (peci_WrEndPointConfigMmio L c (ucast (reg_address f inst offset)) data))
         (\<lambda>(status, cc, _). if \<not> checkPECIStatus L status cc then throw (PECIError ''MMIO Write failed'')
           else ret ())))"

definition cachedRead ::
    "('h, 'st) peci_lib \<Rightarrow> sst_regset \<Rightarrow> u32 \<Rightarrow> size_t \<Rightarrow> ('h sst_state, u64) exm" where
  "cachedRead L r inst offset =
     (let key = (rs_cpuIndex r, inst, offset) in
      bindE (gets (\<lambda>s. cachedRegs s key)) (\<lambda>hit. case hit of
        Some v \<Rightarrow> ret v
      | None \<Rightarrow> bindE (reg_read L r inst offset) (\<lambda>v.
          thenE (modify (\<lambda>s. s\<lparr>cachedRegs := (cachedRegs s)(key \<mapsto> v)\<rparr>)) (ret v))))"

text \<open>The loop of \<open>validInstances\<close> reads the instance count again before every round.\<close>

function validInstances_from ::
    "('h, 'st) peci_lib \<Rightarrow> sst_regset \<Rightarrow> nat \<Rightarrow> u32 list \<Rightarrow> ('h sst_state, u32 list) exm" where
  "validInstances_from L r i valid = bindE (derefFeature r) (\<lambda>f.
     if \<not> i < unat (f_instances f) then ret valid
     else bindE (readNoThrow L r (of_nat i) 0) (\<lambda>(data, status, cc).
       if status = PECI_CC_SUCCESS L \<and> cc = 0x90 then validInstances_from L r (Suc i) valid
       else if \<not> checkPECIStatus L status cc then throw (PECIError ''MMIO Read failed'')
       else if data = invalidRead then validInstances_from L r (Suc i) valid
       else validInstances_from L r (Suc i) (valid @ [of_nat i])))"
  by pat_completeness auto
termination
proof (relation "measure (\<lambda>(L, r, i, valid). 2 ^ 32 - i)", goal_cases)
  case 1
  show ?case by simp
next
  case (2 L r i valid f x y z)
  then have "i < 2 ^ 32" using unsigned_less [of "f_instances f", where 'a=nat] by auto
  then show ?case by simp
next
  case (3 L r i valid f x y z)
  then have "i < 2 ^ 32" using unsigned_less [of "f_instances f", where 'a=nat] by auto
  then show ?case by simp
next
  case (4 L r i valid f x y z)
  then have "i < 2 ^ 32" using unsigned_less [of "f_instances f", where 'a=nat] by auto
  then show ?case by simp
qed

declare validInstances_from.simps [simp del]

definition validInstances ::
    "('h, 'st) peci_lib \<Rightarrow> sst_regset \<Rightarrow> ('h sst_state, u32 list) exm" where
  "validInstances L r = validInstances_from L r 0 []"

section \<open>The registers by name\<close>

definition reg_header :: "('h, 'st) peci_lib \<Rightarrow> sst_regset \<Rightarrow> u32 \<Rightarrow> ('h sst_state, u64) exm" where
  "reg_header L r inst = cachedRead L r inst 0"

definition ppOffset :: "('h, 'st) peci_lib \<Rightarrow> sst_regset \<Rightarrow> u32 \<Rightarrow> ('h sst_state, u32) exm" where
  "ppOffset L r inst = bindE (reg_header L r inst) (\<lambda>h. ret (ucast (mask_bits L h 24 31) * 8))"

definition ppHeader :: "('h, 'st) peci_lib \<Rightarrow> sst_regset \<Rightarrow> u32 \<Rightarrow> ('h sst_state, u64) exm" where
  "ppHeader L r inst = bindE (ppOffset L r inst) (\<lambda>pp. reg_read L r inst pp)"

definition ppOffset0 :: "('h, 'st) peci_lib \<Rightarrow> sst_regset \<Rightarrow> u32 \<Rightarrow> ('h sst_state, u64) exm" where
  "ppOffset0 L r inst = bindE (ppOffset L r inst) (\<lambda>pp. cachedRead L r inst (pp + 8))"

definition ppOffset1 :: "('h, 'st) peci_lib \<Rightarrow> sst_regset \<Rightarrow> u32 \<Rightarrow> ('h sst_state, u64) exm" where
  "ppOffset1 L r inst = bindE (ppOffset L r inst) (\<lambda>pp. cachedRead L r inst (pp + 8 * 2))"

definition ppControl :: "('h, 'st) peci_lib \<Rightarrow> sst_regset \<Rightarrow> u32 \<Rightarrow> ('h sst_state, u64) exm" where
  "ppControl L r inst = bindE (ppOffset L r inst) (\<lambda>pp. reg_read L r inst (pp + 8 * 3))"

definition ppStatus :: "('h, 'st) peci_lib \<Rightarrow> sst_regset \<Rightarrow> u32 \<Rightarrow> ('h sst_state, u64) exm" where
  "ppStatus L r inst = bindE (ppOffset L r inst) (\<lambda>pp. reg_read L r inst (pp + 8 * 4))"

definition ppControl_write ::
    "('h, 'st) peci_lib \<Rightarrow> sst_regset \<Rightarrow> u32 \<Rightarrow> u64 \<Rightarrow> ('h sst_state, unit) exm" where
  "ppControl_write L r inst v = bindE (ppOffset L r inst) (\<lambda>pp. reg_write L r inst (pp + 8 * 3) v)"

definition ppLevelOffset ::
    "('h, 'st) peci_lib \<Rightarrow> sst_regset \<Rightarrow> u32 \<Rightarrow> u32 \<Rightarrow> ('h sst_state, size_t) exm" where
  "ppLevelOffset L r inst level =
     (let loBit = level * 8 in
      bindE (ppOffset1 L r inst) (\<lambda>o1.
        let lvl = ucast (mask_bits L o1 (unat loBit) (unat (loBit + 7))) :: size_t in
        bindE (ppOffset L r inst) (\<lambda>pp. ret (pp + lvl * 8))))"

definition ppInfo ::
    "('h, 'st) peci_lib \<Rightarrow> size_t \<Rightarrow> sst_regset \<Rightarrow> u32 \<Rightarrow> u32 \<Rightarrow> ('h sst_state, u64) exm" where
  "ppInfo L k r inst level =
     bindE (ppLevelOffset L r inst level) (\<lambda>off. reg_read L r inst (off + 8 * k))"

definition ppInfo1 :: "('h, 'st) peci_lib \<Rightarrow> sst_regset \<Rightarrow> u32 \<Rightarrow> u32 \<Rightarrow> ('h sst_state, u64) exm" where
  "ppInfo1 L = ppInfo L 1"

definition ppInfo2 :: "('h, 'st) peci_lib \<Rightarrow> sst_regset \<Rightarrow> u32 \<Rightarrow> u32 \<Rightarrow> ('h sst_state, u64) exm" where
  "ppInfo2 L = ppInfo L 2"

definition ppInfo4 :: "('h, 'st) peci_lib \<Rightarrow> sst_regset \<Rightarrow> u32 \<Rightarrow> u32 \<Rightarrow> ('h sst_state, u64) exm" where
  "ppInfo4 L = ppInfo L 4"

definition ppInfo10 :: "('h, 'st) peci_lib \<Rightarrow> sst_regset \<Rightarrow> u32 \<Rightarrow> u32 \<Rightarrow> ('h sst_state, u64) exm" where
  "ppInfo10 L = ppInfo L 10"

definition ppInfo11 :: "('h, 'st) peci_lib \<Rightarrow> sst_regset \<Rightarrow> u32 \<Rightarrow> u32 \<Rightarrow> ('h sst_state, u64) exm" where
  "ppInfo11 L = ppInfo L 11"

definition bfInfo0 :: "('h, 'st) peci_lib \<Rightarrow> sst_regset \<Rightarrow> u32 \<Rightarrow> u32 \<Rightarrow> ('h sst_state, u64) exm" where
  "bfInfo0 L r inst level = bindE (ppOffset0 L r inst) (\<lambda>o0.
     let bfOffset = ucast (mask_bits L o0 8 15) :: size_t in
     bindE (ppLevelOffset L r inst level) (\<lambda>off. cachedRead L r inst (off + bfOffset * 8)))"

definition bfInfo1 :: "('h, 'st) peci_lib \<Rightarrow> sst_regset \<Rightarrow> u32 \<Rightarrow> u32 \<Rightarrow> ('h sst_state, u64) exm" where
  "bfInfo1 L r inst level = bindE (ppOffset0 L r inst) (\<lambda>o0.
     let bfOffset = ucast (mask_bits L o0 8 15) :: size_t in
     bindE (ppLevelOffset L r inst level) (\<lambda>off. cachedRead L r inst (off + bfOffset * 8 + 8)))"

definition tfInfo0 :: "('h, 'st) peci_lib \<Rightarrow> sst_regset \<Rightarrow> u32 \<Rightarrow> u32 \<Rightarrow> ('h sst_state, u64) exm" where
  "tfInfo0 L r inst level = bindE (ppOffset0 L r inst) (\<lambda>o0.
     let tfOffset = ucast (mask_bits L o0 16 23) :: size_t in
     bindE (ppLevelOffset L r inst level) (\<lambda>off. cachedRead L r inst (off + tfOffset * 8)))"

section \<open>Frame properties\<close>

lemma keeps_derefFeature [keeps_intro]: "keeps P (derefFeature r)"
  unfolding derefFeature_def by (intro keeps_intro)

lemma keeps_derefCPU [keeps_intro]: "keeps P (derefCPU r)"
  unfolding derefCPU_def by (intro keeps_intro)

lemma readNoThrow_same_caches: "keeps (same_caches s0) (readNoThrow L r inst off)"
  unfolding readNoThrow_def by (intro keeps_intro peciOp_same_caches)

lemma reg_read_same_caches: "keeps (same_caches s0) (reg_read L r inst off)"
  unfolding reg_read_def by (intro keeps_intro readNoThrow_same_caches)

lemma reg_write_same_caches: "keeps (same_caches s0) (reg_write L r inst off v)"
  unfolding reg_write_def by (intro keeps_intro peciOp_same_caches)

lemma reg_read_caches:
  "reg_read L r inst off s = (x, s') \<Longrightarrow> tpmi s' = tpmi s \<and> cachedRegs s' = cachedRegs s"
  using keepsD [OF reg_read_same_caches same_caches_refl, of L r inst off s x s']
  by (simp add: same_caches_def)

section \<open>The contract of the register cache\<close>

locale read_cache =
  fixes rd :: "'k \<Rightarrow> ('s, 'v) exm"
    and crd :: "'k \<Rightarrow> ('s, 'v) exm"
    and look :: "'s \<Rightarrow> 'k \<Rightarrow> 'v option"
    and store :: "'k \<Rightarrow> 'v \<Rightarrow> 's \<Rightarrow> 's"
  assumes hit: "look s k = Some v \<Longrightarrow> crd k s = (Inr v, s)"
    and miss_error: "look s k = None \<Longrightarrow> rd k s = (Inl e, s') \<Longrightarrow> crd k s = (Inl e, s')"
    and miss_value: "look s k = None \<Longrightarrow> rd k s = (Inr v, s') \<Longrightarrow> crd k s = (Inr v, store k v s')"
    and look_store: "look (store k v s) j = (if j = k then Some v else look s j)"
    and rd_look: "rd k s = (x, s') \<Longrightarrow> look s' = look s"
begin

lemma miss: "look s k = None \<Longrightarrow> crd k s = (case rd k s of
    (Inl e, s') \<Rightarrow> (Inl e, s') | (Inr v, s') \<Rightarrow> (Inr v, store k v s'))"
  by (auto simp: miss_error miss_value split: prod.splits sum.splits)

lemma crd_value_cached: "crd k s = (Inr v, s') \<Longrightarrow> look s' k = Some v"
  by (cases "look s k") (auto simp: hit miss look_store split: prod.splits sum.splits)

text \<open>A register that has been read is not read again, and gives the same value.\<close>

lemma reread: "crd k s = (Inr v, s') \<Longrightarrow> crd k s' = (Inr v, s')"
  by (rule hit) (rule crd_value_cached)

lemma cached_stays:
  assumes "look s j = Some w" and "crd k s = (x, s')"
  shows "look s' j = Some w"
proof (cases "look s k")
  case (Some v)
  with assms show ?thesis by (simp add: hit)
next
  case None
  obtain y t where rd: "rd k s = (y, t)" by fastforce
  from None assms rd_look [OF rd] miss_error [OF None] miss_value [OF None] rd show ?thesis
    by (cases y) (auto simp: look_store)
qed

text \<open>A failed read is not cached.\<close>

lemma error_not_cached: "crd k s = (Inl e, s') \<Longrightarrow> look s' = look s"
  by (cases "look s k") (auto simp: hit miss split: prod.splits sum.splits dest: rd_look)

text \<open>
  Over a device that answers without changing, and with a cache that agrees with it, a cached read
  gives what the device gives.
\<close>

lemma transparent:
  assumes "rd k s = (x, s)" and "\<And>v. look s k = Some v \<Longrightarrow> x = Inr v"
  shows "fst (crd k s) = x"
proof (cases "look s k")
  case (Some v)
  with assms(2) hit [OF Some] show ?thesis by simp
next
  case None
  with assms(1) miss_error miss_value show ?thesis by (cases x) auto
qed

end

interpretation rc: read_cache
  "\<lambda>(inst, off). reg_read L r inst off" "\<lambda>(inst, off). cachedRead L r inst off"
  "\<lambda>s (inst, off). cachedRegs s (rs_cpuIndex r, inst, off)"
  "\<lambda>(inst, off) v s. s\<lparr>cachedRegs := (cachedRegs s)((rs_cpuIndex r, inst, off) \<mapsto> v)\<rparr>"
  for L r
  by unfold_locales
    (auto simp: cachedRead_def Let_def bindE_apply thenE_apply fun_eq_iff dest: reg_read_caches)

section \<open>A quiet device\<close>

text \<open>
  Reading does not disturb the device: every MMIO read leaves the hardware as it is, and none asks
  for a wake-up that the policy of the register set would grant.
\<close>

definition quiet_device :: "('h, 'st) peci_lib \<Rightarrow> sst_regset \<Rightarrow> 'h \<Rightarrow> bool" where
  "quiet_device L r h \<longleftrightarrow> (\<forall>c off. \<exists>st cc d. peci_RdEndPointConfigMmio L c off h = ((st, cc, d), h) \<and>
     \<not> (rs_policy r = wakeAllowed \<and> st = PECI_CC_SUCCESS L \<and> cc = ccUnavailResource))"

definition mmio_answer :: "('h, 'st) peci_lib \<Rightarrow> CPU \<Rightarrow> Feature \<Rightarrow> 'h \<Rightarrow> u32 \<Rightarrow> size_t \<Rightarrow> 'st \<times> u8 \<times> u64" where
  "mmio_answer L c f h inst off = fst (peci_RdEndPointConfigMmio L c (ucast (reg_address f inst off)) h)"

lemma quiet_peciOp:
  assumes "quiet_device L r (hw s)"
  shows "peciOpWithWakeRetry L (rs_policy r) a (peci_RdEndPointConfigMmio L c off) s
    = (Inr (fst (peci_RdEndPointConfigMmio L c off (hw s))), s)"
proof -
  from assms obtain st cc d where "peci_RdEndPointConfigMmio L c off (hw s) = ((st, cc, d), hw s)"
    "\<not> (rs_policy r = wakeAllowed \<and> st = PECI_CC_SUCCESS L \<and> cc = ccUnavailResource)"
    unfolding quiet_device_def by blast
  then show ?thesis by (auto simp: peciOpWithWakeRetry_def bindE_apply liftHw_def)
qed

lemma quiet_readNoThrow:
  assumes "quiet_device L r (hw s)" and "sm_deref (features (tpmi s)) (rs_feature r) = Some f"
    and "sm_deref (cpus (tpmi s)) (rs_cpu r) = Some c"
  shows "readNoThrow L r inst off s
    = (case mmio_answer L c f (hw s) inst off of (st, cc, d) \<Rightarrow> (Inr (d, st, cc), s))"
  using assms(2,3)
  by (simp add: readNoThrow_def derefFeature_def derefCPU_def bindE_apply quiet_peciOp [OF assms(1)]
      mmio_answer_def split: prod.splits)

text \<open>What reading a register gives on a quiet device, as a function of the device.\<close>

definition device_value ::
    "('h, 'st) peci_lib \<Rightarrow> CPU \<Rightarrow> Feature \<Rightarrow> 'h \<Rightarrow> u32 \<Rightarrow> size_t \<Rightarrow> exn + u64" where
  "device_value L c f h inst off =
     (if f_instances f \<le> inst then Inl (Out_Of_Range ''Invalid instance'')
      else case mmio_answer L c f h inst off of (st, cc, d) \<Rightarrow>
        (if checkPECIStatus L st cc then Inr d else Inl (PECIError ''MMIO Read failed'')))"

lemma quiet_reg_read:
  assumes "quiet_device L r (hw s)" and "sm_deref (features (tpmi s)) (rs_feature r) = Some f"
    and "sm_deref (cpus (tpmi s)) (rs_cpu r) = Some c"
  shows "reg_read L r inst off s = (device_value L c f (hw s) inst off, s)"
  using assms(2)
  by (auto simp: reg_read_def derefFeature_def bindE_apply quiet_readNoThrow [OF assms] device_value_def
      split: prod.splits)

text \<open>The register cache agrees with the device.\<close>

definition cache_coherent ::
    "('h, 'st) peci_lib \<Rightarrow> sst_regset \<Rightarrow> CPU \<Rightarrow> Feature \<Rightarrow> 'h sst_state \<Rightarrow> bool" where
  "cache_coherent L r c f s \<longleftrightarrow> (\<forall>inst off v. cachedRegs s (rs_cpuIndex r, inst, off) = Some v
     \<longrightarrow> device_value L c f (hw s) inst off = Inr v)"

definition quiet_state :: "('h, 'st) peci_lib \<Rightarrow> sst_regset \<Rightarrow> CPU \<Rightarrow> Feature \<Rightarrow> 'h sst_state \<Rightarrow> bool" where
  "quiet_state L r c f s \<longleftrightarrow> quiet_device L r (hw s) \<and>
     sm_deref (features (tpmi s)) (rs_feature r) = Some f \<and>
     sm_deref (cpus (tpmi s)) (rs_cpu r) = Some c \<and> cache_coherent L r c f s"

text \<open>On a quiet device a computation reads the value \<open>x\<close> and changes nothing but the register
  cache, which stays coherent.\<close>

definition reads :: "('h, 'st) peci_lib \<Rightarrow> sst_regset \<Rightarrow> CPU \<Rightarrow> Feature \<Rightarrow>
    ('h sst_state, 'a) exm \<Rightarrow> ('h \<Rightarrow> exn + 'a) \<Rightarrow> bool" where
  "reads L r c f m x \<longleftrightarrow> (\<forall>s. quiet_state L r c f s \<longrightarrow>
     (\<exists>regs. m s = (x (hw s), s\<lparr>cachedRegs := regs\<rparr>) \<and> quiet_state L r c f (s\<lparr>cachedRegs := regs\<rparr>)))"

lemma readsD:
  assumes "reads L r c f m x" and "quiet_state L r c f s"
  obtains regs where "m s = (x (hw s), s\<lparr>cachedRegs := regs\<rparr>)" "quiet_state L r c f (s\<lparr>cachedRegs := regs\<rparr>)"
  using assms unfolding reads_def by blast

lemma reads_reg_read: "reads L r c f (reg_read L r inst off) (\<lambda>h. device_value L c f h inst off)"
  unfolding reads_def
proof (intro allI impI)
  fix s
  assume q: "quiet_state L r c f s"
  then have "reg_read L r inst off s = (device_value L c f (hw s) inst off, s)"
    unfolding quiet_state_def by (blast intro: quiet_reg_read)
  with q show "\<exists>regs. reg_read L r inst off s = (device_value L c f (hw s) inst off, s\<lparr>cachedRegs := regs\<rparr>)
      \<and> quiet_state L r c f (s\<lparr>cachedRegs := regs\<rparr>)"
    by (intro exI [of _ "cachedRegs s"]) simp
qed

lemma cachedRead_quiet:
  assumes "quiet_state L r c f s"
  shows "fst (cachedRead L r inst off s) = device_value L c f (hw s) inst off"
proof -
  have "reg_read L r inst off s = (device_value L c f (hw s) inst off, s)"
    using assms unfolding quiet_state_def by (blast intro: quiet_reg_read)
  then show ?thesis
    using rc.transparent [of L r "(inst, off)" s "device_value L c f (hw s) inst off"] assms
    by (auto simp: quiet_state_def cache_coherent_def)
qed

lemma reads_cachedRead: "reads L r c f (cachedRead L r inst off) (\<lambda>h. device_value L c f h inst off)"
  unfolding reads_def
proof (intro allI impI)
  fix s
  assume q: "quiet_state L r c f s"
  have rd: "reg_read L r inst off s = (device_value L c f (hw s) inst off, s)"
    using q unfolding quiet_state_def by (blast intro: quiet_reg_read)
  show "\<exists>regs. cachedRead L r inst off s = (device_value L c f (hw s) inst off, s\<lparr>cachedRegs := regs\<rparr>)
      \<and> quiet_state L r c f (s\<lparr>cachedRegs := regs\<rparr>)"
  proof (cases "cachedRegs s (rs_cpuIndex r, inst, off)")
    case (Some v)
    with q have "device_value L c f (hw s) inst off = Inr v"
      by (auto simp: quiet_state_def cache_coherent_def)
    with Some q show ?thesis
      by (intro exI [of _ "cachedRegs s"]) (simp add: cachedRead_def Let_def bindE_apply)
  next
    case None
    show ?thesis
    proof (cases "device_value L c f (hw s) inst off")
      case (Inl e)
      with None rd q show ?thesis
        by (intro exI [of _ "cachedRegs s"]) (simp add: cachedRead_def Let_def bindE_apply)
    next
      case (Inr v)
      with None rd q show ?thesis
        by (intro exI [of _ "(cachedRegs s)((rs_cpuIndex r, inst, off) \<mapsto> v)"])
          (auto simp: cachedRead_def Let_def bindE_apply thenE_apply quiet_state_def cache_coherent_def)
    qed
  qed
qed

lemma reads_ret: "reads L r c f (ret a) (\<lambda>h. Inr a)"
  unfolding reads_def
proof (intro allI impI)
  fix s
  assume "quiet_state L r c f s"
  then show "\<exists>regs. ret a s = (Inr a, s\<lparr>cachedRegs := regs\<rparr>) \<and> quiet_state L r c f (s\<lparr>cachedRegs := regs\<rparr>)"
    by (intro exI [of _ "cachedRegs s"]) simp
qed

lemma reads_bindE:
  assumes "reads L r c f m x" and "\<And>a. reads L r c f (k a) (y a)"
  shows "reads L r c f (bindE m k) (\<lambda>h. sum_bind (x h) (\<lambda>a. y a h))"
  unfolding reads_def
proof (intro allI impI)
  fix s
  assume q: "quiet_state L r c f s"
  obtain regs where m: "m s = (x (hw s), s\<lparr>cachedRegs := regs\<rparr>)"
    and q1: "quiet_state L r c f (s\<lparr>cachedRegs := regs\<rparr>)"
    using assms(1) q by (rule readsD)
  show "\<exists>regs. bindE m k s = (sum_bind (x (hw s)) (\<lambda>a. y a (hw s)), s\<lparr>cachedRegs := regs\<rparr>)
      \<and> quiet_state L r c f (s\<lparr>cachedRegs := regs\<rparr>)"
  proof (cases "x (hw s)")
    case (Inl e)
    with m q1 show ?thesis by (auto simp: bindE_apply)
  next
    case (Inr a)
    obtain regs2 where "k a (s\<lparr>cachedRegs := regs\<rparr>) = (y a (hw s), s\<lparr>cachedRegs := regs2\<rparr>)"
      "quiet_state L r c f (s\<lparr>cachedRegs := regs2\<rparr>)"
      using readsD [OF assms(2) q1, of a] by auto
    with m Inr show ?thesis by (auto simp: bindE_apply)
  qed
qed

section \<open>What the named registers read\<close>

text \<open>
  The specification of the register layout, as functions of the device alone: no state, no cache, no
  PECI retry.
\<close>

definition dev_ppOffset :: "('h, 'st) peci_lib \<Rightarrow> CPU \<Rightarrow> Feature \<Rightarrow> u32 \<Rightarrow> 'h \<Rightarrow> exn + u32" where
  "dev_ppOffset L c f inst h = sum_bind (device_value L c f h inst 0) (\<lambda>v. Inr (ucast (mask_bits L v 24 31) * 8))"

definition dev_pp :: "('h, 'st) peci_lib \<Rightarrow> CPU \<Rightarrow> Feature \<Rightarrow> u32 \<Rightarrow> size_t \<Rightarrow> 'h \<Rightarrow> exn + u64" where
  "dev_pp L c f inst k h = sum_bind (dev_ppOffset L c f inst h) (\<lambda>pp. device_value L c f h inst (pp + k))"

definition dev_levelOffset ::
    "('h, 'st) peci_lib \<Rightarrow> CPU \<Rightarrow> Feature \<Rightarrow> u32 \<Rightarrow> u32 \<Rightarrow> 'h \<Rightarrow> exn + size_t" where
  "dev_levelOffset L c f inst level h = sum_bind (dev_pp L c f inst 16 h) (\<lambda>o1.
     sum_bind (dev_ppOffset L c f inst h) (\<lambda>pp.
       Inr (pp + ucast (mask_bits L o1 (unat (level * 8)) (unat (level * 8 + 7))) * 8)))"

definition dev_ppInfo ::
    "('h, 'st) peci_lib \<Rightarrow> CPU \<Rightarrow> Feature \<Rightarrow> size_t \<Rightarrow> u32 \<Rightarrow> u32 \<Rightarrow> 'h \<Rightarrow> exn + u64" where
  "dev_ppInfo L c f k inst level h = sum_bind (dev_levelOffset L c f inst level h) (\<lambda>off.
     device_value L c f h inst (off + 8 * k))"

definition dev_featureInfo ::
    "('h, 'st) peci_lib \<Rightarrow> CPU \<Rightarrow> Feature \<Rightarrow> nat \<Rightarrow> size_t \<Rightarrow> u32 \<Rightarrow> u32 \<Rightarrow> 'h \<Rightarrow> exn + u64" where
  "dev_featureInfo L c f lo k inst level h = sum_bind (dev_pp L c f inst 8 h) (\<lambda>o0.
     sum_bind (dev_levelOffset L c f inst level h) (\<lambda>off.
       device_value L c f h inst (off + ucast (mask_bits L o0 lo (lo + 7)) * 8 + k)))"

lemma reads_ppOffset: "reads L r c f (ppOffset L r inst) (dev_ppOffset L c f inst)"
  unfolding ppOffset_def reg_header_def dev_ppOffset_def
  by (intro reads_bindE reads_ret reads_cachedRead)

lemma reads_pp_uncached:
  "reads L r c f (bindE (ppOffset L r inst) (\<lambda>pp. reg_read L r inst (pp + k))) (dev_pp L c f inst k)"
  unfolding dev_pp_def by (intro reads_bindE reads_ppOffset reads_reg_read)

lemma reads_pp_cached:
  "reads L r c f (bindE (ppOffset L r inst) (\<lambda>pp. cachedRead L r inst (pp + k))) (dev_pp L c f inst k)"
  unfolding dev_pp_def by (intro reads_bindE reads_ppOffset reads_cachedRead)

lemma reads_ppHeader: "reads L r c f (ppHeader L r inst) (dev_pp L c f inst 0)"
  using reads_pp_uncached [of L r c f inst 0] by (simp add: ppHeader_def)

lemma reads_ppOffset0: "reads L r c f (ppOffset0 L r inst) (dev_pp L c f inst 8)"
  unfolding ppOffset0_def by (rule reads_pp_cached)

lemma reads_ppOffset1: "reads L r c f (ppOffset1 L r inst) (dev_pp L c f inst 16)"
  using reads_pp_cached [of L r c f inst 16] by (simp add: ppOffset1_def)

lemma reads_ppControl: "reads L r c f (ppControl L r inst) (dev_pp L c f inst 24)"
  using reads_pp_uncached [of L r c f inst 24] by (simp add: ppControl_def)

lemma reads_ppStatus: "reads L r c f (ppStatus L r inst) (dev_pp L c f inst 32)"
  using reads_pp_uncached [of L r c f inst 32] by (simp add: ppStatus_def)

lemma reads_ppLevelOffset: "reads L r c f (ppLevelOffset L r inst level) (dev_levelOffset L c f inst level)"
  unfolding ppLevelOffset_def dev_levelOffset_def Let_def
  by (intro reads_bindE reads_ret reads_ppOffset reads_ppOffset1)

lemma reads_ppInfo: "reads L r c f (ppInfo L k r inst level) (dev_ppInfo L c f k inst level)"
  unfolding ppInfo_def dev_ppInfo_def by (intro reads_bindE reads_ppLevelOffset reads_reg_read)

lemma reads_featureInfo:
  "reads L r c f (bindE (ppOffset0 L r inst) (\<lambda>o0. bindE (ppLevelOffset L r inst level) (\<lambda>off.
     cachedRead L r inst (off + ucast (mask_bits L o0 lo (lo + 7)) * 8 + k)))) (dev_featureInfo L c f lo k inst level)"
  unfolding dev_featureInfo_def
  by (intro reads_bindE reads_ppOffset0 reads_ppLevelOffset reads_cachedRead)

lemma reads_bfInfo0: "reads L r c f (bfInfo0 L r inst level) (dev_featureInfo L c f 8 0 inst level)"
  using reads_featureInfo [of L r c f inst level 8 0] by (simp add: bfInfo0_def)

lemma reads_bfInfo1: "reads L r c f (bfInfo1 L r inst level) (dev_featureInfo L c f 8 8 inst level)"
  using reads_featureInfo [of L r c f inst level 8 8] by (simp add: bfInfo1_def)

lemma reads_tfInfo0: "reads L r c f (tfInfo0 L r inst level) (dev_featureInfo L c f 16 0 inst level)"
  using reads_featureInfo [of L r c f inst level 16 0] by (simp add: tfInfo0_def)

section \<open>Valid instances\<close>

text \<open>The answer of the probe of an instance: a missing one, a valid one, or a PECI failure.\<close>

definition probe_missing :: "('h, 'st) peci_lib \<Rightarrow> 'st \<times> u8 \<times> u64 \<Rightarrow> bool" where
  "probe_missing L a = (case a of (st, cc, d) \<Rightarrow> st = PECI_CC_SUCCESS L \<and> cc = 0x90)"

definition probe_passes :: "('h, 'st) peci_lib \<Rightarrow> 'st \<times> u8 \<times> u64 \<Rightarrow> bool" where
  "probe_passes L a = (case a of (st, cc, d) \<Rightarrow> checkPECIStatus L st cc)"

definition probe_valid :: "('h, 'st) peci_lib \<Rightarrow> 'st \<times> u8 \<times> u64 \<Rightarrow> bool" where
  "probe_valid L a \<longleftrightarrow> \<not> probe_missing L a \<and> probe_passes L a \<and> snd (snd a) \<noteq> invalidRead"

lemma validInstances_from_increasing:
  assumes "sm_deref (features (tpmi s)) (rs_feature r) = Some f"
    and "validInstances_from L r i valid s = (Inr xs, s')"
  shows "\<exists>ys. xs = valid @ map of_nat ys \<and> sorted_wrt (<) ys \<and> set ys \<subseteq> {i..<unat (f_instances f)}"
  using assms
proof (induction "unat (f_instances f) - i" arbitrary: i valid s)
  case 0
  then show ?case
    by (subst (asm) validInstances_from.simps) (auto simp: derefFeature_def bindE_apply)
next
  case (Suc k)
  then have i: "i < unat (f_instances f)" "k = unat (f_instances f) - Suc i" by simp_all
  obtain x t where rd: "readNoThrow L r (of_nat i) 0 s = (x, t)" by fastforce
  have t: "sm_deref (features (tpmi t)) (rs_feature r) = Some f"
    using keepsD [OF readNoThrow_same_caches same_caches_refl rd] Suc.prems(1) by (simp add: same_caches_def)
  from Suc.prems i(1) rd obtain d st cc where x: "x = Inr (d, st, cc)"
    by (subst (asm) validInstances_from.simps) (cases x, auto simp: derefFeature_def bindE_apply)
  have "validInstances_from L r (Suc i) valid t = (Inr xs, s') \<or>
        validInstances_from L r (Suc i) (valid @ [of_nat i]) t = (Inr xs, s')"
    using Suc.prems i(1) rd x
    by (subst (asm) validInstances_from.simps) (auto simp: derefFeature_def bindE_apply split: if_splits)
  then show ?case
  proof
    assume "validInstances_from L r (Suc i) valid t = (Inr xs, s')"
    from Suc.hyps(1) [OF i(2) t this] show ?thesis by (fastforce simp: subset_iff)
  next
    assume "validInstances_from L r (Suc i) (valid @ [of_nat i]) t = (Inr xs, s')"
    from Suc.hyps(1) [OF i(2) t this] obtain ys where
      "xs = valid @ map of_nat (i # ys)" "sorted_wrt (<) ys" "set ys \<subseteq> {Suc i..<unat (f_instances f)}"
      by auto
    with i(1) show ?thesis by (intro exI [of _ "i # ys"]) (auto simp: subset_iff Suc_le_eq)
  qed
qed

lemma validInstances_from_quiet:
  assumes "quiet_state L r c f s"
    and "\<forall>j < unat (f_instances f). probe_missing L (mmio_answer L c f (hw s) (of_nat j) 0) \<or>
           probe_passes L (mmio_answer L c f (hw s) (of_nat j) 0)"
    and "i \<le> unat (f_instances f)"
  shows "validInstances_from L r i valid s = (Inr (valid @ map of_nat
     (filter (\<lambda>j. probe_valid L (mmio_answer L c f (hw s) (of_nat j) 0)) [i..<unat (f_instances f)])), s)"
  using assms(3)
proof (induction "unat (f_instances f) - i" arbitrary: i valid)
  case 0
  then show ?case using assms(1)
    by (subst validInstances_from.simps) (auto simp: derefFeature_def bindE_apply quiet_state_def)
next
  case (Suc k)
  then have i: "i < unat (f_instances f)" "k = unat (f_instances f) - Suc i" by simp_all
  obtain st cc d where a: "mmio_answer L c f (hw s) (of_nat i) 0 = (st, cc, d)" by (metis surj_pair)
  have rd: "readNoThrow L r (of_nat i) 0 s = (Inr (d, st, cc), s)"
    using assms(1) a by (simp add: quiet_state_def quiet_readNoThrow)
  have "probe_missing L (st, cc, d) \<or> probe_passes L (st, cc, d)"
    using assms(2) i(1) a by metis
  then show ?case
    using Suc.hyps(1) [OF i(2)] i(1) assms(1) rd a
    by (subst validInstances_from.simps)
      (auto simp: derefFeature_def bindE_apply quiet_state_def upt_conv_Cons probe_valid_def
        probe_missing_def probe_passes_def)
qed

section \<open>A concrete register file, for the witnesses\<close>

definition demo_cpu :: CPU where
  "demo_cpu = \<lparr>cpu_address = 0x30, cpu_segment = 0, cpu_bus = 14, cpu_device = 3, cpu_function = 1, cpu_bar = 0\<rparr>"

definition demo_feature :: Feature where
  "demo_feature = \<lparr>f_offset = 0x1000, f_instances = 2, f_size = 0x100, f_enabled = True,
     f_inBandWrite = True, f_inBandRead = True, f_usePCS = False, f_locked = False\<rparr>"

definition demo_cache :: TPMIDBusCache where
  "demo_cache = \<lparr>cpus = sm_assign 0 demo_cpu sm_empty, features = sm_assign 0 demo_feature sm_empty,
     outbox = []\<rparr>"

definition demo_regset :: sst_regset where
  "demo_regset = \<lparr>rs_cpu = (0, 0), rs_feature = (0, 0), rs_cpuIndex = 0, rs_policy = dontWake\<rparr>"

text \<open>
  Instance 0 has a header with its performance-profile block at offset 16 and one level, whose
  block is at offset 56; instance 1 does not answer.
\<close>

definition demo_regs :: "(u64 \<times> u64) list" where
  "demo_regs = [(0x1000, 0x02000200), (0x1010, 0x0000040000001000), (0x1018, 0x0908),
     (0x1020, 0x05), (0x1028, 0), (0x1030, 0), (0x1040, 0x0000064000000200), (0x1048, 5)]"

definition demo_sst :: "demo_hw sst_state" where
  "demo_sst = \<lparr>tpmi = demo_cache, peciWoken = False, dieMasks = Map.empty, cachedRegs = Map.empty,
     hw = \<lparr>dh_woken = {}, dh_writes = 0, dh_asleep = False, dh_mem = map_of demo_regs\<rparr>\<rparr>"

lemma demo_derefs:
  "sm_deref (features (tpmi demo_sst)) (rs_feature demo_regset) = Some demo_feature"
  "sm_deref (cpus (tpmi demo_sst)) (rs_cpu demo_regset) = Some demo_cpu"
  by (simp_all add: demo_sst_def demo_cache_def demo_regset_def sm_deref_def sm_assign_def sm_empty_def)

lemma demo_quiet_device: "quiet_device demo_lib demo_regset h"
  by (simp add: quiet_device_def demo_lib_def demo_regset_def split: option.splits)

lemma demo_quiet: "quiet_state demo_lib demo_regset demo_cpu demo_feature demo_sst"
  using demo_derefs demo_quiet_device by (simp add: quiet_state_def cache_coherent_def demo_sst_def)

lemma demo_header_value: "device_value demo_lib demo_cpu demo_feature (hw demo_sst) 0 0 = Inr 0x02000200"
  by (simp add: device_value_def mmio_answer_def demo_lib_def demo_feature_def demo_sst_def reg_address_def
      demo_regs_def)

lemma demo_probes: "\<forall>j < unat (f_instances demo_feature).
    probe_missing demo_lib (mmio_answer demo_lib demo_cpu demo_feature (hw demo_sst) (of_nat j) 0) \<or>
    probe_passes demo_lib (mmio_answer demo_lib demo_cpu demo_feature (hw demo_sst) (of_nat j) 0)"
  by (auto simp: probe_missing_def probe_passes_def mmio_answer_def demo_lib_def demo_sst_def split: option.splits)

section \<open>Properties\<close>

text \<open>A register access of an instance that the feature does not have throws
  \<open>std::out_of_range\<close> before anything is sent over PECI: reads and writes leave the state unchanged.\<close>

theorem invalid_instance_no_access:
  assumes "sm_deref (features (tpmi s)) (rs_feature r) = Some f" and "f_instances f \<le> inst"
  shows "reg_read L r inst off s = (Inl (Out_Of_Range ''Invalid instance''), s)
    \<and> reg_write L r inst off v s = (Inl (Out_Of_Range ''Invalid instance''), s)"
  using assms by (simp add: reg_read_def reg_write_def derefFeature_def bindE_apply)

theorem invalid_instance_no_access_witness:
  "reg_read demo_lib demo_regset 2 0 demo_sst = (Inl (Out_Of_Range ''Invalid instance''), demo_sst)
    \<and> reg_write demo_lib demo_regset 2 0 7 demo_sst = (Inl (Out_Of_Range ''Invalid instance''), demo_sst)"
  by (rule invalid_instance_no_access [OF demo_derefs(1)]) (simp add: demo_feature_def)

text \<open>Once a cached register has been read with success, reading it again returns the same value and
  changes nothing: no PECI access is made.\<close>

theorem cachedRead_again:
  assumes "cachedRead L r inst off s = (Inr v, s')"
  shows "cachedRead L r inst off s' = (Inr v, s')"
  using rc.reread [of L r "(inst, off)" s v s'] assms by simp

theorem cachedRead_again_witness:
  "\<exists>s'. cachedRead demo_lib demo_regset 0 0 demo_sst = (Inr 0x02000200, s')
    \<and> cachedRead demo_lib demo_regset 0 0 s' = (Inr 0x02000200, s')"
proof -
  obtain s' where "cachedRead demo_lib demo_regset 0 0 demo_sst = (Inr 0x02000200, s')"
    using cachedRead_quiet [OF demo_quiet, of 0 0] demo_header_value by (metis prod.collapse)
  with cachedRead_again [OF this] show ?thesis by blast
qed



text \<open>C38: Refinement of the register layout: on such a device every named register read returns the value
  that the layout specification computes from the device alone (block offsets in the header and offset
  registers, in units of eight bytes), whatever is cached, and changes only the cache, which stays
  coherent.\<close>

theorem named_registers_refine_layout:
  "reads L r c f (ppHeader L r inst) (dev_pp L c f inst 0) \<and>
   reads L r c f (ppControl L r inst) (dev_pp L c f inst 24) \<and>
   reads L r c f (ppStatus L r inst) (dev_pp L c f inst 32) \<and>
   reads L r c f (ppInfo1 L r inst level) (dev_ppInfo L c f 1 inst level) \<and>
   reads L r c f (ppInfo2 L r inst level) (dev_ppInfo L c f 2 inst level) \<and>
   reads L r c f (ppInfo4 L r inst level) (dev_ppInfo L c f 4 inst level) \<and>
   reads L r c f (ppInfo10 L r inst level) (dev_ppInfo L c f 10 inst level) \<and>
   reads L r c f (ppInfo11 L r inst level) (dev_ppInfo L c f 11 inst level) \<and>
   reads L r c f (bfInfo0 L r inst level) (dev_featureInfo L c f 8 0 inst level) \<and>
   reads L r c f (bfInfo1 L r inst level) (dev_featureInfo L c f 8 8 inst level) \<and>
   reads L r c f (tfInfo0 L r inst level) (dev_featureInfo L c f 16 0 inst level)"
  by (simp add: ppInfo1_def ppInfo2_def ppInfo4_def ppInfo10_def ppInfo11_def reads_ppHeader
      reads_ppControl reads_ppStatus reads_ppInfo reads_bfInfo0 reads_bfInfo1 reads_tfInfo0)

text \<open>Whatever the hardware answers, the instances that \<open>validInstances\<close> returns are in strictly
  increasing order and within the instance count of the feature.\<close>

theorem validInstances_increasing:
  assumes "sm_deref (features (tpmi s)) (rs_feature r) = Some f" and "validInstances L r s = (Inr xs, s')"
  shows "sorted_wrt (<) xs \<and> list_all (\<lambda>x. x < f_instances f) xs"
proof -
  from validInstances_from_increasing [OF assms(1) assms(2) [unfolded validInstances_def]]
  obtain ys where xs: "xs = map of_nat ys"
    and ys: "sorted_wrt (<) ys" "set ys \<subseteq> {0..<unat (f_instances f)}"
    by auto
  have small: "y < 2 ^ 32" if "y \<in> set ys" for y
    using that ys(2) unsigned_less [of "f_instances f", where 'a=nat] by auto
  then have u: "unat (of_nat y :: u32) = y" if "y \<in> set ys" for y
    using that by (simp add: unat_of_nat take_bit_nat_eq_self)
  have "sorted_wrt (\<lambda>x y. (of_nat x :: u32) < of_nat y) ys"
    using ys(1) by (rule sorted_wrt_mono_rel [rotated]) (simp add: word_less_nat_alt u)
  with xs ys(2) u show ?thesis
    by (auto simp: sorted_wrt_map list_all_iff word_less_nat_alt subset_iff)
qed

text \<open>On a quiet device where every probe is answered with success or with completion code 0x90,
  \<open>validInstances\<close> returns exactly the instances whose first register reads as something else than
  all ones, in order, and changes nothing.\<close>

theorem validInstances_exact:
  assumes "quiet_state L r c f s"
    and "\<forall>j < unat (f_instances f). probe_missing L (mmio_answer L c f (hw s) (of_nat j) 0) \<or>
           probe_passes L (mmio_answer L c f (hw s) (of_nat j) 0)"
  shows "validInstances L r s = (Inr (map of_nat
    (filter (\<lambda>j. probe_valid L (mmio_answer L c f (hw s) (of_nat j) 0)) [0..<unat (f_instances f)])), s)"
  using validInstances_from_quiet [OF assms, of 0 "[]"] by (simp add: validInstances_def)

lemma demo_validInstances: "validInstances demo_lib demo_regset demo_sst = (Inr [0], demo_sst)"
proof -
  have two: "[0..<2] = [0, 1::nat]" by (simp add: upt_rec)
  show ?thesis
    using validInstances_from_quiet [OF demo_quiet demo_probes, of 0 "[]"]
    by (simp add: validInstances_def demo_feature_def two probe_valid_def probe_missing_def probe_passes_def
        mmio_answer_def reg_address_def demo_lib_def demo_sst_def demo_regs_def invalidRead_def)
qed

theorem validInstances_increasing_witness:
  "sorted_wrt (<) [0::u32] \<and> list_all (\<lambda>x. x < f_instances demo_feature) [0]"
  by (rule validInstances_increasing [OF demo_derefs(1) demo_validInstances])

theorem validInstances_exact_witness:
  "validInstances demo_lib demo_regset demo_sst = (Inr (map of_nat
    (filter (\<lambda>j. probe_valid demo_lib (mmio_answer demo_lib demo_cpu demo_feature (hw demo_sst) (of_nat j) 0))
      [0..<unat (f_instances demo_feature)])), demo_sst)"
  by (rule validInstances_exact [OF demo_quiet demo_probes])

end
