(* ===== verification/Sst_Tpmi.thy ===== *)
theory Sst_Tpmi
  imports Sst_Registers
begin

text \<open>
  \<open>SSTTPMI\<close> of \<open>sst_tpmi.cpp\<close>: the speed-select interface of one CPU over its register set.  The
  object holds its PECI address, the index of its CPU and, once the D-Bus cache has the CPU, the
  register set \<open>intf\<close>; a call through a null \<open>intf\<close> is undefined behaviour.
\<close>

unbundle bit_operations_syntax

section \<open>The object\<close>

record SSTTPMI =
  t_address :: int
  t_cpuIndex :: int
  t_intf :: "sst_regset option"
  t_wakePolicy :: WakePolicy

definition mhzPerRatio :: u32 where
  "mhzPerRatio = 100"

definition SSTTPMI_new ::
    "('h, 'st) peci_lib \<Rightarrow> int \<Rightarrow> WakePolicy \<Rightarrow> ('h sst_state, SSTTPMI) exm" where
  "SSTTPMI_new L addr policy =
     (let i = addr - uint (MIN_CLIENT_ADDR L) in
      bindE (gets (\<lambda>s. cache_contains (tpmi s) i)) (\<lambda>known.
        if known then bindE (SSTRegisterSet_new (word_of_int i) policy) (\<lambda>r.
          ret \<lparr>t_address = addr, t_cpuIndex = i, t_intf = Some r, t_wakePolicy = policy\<rparr>)
        else ret \<lparr>t_address = addr, t_cpuIndex = i, t_intf = None, t_wakePolicy = policy\<rparr>))"

text \<open>\<open>~SSTTPMI\<close>: the register set goes with its wake manager.\<close>

definition SSTTPMI_destroy :: "('h, 'st) peci_lib \<Rightarrow> SSTTPMI \<Rightarrow> ('h sst_state, unit) exm" where
  "SSTTPMI_destroy L sst = (case t_intf sst of
     None \<Rightarrow> ret ()
   | Some r \<Rightarrow> wakeManager_destroy L (rs_address L r))"

text \<open>\<open>ready()\<close> creates the register set when it is missing, and never replaces one.\<close>

definition ready :: "SSTTPMI \<Rightarrow> ('h sst_state, SSTTPMI \<times> bool) exm" where
  "ready sst = bindE (gets (\<lambda>s. cache_contains (tpmi s) (t_cpuIndex sst))) (\<lambda>known.
     if \<not> known then ret (sst, False)
     else bindE (case t_intf sst of
         Some r \<Rightarrow> ret sst
       | None \<Rightarrow> bindE (SSTRegisterSet_new (word_of_int (t_cpuIndex sst)) (t_wakePolicy sst)) (\<lambda>r.
           ret (sst\<lparr>t_intf := Some r\<rparr>)))
       (\<lambda>sst'. bindE (gets (\<lambda>s. sm_at (features (tpmi s)) (t_cpuIndex sst'))) (\<lambda>fo. case fo of
           None \<Rightarrow> throw (Out_Of_Range ''map::at'')
         | Some f \<Rightarrow> ret (sst', f_enabled f \<and> \<not> f_usePCS f))))"

definition intf :: "SSTTPMI \<Rightarrow> ('h sst_state, sst_regset) exm" where
  "intf sst = (case t_intf sst of Some r \<Rightarrow> ret r | None \<Rightarrow> throw (Undefined_Behaviour ''null intf''))"

text \<open>\<open>mask<bool>\<close> and \<open>mask<unsigned>\<close>.\<close>

definition mask_bool :: "('h, 'st) peci_lib \<Rightarrow> u64 \<Rightarrow> nat \<Rightarrow> bool" where
  "mask_bool L v b \<longleftrightarrow> mask_bits L v b b \<noteq> 0"

definition mask_unsigned :: "('h, 'st) peci_lib \<Rightarrow> u64 \<Rightarrow> nat \<Rightarrow> nat \<Rightarrow> u32" where
  "mask_unsigned L v lo hi = ucast (mask_bits L v lo hi)"

section \<open>Reading the state of the CPU\<close>

definition supportsControl :: "('h, 'st) peci_lib \<Rightarrow> SSTTPMI \<Rightarrow> ('h sst_state, bool) exm" where
  "supportsControl L sst = bindE (intf sst) (\<lambda>r. bindE (ppHeader L r 0) (\<lambda>v. ret (mask_bool L v 42)))"

definition currentLevel :: "('h, 'st) peci_lib \<Rightarrow> SSTTPMI \<Rightarrow> ('h sst_state, u32) exm" where
  "currentLevel L sst = bindE (intf sst) (\<lambda>r. bindE (ppStatus L r 0) (\<lambda>v. ret (mask_unsigned L v 0 2)))"

text \<open>The loop over \<open>i = 7, ..., 1\<close> on the bits of a \<open>std::bitset<8>\<close>.\<close>

fun maxLevel_from :: "nat \<Rightarrow> u8 \<Rightarrow> u32" where
  "maxLevel_from 0 levelMask = 0"
| "maxLevel_from (Suc i) levelMask = (if bit levelMask (Suc i) then of_nat (Suc i) else maxLevel_from i levelMask)"

definition maxLevel :: "('h, 'st) peci_lib \<Rightarrow> SSTTPMI \<Rightarrow> ('h sst_state, u32) exm" where
  "maxLevel L sst = bindE (intf sst) (\<lambda>r. bindE (ppHeader L r 0) (\<lambda>v.
     ret (maxLevel_from 7 (ucast (mask_bits L v 12 19)))))"

definition ppEnabled :: "('h, 'st) peci_lib \<Rightarrow> SSTTPMI \<Rightarrow> ('h sst_state, bool) exm" where
  "ppEnabled L sst = bindE (intf sst) (\<lambda>r. bindE (reg_header L r 0) (\<lambda>v. ret (mask_bool L v 9)))"

text \<open>\<open>std::bitset::test\<close> throws on a position outside the set.\<close>

definition levelSupported :: "('h, 'st) peci_lib \<Rightarrow> SSTTPMI \<Rightarrow> u32 \<Rightarrow> ('h sst_state, bool) exm" where
  "levelSupported L sst level = bindE (intf sst) (\<lambda>r. bindE (ppHeader L r 0) (\<lambda>v.
     let levelMask = ucast (mask_bits L v 12 19) :: u8 in
     if 8 \<le> level then throw (Out_Of_Range ''bitset::test'') else ret (bit levelMask (unat level))))"

definition bfSupported :: "('h, 'st) peci_lib \<Rightarrow> SSTTPMI \<Rightarrow> u32 \<Rightarrow> ('h sst_state, bool) exm" where
  "bfSupported L sst level = bindE (intf sst) (\<lambda>r. bindE (bfInfo0 L r 0 level) (\<lambda>v. ret (mask_bool L v 12)))"

definition tfSupported :: "('h, 'st) peci_lib \<Rightarrow> SSTTPMI \<Rightarrow> u32 \<Rightarrow> ('h sst_state, bool) exm" where
  "tfSupported L sst level = bindE (intf sst) (\<lambda>r. bindE (tfInfo0 L r 0 level) (\<lambda>v. ret (mask_bool L v 12)))"

definition bfEnabled :: "('h, 'st) peci_lib \<Rightarrow> SSTTPMI \<Rightarrow> u32 \<Rightarrow> ('h sst_state, bool) exm" where
  "bfEnabled L sst level = bindE (currentLevel L sst) (\<lambda>cur.
     if cur \<noteq> level then throw (PECIError ''Cannot get feature state for non-current level'')
     else bindE (intf sst) (\<lambda>r. bindE (ppStatus L r 0) (\<lambda>v. ret (mask_bool L v 8))))"

definition tfEnabled :: "('h, 'st) peci_lib \<Rightarrow> SSTTPMI \<Rightarrow> u32 \<Rightarrow> ('h sst_state, bool) exm" where
  "tfEnabled L sst level = bindE (currentLevel L sst) (\<lambda>cur.
     if cur \<noteq> level then throw (PECIError ''Cannot get feature state for non-current level'')
     else bindE (intf sst) (\<lambda>r. bindE (ppStatus L r 0) (\<lambda>v. ret (mask_bool L v 9))))"

definition tdp :: "('h, 'st) peci_lib \<Rightarrow> SSTTPMI \<Rightarrow> u32 \<Rightarrow> ('h sst_state, u32) exm" where
  "tdp L sst level = bindE (intf sst) (\<lambda>r. bindE (ppInfo1 L r 0 level) (\<lambda>v.
     ret (mask_unsigned L v 32 46 div 8)))"

definition p1Freq :: "('h, 'st) peci_lib \<Rightarrow> SSTTPMI \<Rightarrow> u32 \<Rightarrow> ('h sst_state, u32) exm" where
  "p1Freq L sst level = bindE (intf sst) (\<lambda>r. bindE (ppInfo11 L r 0 level) (\<lambda>v.
     ret (mask_unsigned L v 8 15 * mhzPerRatio)))"

definition p0Freq :: "('h, 'st) peci_lib \<Rightarrow> SSTTPMI \<Rightarrow> u32 \<Rightarrow> ('h sst_state, u32) exm" where
  "p0Freq L sst level = bindE (intf sst) (\<lambda>r. bindE (ppInfo11 L r 0 level) (\<lambda>v.
     ret (mask_unsigned L v 0 7 * mhzPerRatio)))"

definition prochotTemp :: "('h, 'st) peci_lib \<Rightarrow> SSTTPMI \<Rightarrow> u32 \<Rightarrow> ('h sst_state, u32) exm" where
  "prochotTemp L sst level = bindE (intf sst) (\<lambda>r. bindE (ppInfo1 L r 0 level) (\<lambda>v.
     ret (mask_unsigned L v 47 54)))"

definition bfHighPriorityFreq :: "('h, 'st) peci_lib \<Rightarrow> SSTTPMI \<Rightarrow> u32 \<Rightarrow> ('h sst_state, u32) exm" where
  "bfHighPriorityFreq L sst level = bindE (intf sst) (\<lambda>r. bindE (bfInfo0 L r 0 level) (\<lambda>v.
     ret (mask_unsigned L v 13 20 * mhzPerRatio)))"

definition bfLowPriorityFreq :: "('h, 'st) peci_lib \<Rightarrow> SSTTPMI \<Rightarrow> u32 \<Rightarrow> ('h sst_state, u32) exm" where
  "bfLowPriorityFreq L sst level = bindE (intf sst) (\<lambda>r. bindE (bfInfo0 L r 0 level) (\<lambda>v.
     ret (mask_unsigned L v 21 28 * mhzPerRatio)))"

text \<open>The turbo profile: eight buckets of a core count and a speed ratio, one byte each.\<close>

type_synonym TurboEntry = "u32 \<times> size_t"

primrec turbo_loop :: "nat \<Rightarrow> u64 \<Rightarrow> u64 \<Rightarrow> TurboEntry list \<Rightarrow> TurboEntry list" where
  "turbo_loop 0 trlCores sseLimits turboSpeeds = turboSpeeds"
| "turbo_loop (Suc n) trlCores sseLimits turboSpeeds =
     (let bucketCount = ucast (trlCores AND 0xFF) :: size_t;
          bucketSpeed = ucast (sseLimits AND 0xFF) :: u32
      in turbo_loop n (drop_bit 8 trlCores) (drop_bit 8 sseLimits)
           (if bucketCount \<noteq> 0 \<and> bucketSpeed \<noteq> 0
            then turboSpeeds @ [(bucketSpeed * mhzPerRatio, bucketCount)] else turboSpeeds))"

definition sseTurboProfile :: "('h, 'st) peci_lib \<Rightarrow> SSTTPMI \<Rightarrow> u32 \<Rightarrow> ('h sst_state, TurboEntry list) exm" where
  "sseTurboProfile L sst level = bindE (intf sst) (\<lambda>r.
     bindE (ppInfo10 L r 0 level) (\<lambda>trlCores. bindE (ppInfo4 L r 0 level) (\<lambda>sseLimits.
       ret (turbo_loop 8 trlCores sseLimits []))))"

section \<open>The compute instances\<close>

text \<open>
  \<open>forEachComputeInstance\<close> stops at the first instance without cores.  The callbacks capture an
  accumulator by reference, which is threaded through the loop.
\<close>

primrec computeLoop :: "('h, 'st) peci_lib \<Rightarrow> sst_regset \<Rightarrow> u32 \<Rightarrow> (u32 \<Rightarrow> 'a \<Rightarrow> ('h sst_state, 'a) exm) \<Rightarrow>
    u32 list \<Rightarrow> 'a \<Rightarrow> ('h sst_state, 'a) exm" where
  "computeLoop L r level cb [] acc = ret acc"
| "computeLoop L r level cb (i # is) acc = bindE (ppInfo1 L r i level) (\<lambda>v.
     if (ucast (mask_bits L v 8 15) :: u8) = 0 then ret acc
     else bindE (cb i acc) (computeLoop L r level cb is))"

definition forEachComputeInstance :: "('h, 'st) peci_lib \<Rightarrow> SSTTPMI \<Rightarrow> u32 \<Rightarrow>
    (u32 \<Rightarrow> 'a \<Rightarrow> ('h sst_state, 'a) exm) \<Rightarrow> 'a \<Rightarrow> ('h sst_state, 'a) exm" where
  "forEachComputeInstance L sst level cb acc = bindE (intf sst) (\<lambda>r. bindE (validInstances L r) (\<lambda>is.
     computeLoop L r level cb is acc))"

definition coreCount :: "('h, 'st) peci_lib \<Rightarrow> SSTTPMI \<Rightarrow> u32 \<Rightarrow> ('h sst_state, u32) exm" where
  "coreCount L sst level = forEachComputeInstance L sst level (\<lambda>i count. bindE (intf sst) (\<lambda>r.
     bindE (ppInfo1 L r i level) (\<lambda>v. ret (count + mask_unsigned L v 8 15)))) 0"

definition gatherCoreList :: "('h, 'st) peci_lib \<Rightarrow> SSTTPMI \<Rightarrow> u32 \<Rightarrow>
    (sst_regset \<Rightarrow> u32 \<Rightarrow> u32 \<Rightarrow> ('h sst_state, u64) exm) \<Rightarrow> ('h sst_state, u32 list) exm" where
  "gatherCoreList L sst level reg = forEachComputeInstance L sst level (\<lambda>i coreList. bindE (intf sst) (\<lambda>r.
     bindE (reg r i level) (\<lambda>coreMask.
       ret (coreList @ map (\<lambda>x. x + 64 * i) (convertMaskToList L coreMask))))) []"

definition enabledCoreList :: "('h, 'st) peci_lib \<Rightarrow> SSTTPMI \<Rightarrow> u32 \<Rightarrow> ('h sst_state, u32 list) exm" where
  "enabledCoreList L sst level = gatherCoreList L sst level (ppInfo2 L)"

definition bfHighPriorityCoreList :: "('h, 'st) peci_lib \<Rightarrow> SSTTPMI \<Rightarrow> u32 \<Rightarrow> ('h sst_state, u32 list) exm" where
  "bfHighPriorityCoreList L sst level = gatherCoreList L sst level (bfInfo1 L)"

section \<open>Control\<close>

text \<open>\<open>mask<int>\<close> of an error field and \<open>std::to_string\<close> of it.\<close>

definition to_string_int :: "int \<Rightarrow> string" where
  "to_string_int i = (if i < 0 then ''-'' @ to_string (nat (- i)) else to_string (nat i))"

definition setInstance :: "('h, 'st) peci_lib \<Rightarrow> sst_regset \<Rightarrow> u64 \<Rightarrow> u64 \<Rightarrow> nat \<Rightarrow> nat \<Rightarrow> u32 \<Rightarrow>
    ('h sst_state, unit) exm" where
  "setInstance L r fieldMask v errBitLo errBitHi i = bindE (ppControl L r i) (\<lambda>status.
     thenE (ppControl_write L r i ((status AND NOT fieldMask) OR v))
       (bindE (ppStatus L r i) (\<lambda>status2.
          let error = ucast (mask_bits L status2 errBitLo errBitHi) :: u32 in
          if error \<noteq> 0 then throw (PECIError (to_string_int (sint error))) else ret ())))"

definition setAllInstances :: "('h, 'st) peci_lib \<Rightarrow> SSTTPMI \<Rightarrow> u64 \<Rightarrow> u64 \<Rightarrow> nat \<Rightarrow> nat \<Rightarrow>
    ('h sst_state, unit) exm" where
  "setAllInstances L sst fieldMask v errBitLo errBitHi = bindE (intf sst) (\<lambda>r.
     bindE (validInstances L r) (\<lambda>is. forE is (setInstance L r fieldMask v errBitLo errBitHi)))"

definition setBfEnabled :: "('h, 'st) peci_lib \<Rightarrow> SSTTPMI \<Rightarrow> bool \<Rightarrow> ('h sst_state, unit) exm" where
  "setBfEnabled L sst enable =
     (let bfBit = bit_value L 8 in setAllInstances L sst bfBit (if enable then bfBit else 0) 32 34)"

definition setTfEnabled :: "('h, 'st) peci_lib \<Rightarrow> SSTTPMI \<Rightarrow> bool \<Rightarrow> ('h sst_state, unit) exm" where
  "setTfEnabled L sst enable =
     (let tfBit = bit_value L 9 in setAllInstances L sst tfBit (if enable then tfBit else 0) 35 37)"

definition setCurrentLevel :: "('h, 'st) peci_lib \<Rightarrow> SSTTPMI \<Rightarrow> u32 \<Rightarrow> ('h sst_state, unit) exm" where
  "setCurrentLevel L sst level = setAllInstances L sst 0x7 (ucast level) 4 7"

text \<open>The provider: only the models with TPMI get an interface.\<close>

definition createTPMI ::
    "('h, 'st) peci_lib \<Rightarrow> 'model list \<Rightarrow> int \<Rightarrow> 'model \<Rightarrow> WakePolicy \<Rightarrow> ('h sst_state, SSTTPMI option) exm" where
  "createTPMI L gnr_gnrd_srf addr model policy =
     (if model \<in> set gnr_gnrd_srf then bindE (SSTTPMI_new L addr policy) (\<lambda>sst. ret (Some sst))
      else ret None)"

section \<open>What the code relies on in the bit helpers\<close>

text \<open>\<open>mask(value, lo, hi)\<close> extracts a bit field, \<open>bit(n)\<close> is a single bit, and \<open>convertMaskToList\<close>
  lists the positions of the set bits in increasing order.\<close>

definition bits_ok :: "('h, 'st) peci_lib \<Rightarrow> bool" where
  "bits_ok L \<longleftrightarrow>
     (\<forall>v lo hi. lo \<le> hi \<longrightarrow> hi < 64 \<longrightarrow> mask_bits L v lo hi = take_bit (Suc hi - lo) (drop_bit lo v)) \<and>
     (\<forall>n. n < 64 \<longrightarrow> bit_value L n = push_bit n 1) \<and>
     (\<forall>m. convertMaskToList L m = map of_nat (filter (bit m) [0..<64]))"

lemma bits_okD:
  assumes "bits_ok L"
  shows "lo \<le> hi \<Longrightarrow> hi < 64 \<Longrightarrow> mask_bits L v lo hi = take_bit (Suc hi - lo) (drop_bit lo v)"
    and "n < 64 \<Longrightarrow> bit_value L n = push_bit n 1"
    and "convertMaskToList L m = map of_nat (filter (bit m) [0..<64])"
  using assms by (auto simp: bits_ok_def)

lemma bit_levelMask:
  assumes "bits_ok L" and "j < 8"
  shows "bit (ucast (mask_bits L v 12 19) :: u8) j \<longleftrightarrow> bit v (12 + j)"
  using assms(2) by (simp add: bits_okD(1) [OF assms(1)] bit_simps)

lemma intf_apply: "t_intf sst = Some r \<Longrightarrow> intf sst = ret r"
  by (simp add: intf_def)

lemma intf_Inr_iff: "intf sst s = (Inr r, s') \<longleftrightarrow> t_intf sst = Some r \<and> s' = s"
  by (auto simp: intf_def split: option.splits)

lemma maxLevel_from_spec:
  assumes "n \<le> 7"
  shows "unat (maxLevel_from n m) \<le> n \<and> (\<forall>j. unat (maxLevel_from n m) < j \<and> j \<le> n \<longrightarrow> \<not> bit m j) \<and>
    (maxLevel_from n m \<noteq> 0 \<longrightarrow> bit m (unat (maxLevel_from n m)))"
  using assms
proof (induction n)
  case 0
  then show ?case by simp
next
  case (Suc n)
  then have u: "unat (of_nat (Suc n) :: u32) = Suc n"
    by (simp add: unat_of_nat take_bit_nat_eq_self del: of_nat_Suc)
  show ?case
  proof (cases "bit m (Suc n)")
    case True
    with u show ?thesis by (auto simp del: of_nat_Suc)
  next
    case False
    with Suc show ?thesis by (auto simp: le_Suc_eq)
  qed
qed

text \<open>One byte of a register.\<close>

definition byte_of :: "u64 \<Rightarrow> nat \<Rightarrow> u64" where
  "byte_of v i = take_bit 8 (drop_bit (8 * i) v)"

definition turbo_entries :: "u64 \<Rightarrow> u64 \<Rightarrow> nat \<Rightarrow> TurboEntry list" where
  "turbo_entries cores limits n =
     map (\<lambda>i. (100 * ucast (byte_of limits i), ucast (byte_of cores i)))
       (filter (\<lambda>i. byte_of cores i \<noteq> 0 \<and> byte_of limits i \<noteq> 0) [0..<n])"

lemma byte_and: "v AND 0xFF = byte_of v 0"
  using take_bit_eq_mask [of 8 v] by (simp add: byte_of_def mask_eq_exp_minus_1)

lemma byte_zero: "(ucast (byte_of v i) :: u32) = 0 \<longleftrightarrow> byte_of v i = 0"
proof
  assume "(ucast (byte_of v i) :: u32) = 0"
  then have z: "\<not> bit (ucast (byte_of v i) :: u32) n" for n by simp
  show "byte_of v i = 0"
  proof (rule bit_word_eqI)
    fix n
    assume "n < LENGTH(64)"
    show "bit (byte_of v i) n = bit 0 n"
      using z [of n] by (cases "n < 8") (simp_all add: byte_of_def bit_simps)
  qed
qed simp

lemma byte_shift: "byte_of (drop_bit 8 v) i = byte_of v (Suc i)"
  by (simp add: byte_of_def drop_bit_drop_bit add.commute)

lemma turbo_entries_Suc:
  "turbo_entries cores limits (Suc n) =
    (if byte_of cores 0 \<noteq> 0 \<and> byte_of limits 0 \<noteq> 0
     then [(100 * ucast (byte_of limits 0), ucast (byte_of cores 0))] else []) @
    turbo_entries (drop_bit 8 cores) (drop_bit 8 limits) n"
proof -
  have "[0..<Suc n] = 0 # map Suc [0..<n]" by (simp add: map_Suc_upt upt_conv_Cons)
  then show ?thesis
    by (simp add: turbo_entries_def byte_shift filter_map comp_def)
qed

lemma turbo_loop_eq: "turbo_loop n cores limits acc = acc @ turbo_entries cores limits n"
proof (induction n arbitrary: cores limits acc)
  case 0
  then show ?case by (simp add: turbo_entries_def)
next
  case (Suc n)
  show ?case
    by (simp add: Suc.IH turbo_entries_Suc byte_and byte_zero Let_def mhzPerRatio_def mult.commute)
qed

lemma length_turbo_entries: "length (turbo_entries c l n) \<le> n"
  unfolding turbo_entries_def by (simp add: le_trans [OF length_filter_le])

section \<open>Probing the instances of a quiet device\<close>

lemma validInstances_from_quiet_state:
  assumes q: "quiet_state L r c f s"
  shows "validInstances_from L r i valid s = (x, s') \<Longrightarrow> s' = s"
proof (induction "unat (f_instances f) - i" arbitrary: i valid)
  case 0
  then show ?case using q
    by (subst (asm) validInstances_from.simps) (auto simp: derefFeature_def bindE_apply quiet_state_def)
next
  case (Suc k)
  then have i: "i < unat (f_instances f)" "k = unat (f_instances f) - Suc i" by simp_all
  obtain st cc d where rd: "readNoThrow L r (of_nat i) 0 s = (Inr (d, st, cc), s)"
    using q by (cases "mmio_answer L c f (hw s) (of_nat i) 0") (auto simp: quiet_state_def quiet_readNoThrow)
  show ?case
    using Suc.prems i(1) rd q Suc.hyps(1) [OF i(2)]
    by (subst (asm) validInstances_from.simps)
      (auto simp: derefFeature_def bindE_apply quiet_state_def split: if_splits)
qed

lemma validInstances_quiet_state:
  "quiet_state L r c f s \<Longrightarrow> validInstances L r s = (x, s') \<Longrightarrow> s' = s"
  unfolding validInstances_def by (rule validInstances_from_quiet_state)

section \<open>What the loops over the compute instances compute\<close>

definition has_cores :: "('h, 'st) peci_lib \<Rightarrow> CPU \<Rightarrow> Feature \<Rightarrow> u32 \<Rightarrow> 'h \<Rightarrow> u32 \<Rightarrow> bool" where
  "has_cores L c f level h i = (case dev_ppInfo L c f 1 i level h of
     Inr v \<Rightarrow> (ucast (mask_bits L v 8 15) :: u8) \<noteq> 0 | Inl e \<Rightarrow> False)"

text \<open>
  A callback that reads one value of the device for its instance and adds it to the accumulator.
\<close>

lemma computeLoop_reads:
  assumes cb: "\<And>i acc. reads L r c f (cb i acc) (\<lambda>h. sum_bind (y i h) (\<lambda>v. Inr (add i v acc)))"
  shows "quiet_state L r c f s \<Longrightarrow> computeLoop L r level cb is acc s = (Inr res, s') \<Longrightarrow>
    let js = takeWhile (has_cores L c f level (hw s)) is in
    list_all (\<lambda>i. \<not> isl (y i (hw s))) js \<and> res = foldl (\<lambda>a i. add i (projr (y i (hw s))) a) acc js \<and>
    hw s' = hw s \<and> quiet_state L r c f s'"
proof (induction "is" arbitrary: acc s)
  case Nil
  then show ?case by simp
next
  case (Cons i "is")
  obtain regs where p: "ppInfo1 L r i level s = (dev_ppInfo L c f 1 i level (hw s), s\<lparr>cachedRegs := regs\<rparr>)"
    and q1: "quiet_state L r c f (s\<lparr>cachedRegs := regs\<rparr>)"
    using readsD [OF reads_ppInfo Cons.prems(1)] unfolding ppInfo1_def by metis
  obtain v where v: "dev_ppInfo L c f 1 i level (hw s) = Inr v"
    using Cons.prems(2) p by (cases "dev_ppInfo L c f 1 i level (hw s)") (auto simp: bindE_apply)
  show ?case
  proof (cases "(ucast (mask_bits L v 8 15) :: u8) = 0")
    case True
    with Cons.prems(2) p v q1 show ?thesis by (auto simp: bindE_apply has_cores_def Let_def)
  next
    case False
    obtain regs2 where b: "cb i acc (s\<lparr>cachedRegs := regs\<rparr>) =
        (sum_bind (y i (hw s)) (\<lambda>v. Inr (add i v acc)), s\<lparr>cachedRegs := regs2\<rparr>)"
      and q2: "quiet_state L r c f (s\<lparr>cachedRegs := regs2\<rparr>)"
      using readsD [OF cb q1, of i acc] by auto
    obtain w where w: "y i (hw s) = Inr w"
      using Cons.prems(2) p v False b by (cases "y i (hw s)") (auto simp: bindE_apply)
    have "computeLoop L r level cb is (add i w acc) (s\<lparr>cachedRegs := regs2\<rparr>) = (Inr res, s')"
      using Cons.prems(2) p v False b w by (simp add: bindE_apply)
    from Cons.IH [OF q2 this] False v w show ?thesis
      by (simp add: has_cores_def Let_def)
  qed
qed

lemma forEachComputeInstance_reads:
  assumes q: "quiet_state L r c f s" and r: "t_intf sst = Some r"
    and cb: "\<And>i acc. reads L r c f (cb i acc) (\<lambda>h. sum_bind (y i h) (\<lambda>v. Inr (add i v acc)))"
    and run: "forEachComputeInstance L sst level cb acc s = (Inr res, s')"
  obtains "is" where "validInstances L r s = (Inr is, s)"
    and "list_all (\<lambda>i. \<not> isl (y i (hw s))) (takeWhile (has_cores L c f level (hw s)) is)"
    and "res = foldl (\<lambda>a i. add i (projr (y i (hw s))) a) acc (takeWhile (has_cores L c f level (hw s)) is)"
    and "hw s' = hw s"
proof -
  obtain x t where v: "validInstances L r s = (x, t)" by fastforce
  then have t: "t = s" using validInstances_quiet_state [OF q] by blast
  obtain "is" where x: "x = Inr is"
    using run v r by (cases x) (auto simp: forEachComputeInstance_def intf_apply bindE_apply)
  have lp: "computeLoop L r level cb is acc s = (Inr res, s')"
    using run v r x t by (simp add: forEachComputeInstance_def intf_apply bindE_apply)
  show ?thesis
    using that [of "is"] v x t computeLoop_reads [OF cb q lp] by (simp add: Let_def)
qed

text \<open>The core IDs of one instance.\<close>

definition instance_cores :: "u32 \<Rightarrow> u64 \<Rightarrow> u32 list" where
  "instance_cores i m = map (\<lambda>b. of_nat b + 64 * i) (filter (bit m) [0..<64])"

lemma core_id_unat:
  assumes "unat (i :: u32) < 2 ^ 26" and "b < 64"
  shows "unat (of_nat b + 64 * i :: u32) = b + 64 * unat i"
proof -
  have "unat (64 * i) = 64 * unat i"
    using assms(1) by (simp add: unat_word_ariths)
  moreover have "unat (of_nat b :: u32) = b"
    using assms(2) by (simp add: unat_of_nat take_bit_nat_eq_self)
  ultimately show ?thesis
    using assms by (simp add: unat_word_ariths)
qed

lemma instance_cores_unat:
  assumes "unat i < 2 ^ 26"
  shows "map unat (instance_cores i m) = map (\<lambda>b. b + 64 * unat i) (filter (bit m) [0..<64])"
  using core_id_unat [OF assms] by (simp add: instance_cores_def)

lemma set_instance_cores:
  assumes "unat i < 2 ^ 26"
  shows "x \<in> set (instance_cores i m) \<longleftrightarrow> x div 64 = i \<and> bit m (unat (x mod 64))"
proof -
  have *: "x = of_nat b + 64 * i \<longleftrightarrow> unat x = b + 64 * unat i" if "b < 64" for b
    using core_id_unat [OF assms that] by (metis unsigned_word_eqI)
  have "x \<in> set (instance_cores i m) \<longleftrightarrow> (\<exists>b. b < 64 \<and> bit m b \<and> unat x = b + 64 * unat i)"
    using * by (auto simp: instance_cores_def)
  also have "\<dots> \<longleftrightarrow> unat x div 64 = unat i \<and> bit m (unat x mod 64)"
    by (auto intro!: exI [of _ "unat x mod 64"]) (metis add.commute mult_div_mod_eq)
  also have "\<dots> \<longleftrightarrow> x div 64 = i \<and> bit m (unat (x mod 64))"
    by (simp add: unat_div unat_mod word_unat_eq_iff)
  finally show ?thesis .
qed

lemma sorted_cores:
  assumes "sorted_wrt (<) is" and "\<forall>i \<in> set is. unat (i :: u32) < 2 ^ 26"
  shows "sorted_wrt (<) (concat (map (\<lambda>i. instance_cores i (m i)) is))"
  using assms
proof (induction "is")
  case Nil
  then show ?case by simp
next
  case (Cons i "is")
  have "sorted_wrt (<) (map unat (instance_cores i (m i)))"
    using Cons.prems(2)
    by (simp add: instance_cores_unat sorted_wrt_map sorted_wrt_filter)
  then have block: "sorted_wrt (<) (instance_cores i (m i))"
    unfolding sorted_wrt_map by (rule sorted_wrt_mono_rel [rotated]) (simp add: word_less_nat_alt)
  have "x < y" if "x \<in> set (instance_cores i (m i))" "j \<in> set is" "y \<in> set (instance_cores j (m j))" for x j y
  proof -
    have "i < j" using Cons.prems(1) that(2) by simp
    then have "unat x div 64 < unat y div 64"
      using that Cons.prems(2) set_instance_cores [of i x "m i"] set_instance_cores [of j y "m j"]
      by (auto simp: word_less_nat_alt unat_div)
    then show ?thesis by (simp add: word_less_nat_alt)
  qed
  with block Cons show ?case by (auto simp: sorted_wrt_append)
qed

lemma foldl_append_concat: "foldl (\<lambda>a i. a @ g i) acc is = acc @ concat (map g is)"
  by (induction "is" arbitrary: acc) simp_all

text \<open>The instances whose cores are listed, and the mask register of each.\<close>

definition core_masks_spec ::
    "(u32 \<Rightarrow> 'h \<Rightarrow> exn + u64) \<Rightarrow> 'h \<Rightarrow> u32 list \<Rightarrow> u32 set" where
  "core_masks_spec y h is = {x. x div 64 \<in> set is \<and>
     (case y (x div 64) h of Inr m \<Rightarrow> bit m (unat (x mod 64)) | Inl e \<Rightarrow> False)}"

lemma gatherCoreList_spec:
  assumes q: "quiet_state L r c f s" and r: "t_intf sst = Some r" and L: "bits_ok L"
    and n: "unat (f_instances f) \<le> 2 ^ 26"
    and reg: "\<And>i. reads L r c f (reg r i level) (y i)"
    and run: "gatherCoreList L sst level reg s = (Inr xs, s')"
  shows "\<exists>is. validInstances L r s = (Inr is, s) \<and> sorted_wrt (<) xs \<and>
    set xs = core_masks_spec y (hw s) (takeWhile (has_cores L c f level (hw s)) is)"
proof -
  have cb: "reads L r c f
      (bindE (intf sst) (\<lambda>r. bindE (reg r i level) (\<lambda>coreMask.
         ret (acc @ map (\<lambda>x. x + 64 * i) (convertMaskToList L coreMask)))))
      (\<lambda>h. sum_bind (y i h) (\<lambda>v. Inr (acc @ instance_cores i v)))" for i acc
  proof -
    have "bindE (intf sst) (\<lambda>r. bindE (reg r i level) (\<lambda>coreMask.
         ret (acc @ map (\<lambda>x. x + 64 * i) (convertMaskToList L coreMask)))) =
      bindE (reg r i level) (\<lambda>coreMask. ret (acc @ instance_cores i coreMask))"
      by (simp add: fun_eq_iff bindE_apply intf_apply [OF r] bits_okD(3) [OF L] instance_cores_def comp_def)
    then show ?thesis using reads_bindE [OF reg reads_ret] by simp
  qed
  obtain "is" where v: "validInstances L r s = (Inr is, s)"
    and ok: "list_all (\<lambda>i. \<not> isl (y i (hw s))) (takeWhile (has_cores L c f level (hw s)) is)"
    and xs: "xs = foldl (\<lambda>a i. a @ instance_cores i (projr (y i (hw s)))) []
        (takeWhile (has_cores L c f level (hw s)) is)"
    using forEachComputeInstance_reads [where add = "\<lambda>i v a. a @ instance_cores i v" and y = y,
        OF q r cb run [unfolded gatherCoreList_def]]
    by blast
  define js where "js = takeWhile (has_cores L c f level (hw s)) is"
  have feat: "sm_deref (features (tpmi s)) (rs_feature r) = Some f" using q by (simp add: quiet_state_def)
  obtain ys where ys: "is = map of_nat ys" "sorted_wrt (<) ys" "set ys \<subseteq> {0..<unat (f_instances f)}"
    using validInstances_from_increasing [OF feat v [unfolded validInstances_def]] by auto
  have u: "unat (of_nat y :: u32) = y" if "y \<in> set ys" for y
    using that ys(3) unsigned_less [of "f_instances f", where 'a=nat]
    by (subst unat_of_nat) (auto intro!: take_bit_nat_eq_self)
  have "sorted_wrt (\<lambda>x y. (of_nat x :: u32) < of_nat y) ys"
    using ys(2) by (rule sorted_wrt_mono_rel [rotated]) (simp add: word_less_nat_alt u)
  then have "sorted_wrt (<) is" by (simp add: ys(1) sorted_wrt_map)
  moreover have small: "\<forall>i \<in> set is. unat i < 2 ^ 26"
    using ys(3) n u by (force simp: ys(1))
  ultimately have js: "sorted_wrt (<) js" "\<forall>i \<in> set js. unat i < 2 ^ 26"
    by (auto simp: js_def sorted_wrt_takeWhile dest: set_takeWhileD)
  have x: "xs = concat (map (\<lambda>i. instance_cores i (projr (y i (hw s)))) js)"
    using xs by (simp add: js_def foldl_append_concat)
  have "a \<in> set xs \<longleftrightarrow> a \<in> core_masks_spec y (hw s) js" for a
  proof -
    have "a \<in> set xs \<longleftrightarrow> (\<exists>i \<in> set js. a \<in> set (instance_cores i (projr (y i (hw s)))))"
      by (simp add: x)
    also have "\<dots> \<longleftrightarrow> (\<exists>i \<in> set js. a div 64 = i \<and> bit (projr (y i (hw s))) (unat (a mod 64)))"
      using js(2) by (intro bex_cong refl set_instance_cores) simp
    also have "\<dots> \<longleftrightarrow> a \<in> core_masks_spec y (hw s) js"
    proof (cases "a div 64 \<in> set js")
      case True
      with ok have "\<not> isl (y (a div 64) (hw s))" by (simp add: js_def list_all_iff)
      then obtain m where "y (a div 64) (hw s) = Inr m" by (cases "y (a div 64) (hw s)") auto
      with True show ?thesis by (simp add: core_masks_spec_def)
    next
      case False
      then show ?thesis by (auto simp: core_masks_spec_def)
    qed
    finally show ?thesis .
  qed
  with v x sorted_cores [OF js] show ?thesis by (auto simp: js_def)
qed

section \<open>The contract of read-modify-write\<close>

text \<open>
  A register per instance that can be read and written: reading gives its value and changes none,
  writing changes the written register only, and the status check changes none.
\<close>

locale rmw_registers =
  fixes rd :: "'i \<Rightarrow> ('s, 'v) exm"
    and wr :: "'i \<Rightarrow> 'v \<Rightarrow> ('s, unit) exm"
    and chk :: "'i \<Rightarrow> ('s, unit) exm"
    and val :: "'s \<Rightarrow> 'i \<Rightarrow> 'e + 'v"
    and inv :: "'s \<Rightarrow> bool"
  assumes rd: "inv s \<Longrightarrow> rd i s = (x, s') \<Longrightarrow> inv s' \<and> val s' = val s \<and> (\<forall>v. x = Inr v \<longrightarrow> val s i = Inr v)"
    and wr: "inv s \<Longrightarrow> val s i = Inr w \<Longrightarrow> wr i v s = (Inr (), s') \<Longrightarrow>
          inv s' \<and> val s' = (val s)(i := Inr v)"
    and chk: "inv s \<Longrightarrow> chk i s = (y, s') \<Longrightarrow> inv s' \<and> val s' = val s"
begin

lemma update_one:
  assumes "inv s" and "bindE (rd i) (\<lambda>w. thenE (wr i (g w)) (chk i)) s = (Inr (), s')"
  shows "inv s' \<and> (\<exists>w. val s i = Inr w \<and> val s' = (val s)(i := Inr (g w)))"
proof -
  from assms(2) obtain w t t2 where r: "rd i s = (Inr w, t)" and w: "wr i (g w) t = (Inr (), t2)"
    and c: "chk i t2 = (Inr (), s')"
    by (auto simp: bindE_Inr_iff thenE_Inr_iff)
  note one = rd [OF assms(1) r]
  then have "val t i = Inr w" by simp
  with one wr [of t i w "g w" t2] w chk [OF _ c] show ?thesis by auto
qed

text \<open>Updating every instance of a list without repetitions.\<close>

lemma update_all:
  assumes "distinct is"
  shows "inv s \<Longrightarrow> forE is (\<lambda>i. bindE (rd i) (\<lambda>w. thenE (wr i (g w)) (chk i))) s = (Inr (), s') \<Longrightarrow>
    inv s' \<and> (\<forall>i \<in> set is. \<exists>w. val s i = Inr w \<and> val s' i = Inr (g w)) \<and>
    (\<forall>i. i \<notin> set is \<longrightarrow> val s' i = val s i)"
  using assms
proof (induction "is" arbitrary: s)
  case Nil
  then show ?case by simp
next
  case (Cons i "is")
  from Cons.prems(2) obtain t where h: "bindE (rd i) (\<lambda>w. thenE (wr i (g w)) (chk i)) s = (Inr (), t)"
    and rest: "forE is (\<lambda>i. bindE (rd i) (\<lambda>w. thenE (wr i (g w)) (chk i))) t = (Inr (), s')"
    by (auto simp: thenE_Inr_iff)
  from update_one [OF Cons.prems(1) h] obtain w where t: "inv t" "val s i = Inr w"
    "val t = (val s)(i := Inr (g w))" by auto
  have ih: "inv s'" "\<forall>j \<in> set is. \<exists>w. val t j = Inr w \<and> val s' j = Inr (g w)"
    "\<forall>j. j \<notin> set is \<longrightarrow> val s' j = val t j"
    using Cons.IH [OF t(1) rest] Cons.prems(3) by auto
  have "\<forall>j \<in> set is. j \<noteq> i" using Cons.prems(3) by auto
  with ih(2) t(3) have "\<forall>j \<in> set is. \<exists>w. val s j = Inr w \<and> val s' j = Inr (g w)" by auto
  with ih(1,3) Cons.prems(3) t(2,3) show ?case by simp
qed

end

text \<open>
  What the device must satisfy for the control registers to behave so: in the hardware states of the
  set \<open>D\<close> reading is quiet, and a write to the control register of an instance stays in \<open>D\<close>, needs
  no wake-up, leaves the registers of the set \<open>RO\<close> (which holds the headers) as they are, and when it
  succeeds changes the written control register and no other control register.
\<close>

definition ctl_device ::
    "('h, 'st) peci_lib \<Rightarrow> sst_regset \<Rightarrow> CPU \<Rightarrow> Feature \<Rightarrow> ('h \<Rightarrow> bool) \<Rightarrow> (u32 \<times> size_t \<Rightarrow> bool) \<Rightarrow> bool" where
  "ctl_device L r c f D RO \<longleftrightarrow> (\<forall>j. RO (j, 0)) \<and> (\<forall>h. D h \<longrightarrow> quiet_device L r h) \<and>
     (\<forall>h i pp v st cc u h'. D h \<longrightarrow> dev_ppOffset L c f i h = Inr pp \<longrightarrow> i < f_instances f \<longrightarrow>
       peci_WrEndPointConfigMmio L c (ucast (reg_address f i (pp + 24))) v h = ((st, cc, u), h') \<longrightarrow>
         \<not> (rs_policy r = wakeAllowed \<and> st = PECI_CC_SUCCESS L \<and> cc = ccUnavailResource) \<and> D h' \<and>
         (\<forall>j off. RO (j, off) \<longrightarrow> device_value L c f h' j off = device_value L c f h j off) \<and>
         (checkPECIStatus L st cc \<longrightarrow> (\<forall>w. dev_pp L c f i 24 h = Inr w \<longrightarrow>
            (\<lambda>j. dev_pp L c f j 24 h') = (\<lambda>j. dev_pp L c f j 24 h)(i := Inr v))))"

definition cached_in :: "sst_regset \<Rightarrow> (u32 \<times> size_t \<Rightarrow> bool) \<Rightarrow> 'h sst_state \<Rightarrow> bool" where
  "cached_in r RO s \<longleftrightarrow> (\<forall>j off. cachedRegs s (rs_cpuIndex r, j, off) \<noteq> None \<longrightarrow> RO (j, off))"

definition ctl_state ::
    "('h, 'st) peci_lib \<Rightarrow> sst_regset \<Rightarrow> CPU \<Rightarrow> Feature \<Rightarrow> ('h \<Rightarrow> bool) \<Rightarrow> (u32 \<times> size_t \<Rightarrow> bool) \<Rightarrow>
      'h sst_state \<Rightarrow> bool" where
  "ctl_state L r c f D RO s \<longleftrightarrow>
     ctl_device L r c f D RO \<and> D (hw s) \<and> quiet_state L r c f s \<and> cached_in r RO s"

lemma keeps_cached_in_read:
  fixes L :: "('h, 'st) peci_lib"
  shows "keeps (cached_in r RO) (reg_read L r i off)"
proof (rule keepsI)
  fix s :: "'h sst_state"
  assume "cached_in r RO s"
  moreover obtain x s' where e: "reg_read L r i off s = (x, s')" by fastforce
  ultimately show "cached_in r RO (snd (reg_read L r i off s))"
    using reg_read_caches [OF e] by (simp add: cached_in_def)
qed

lemma keeps_cached_in_cachedRead:
  assumes "RO (i, off)"
  shows "keeps (cached_in r RO) (cachedRead L r i off)"
  unfolding cachedRead_def Let_def using assms
  by (intro keeps_intro keeps_cached_in_read) (auto simp: cached_in_def)

lemma keeps_cached_in_ppOffset:
  assumes "\<forall>j. RO (j, 0)"
  shows "keeps (cached_in r RO) (ppOffset L r i)"
  unfolding ppOffset_def reg_header_def using assms
  by (intro keeps_intro keeps_cached_in_cachedRead) simp

text \<open>Reading a register that goes through \<open>ppOffset\<close> in a control state.\<close>

lemma ctl_read:
  assumes s: "ctl_state L r c f D RO s"
    and m: "reads L r c f m y" "keeps (cached_in r RO) m"
    and run: "m s = (x, s')"
  shows "ctl_state L r c f D RO s' \<and> hw s' = hw s \<and> x = y (hw s)"
proof -
  from s have q: "quiet_state L r c f s" by (simp add: ctl_state_def)
  obtain regs where "m s = (y (hw s), s\<lparr>cachedRegs := regs\<rparr>)" "quiet_state L r c f (s\<lparr>cachedRegs := regs\<rparr>)"
    using readsD [OF m(1) q] .
  moreover have "cached_in r RO s'"
    using keepsD [OF m(2) _ run] s by (simp add: ctl_state_def)
  ultimately show ?thesis using run s by (auto simp: ctl_state_def)
qed

lemma ctl_read_pp:
  assumes s: "ctl_state L r c f D RO s"
    and run: "bindE (ppOffset L r i) (\<lambda>pp. reg_read L r i (pp + k)) s = (x, s')"
  shows "ctl_state L r c f D RO s' \<and> hw s' = hw s \<and> x = dev_pp L c f i k (hw s)"
proof -
  have "\<forall>j. RO (j, 0)" using s by (simp add: ctl_state_def ctl_device_def)
  then have "keeps (cached_in r RO) (bindE (ppOffset L r i) (\<lambda>pp. reg_read L r i (pp + k)))"
    by (intro keeps_intro keeps_cached_in_ppOffset keeps_cached_in_read)
  from ctl_read [OF s reads_pp_uncached this run] show ?thesis .
qed

lemma ctl_write:
  assumes s: "ctl_state L r c f D RO s" and w: "dev_pp L c f i 24 (hw s) = Inr w"
    and run: "ppControl_write L r i v s = (Inr (), s')"
  shows "ctl_state L r c f D RO s' \<and>
    (\<lambda>j. dev_pp L c f j 24 (hw s')) = (\<lambda>j. dev_pp L c f j 24 (hw s))(i := Inr v)"
proof -
  have ro: "\<forall>j. RO (j, 0)" using s by (simp add: ctl_state_def ctl_device_def)
  obtain x t where pp: "ppOffset L r i s = (x, t)" by fastforce
  note t = ctl_read [OF s reads_ppOffset keeps_cached_in_ppOffset [OF ro] pp]
  obtain off where off: "dev_ppOffset L c f i (hw s) = Inr off"
    using w by (cases "dev_ppOffset L c f i (hw s)") (auto simp: dev_pp_def)
  have wr: "reg_write L r i (off + 24) v t = (Inr (), s')"
    using run pp t off by (simp add: ppControl_write_def bindE_apply)
  have deref: "sm_deref (features (tpmi t)) (rs_feature r) = Some f" "sm_deref (cpus (tpmi t)) (rs_cpu r) = Some c"
    using t by (simp_all add: ctl_state_def quiet_state_def)
  obtain st cc u h' where p: "peci_WrEndPointConfigMmio L c (ucast (reg_address f i (off + 24))) v (hw t) = ((st, cc, u), h')"
    by (metis prod_cases3 surj_pair)
  have i: "i < f_instances f"
    using wr deref by (auto simp: reg_write_def derefFeature_def bindE_apply split: if_splits)
  have D: "D (hw t)" "dev_ppOffset L c f i (hw t) = Inr off" "dev_pp L c f i 24 (hw t) = Inr w"
    using t off w by (auto simp: ctl_state_def)
  have dev: "ctl_device L r c f D RO" using s by (simp add: ctl_state_def)
  have eff: "\<not> (rs_policy r = wakeAllowed \<and> st = PECI_CC_SUCCESS L \<and> cc = ccUnavailResource)" "D h'"
    "\<forall>j off. RO (j, off) \<longrightarrow> device_value L c f h' j off = device_value L c f (hw t) j off"
    "checkPECIStatus L st cc \<longrightarrow> (\<forall>w. dev_pp L c f i 24 (hw t) = Inr w \<longrightarrow>
        (\<lambda>j. dev_pp L c f j 24 h') = (\<lambda>j. dev_pp L c f j 24 (hw t))(i := Inr v))"
    using dev D(1,2) i p unfolding ctl_device_def by blast+
  have s': "s' = t\<lparr>hw := h'\<rparr>" "checkPECIStatus L st cc"
    using wr deref i p eff(1)
    by (auto simp: reg_write_def derefFeature_def derefCPU_def peciOpWithWakeRetry_def liftHw_def bindE_apply
        thenE_apply split: if_splits)
  have q: "quiet_device L r h'" using dev eff(2) by (simp add: ctl_device_def)
  have "quiet_state L r c f s'" "cached_in r RO s'"
    using t q eff(3) by (auto simp: s' ctl_state_def quiet_state_def cache_coherent_def cached_in_def)
  with dev eff(2) have "ctl_state L r c f D RO s'" by (simp add: s' ctl_state_def)
  moreover have "(\<lambda>j. dev_pp L c f j 24 h') = (\<lambda>j. dev_pp L c f j 24 (hw t))(i := Inr v)"
    using eff(4) s'(2) D(3) by blast
  ultimately show ?thesis using t by (simp add: s')
qed

definition checkStatus :: "('h, 'st) peci_lib \<Rightarrow> sst_regset \<Rightarrow> nat \<Rightarrow> nat \<Rightarrow> u32 \<Rightarrow> ('h sst_state, unit) exm" where
  "checkStatus L r errBitLo errBitHi i = bindE (ppStatus L r i) (\<lambda>status2.
     let error = ucast (mask_bits L status2 errBitLo errBitHi) :: u32 in
     if error \<noteq> 0 then throw (PECIError (to_string_int (sint error))) else ret ())"

lemma setInstance_unfold:
  "setInstance L r m v lo hi = (\<lambda>i. bindE (ppControl L r i) (\<lambda>w.
     thenE (ppControl_write L r i ((w AND NOT m) OR v)) (checkStatus L r lo hi i)))"
  by (simp add: fun_eq_iff setInstance_def checkStatus_def)

lemma ctl_check:
  assumes s: "ctl_state L r c f D RO s" and run: "checkStatus L r lo hi i s = (x, s')"
  shows "ctl_state L r c f D RO s' \<and> hw s' = hw s"
proof -
  obtain y t where y: "ppStatus L r i s = (y, t)" by fastforce
  have "ppStatus L r i = bindE (ppOffset L r i) (\<lambda>pp. reg_read L r i (pp + 32))"
    by (simp add: ppStatus_def)
  with ctl_read_pp [OF s] y have t: "ctl_state L r c f D RO t \<and> hw t = hw s" by metis
  moreover have "s' = t"
    using run y by (cases y) (auto simp: checkStatus_def bindE_apply Let_def split: if_splits)
  ultimately show ?thesis by simp
qed

interpretation ctl: rmw_registers "ppControl L r" "ppControl_write L r" "checkStatus L r lo hi"
  "\<lambda>s i. dev_pp L c f i 24 (hw s)" "ctl_state L r c f D RO"
  for L r lo hi c f D RO
proof
  fix s i x s'
  assume s: "ctl_state L r c f D RO s"
  show "ctl_state L r c f D RO s' \<and> (\<lambda>i. dev_pp L c f i 24 (hw s')) = (\<lambda>i. dev_pp L c f i 24 (hw s)) \<and>
      (\<forall>v. x = Inr v \<longrightarrow> dev_pp L c f i 24 (hw s) = Inr v)" if "ppControl L r i s = (x, s')"
    using ctl_read_pp [OF s, of i 24] that by (auto simp: ppControl_def)
next
  fix s i w v s'
  assume "ctl_state L r c f D RO s" "dev_pp L c f i 24 (hw s) = Inr w" "ppControl_write L r i v s = (Inr (), s')"
  then show "ctl_state L r c f D RO s' \<and>
      (\<lambda>i. dev_pp L c f i 24 (hw s')) = (\<lambda>i. dev_pp L c f i 24 (hw s))(i := Inr v)"
    by (rule ctl_write)
next
  fix s i y s'
  assume "ctl_state L r c f D RO s" "checkStatus L r lo hi i s = (y, s')"
  then show "ctl_state L r c f D RO s' \<and> (\<lambda>i. dev_pp L c f i 24 (hw s')) = (\<lambda>i. dev_pp L c f i 24 (hw s))"
    using ctl_check by metis
qed

lemma setAllInstances_updates:
  assumes s: "ctl_state L r c f D RO s" and r: "t_intf sst = Some r"
    and run: "setAllInstances L sst m v lo hi s = (Inr (), s')"
  shows "\<exists>is. validInstances L r s = (Inr is, s) \<and>
    (\<forall>i \<in> set is. \<exists>w. dev_pp L c f i 24 (hw s) = Inr w \<and> dev_pp L c f i 24 (hw s') = Inr ((w AND NOT m) OR v)) \<and>
    (\<forall>i. i \<notin> set is \<longrightarrow> dev_pp L c f i 24 (hw s') = dev_pp L c f i 24 (hw s))"
proof -
  have q: "quiet_state L r c f s" using s by (simp add: ctl_state_def)
  obtain x t where v: "validInstances L r s = (x, t)" by fastforce
  then have t: "t = s" using validInstances_quiet_state [OF q] by blast
  obtain "is" where x: "x = Inr is"
    using run v r by (cases x) (auto simp: setAllInstances_def intf_apply bindE_apply)
  have lp: "forE is (setInstance L r m v lo hi) s = (Inr (), s')"
    using run v r x t by (simp add: setAllInstances_def intf_apply bindE_apply)
  have feat: "sm_deref (features (tpmi s)) (rs_feature r) = Some f" using q by (simp add: quiet_state_def)
  obtain ys where ys: "is = map of_nat ys" "sorted_wrt (<) ys" "set ys \<subseteq> {0..<unat (f_instances f)}"
    using validInstances_from_increasing [OF feat v [unfolded validInstances_def x]] by auto
  have "inj_on (of_nat :: nat \<Rightarrow> u32) (set ys)"
  proof (rule inj_onI)
    fix a b
    assume ab: "a \<in> set ys" "b \<in> set ys" "(of_nat a :: u32) = of_nat b"
    then have "a < 2 ^ 32" "b < 2 ^ 32"
      using ys(3) unsigned_less [of "f_instances f", where 'a=nat] by auto
    then have "unat (of_nat a :: u32) = a" "unat (of_nat b :: u32) = b"
      by (simp_all add: unat_of_nat take_bit_nat_eq_self)
    then show "a = b" using arg_cong [OF ab(3), of unat] by (metis (no_types))
  qed
  moreover have "distinct ys" using ys(2) strict_sorted_iff by blast
  ultimately have "distinct is" by (simp add: ys(1) distinct_map)
  from ctl.update_all [OF this s lp [unfolded setInstance_unfold]] v x t show ?thesis
    by (intro exI [of _ "is"] conjI) simp_all
qed

section \<open>The concrete register file as a control device\<close>

definition demo_tpmi :: SSTTPMI where
  "demo_tpmi = \<lparr>t_address = 0x30, t_cpuIndex = 0, t_intf = Some demo_regset, t_wakePolicy = dontWake\<rparr>"

text \<open>The states the demonstration hardware can reach by writes to the control register of instance 0.\<close>

definition demo_D :: "demo_hw \<Rightarrow> bool" where
  "demo_D h \<longleftrightarrow> \<not> dh_asleep h \<and> (\<forall>a. a \<noteq> 0x1028 \<longrightarrow> dh_mem h a = map_of demo_regs a)"

definition demo_RO :: "u32 \<times> size_t \<Rightarrow> bool" where
  "demo_RO k \<longleftrightarrow> snd k = 0"

lemma demo_bits_ok: "bits_ok demo_lib"
  by (simp add: bits_ok_def demo_lib_def)

lemma demo_instances: "i < f_instances demo_feature \<Longrightarrow> i = 0 \<or> i = (1 :: u32)"
proof -
  assume "i < f_instances demo_feature"
  then have "unat i < 2" by (simp add: demo_feature_def word_less_nat_alt)
  then have "unat i = 0 \<or> unat i = 1" by auto
  then show ?thesis by (metis unat_eq_zero unat_1 unsigned_word_eqI unsigned_1)
qed

lemma demo_D_header:
  assumes "demo_D h"
  shows "device_value demo_lib demo_cpu demo_feature h j 0 =
    (if j = 0 then Inr 0x02000200 else if f_instances demo_feature \<le> j
     then Inl (Out_Of_Range ''Invalid instance'') else Inl (PECIError ''MMIO Read failed''))"
proof -
  have "dh_mem h 0x1000 = Some 0x02000200" "dh_mem h 0x1100 = None" "\<not> dh_asleep h"
    using assms by (simp_all add: demo_D_def demo_regs_def)
  then show ?thesis
    using demo_instances [of j] by (auto simp: device_value_def mmio_answer_def reg_address_def demo_lib_def demo_feature_def
      not_le split: if_splits)
qed

lemma demo_D_ppOffset:
  assumes "demo_D h"
  shows "dev_ppOffset demo_lib demo_cpu demo_feature j h =
    (if j = 0 then Inr 16 else if f_instances demo_feature \<le> j
     then Inl (Out_Of_Range ''Invalid instance'') else Inl (PECIError ''MMIO Read failed''))"
proof -
  have "(ucast (mask_bits demo_lib 0x02000200 24 31) :: u32) * 8 = 16"
    by (simp add: demo_lib_def)
  then show ?thesis by (simp add: dev_ppOffset_def demo_D_header [OF assms])
qed

lemma demo_D_pp24:
  assumes "demo_D h"
  shows "dev_pp demo_lib demo_cpu demo_feature j 24 h =
    (if j = 0 then case dh_mem h 0x1028 of Some v \<Rightarrow> Inr v | None \<Rightarrow> Inl (PECIError ''MMIO Read failed'')
     else if f_instances demo_feature \<le> j then Inl (Out_Of_Range ''Invalid instance'')
     else Inl (PECIError ''MMIO Read failed''))"
proof -
  have "device_value demo_lib demo_cpu demo_feature h 0 40 =
      (case dh_mem h 0x1028 of Some v \<Rightarrow> Inr v | None \<Rightarrow> Inl (PECIError ''MMIO Read failed''))"
    using assms by (simp add: device_value_def mmio_answer_def reg_address_def demo_lib_def demo_feature_def
        demo_D_def split: option.splits)
  then show ?thesis by (simp add: dev_pp_def demo_D_ppOffset [OF assms])
qed

lemma demo_D_control:
  assumes "demo_D h" and "dh_mem h 0x1028 = Some v"
  shows "dev_pp demo_lib demo_cpu demo_feature j 24 h =
    (if j = 0 then Inr v else if f_instances demo_feature \<le> j
     then Inl (Out_Of_Range ''Invalid instance'') else Inl (PECIError ''MMIO Read failed''))"
  using assms(2) by (simp add: demo_D_pp24 [OF assms(1)])

lemma demo_control_value:
  assumes "demo_D h" and "dev_pp demo_lib demo_cpu demo_feature 0 24 h = Inr w"
  shows "dh_mem h 0x1028 = Some w"
  using assms(2) by (simp add: demo_D_pp24 [OF assms(1)] split: option.splits)

lemma demo_ctl_device: "ctl_device demo_lib demo_regset demo_cpu demo_feature demo_D demo_RO"
  unfolding ctl_device_def
proof (intro conjI allI impI)
  show "demo_RO (j, 0)" for j by (simp add: demo_RO_def)
  show "quiet_device demo_lib demo_regset h" for h by (rule demo_quiet_device)
  fix h i pp v st cc u h'
  assume D: "demo_D h" and pp: "dev_ppOffset demo_lib demo_cpu demo_feature i h = Inr pp"
    and w: "peci_WrEndPointConfigMmio demo_lib demo_cpu (ucast (reg_address demo_feature i (pp + 24))) v h = ((st, cc, u), h')"
  have i: "i = 0" "pp = 16" using pp D by (auto simp: demo_D_ppOffset split: if_splits)
  have h': "h' = h\<lparr>dh_mem := (dh_mem h)(0x1028 \<mapsto> v)\<rparr>"
    using w by (simp add: i demo_lib_def reg_address_def demo_feature_def)
  then show D': "demo_D h'" using D by (simp add: demo_D_def)
  show "\<not> (rs_policy demo_regset = wakeAllowed \<and> st = PECI_CC_SUCCESS demo_lib \<and> cc = ccUnavailResource)"
    by (simp add: demo_regset_def)
  show "device_value demo_lib demo_cpu demo_feature h' j off = device_value demo_lib demo_cpu demo_feature h j off"
    if "demo_RO (j, off)" for j off
    using that by (simp add: demo_RO_def demo_D_header [OF D] demo_D_header [OF D'])
  show "(\<lambda>j. dev_pp demo_lib demo_cpu demo_feature j 24 h') =
      (\<lambda>j. dev_pp demo_lib demo_cpu demo_feature j 24 h)(i := Inr v)"
    if "dev_pp demo_lib demo_cpu demo_feature i 24 h = Inr w" for w
  proof -
    have m: "dh_mem h' 0x1028 = Some v" by (simp add: h')
    from that have "dh_mem h 0x1028 = Some w" by (simp add: i demo_control_value [OF D])
    then show ?thesis
      by (simp add: fun_eq_iff i demo_D_control [OF D] demo_D_control [OF D' m])
  qed
qed

lemma demo_ctl_state: "ctl_state demo_lib demo_regset demo_cpu demo_feature demo_D demo_RO demo_sst"
  using demo_ctl_device demo_quiet
  by (auto simp: ctl_state_def cached_in_def demo_sst_def demo_D_def)

lemma demo_sst_sel:
  "rs_cpuIndex demo_regset = 0" "rs_policy demo_regset = dontWake" "cachedRegs demo_sst = Map.empty"
  "hw demo_sst = \<lparr>dh_woken = {}, dh_writes = 0, dh_asleep = False, dh_mem = map_of demo_regs\<rparr>"
  "f_instances demo_feature = 2" "f_offset demo_feature = 0x1000" "f_size demo_feature = 0x100"
  "t_intf demo_tpmi = Some demo_regset"
  by (simp_all add: demo_regset_def demo_sst_def demo_feature_def demo_tpmi_def)

lemma demo_setAll:
  "setAllInstances demo_lib demo_tpmi m v lo hi demo_sst = setInstance demo_lib demo_regset m v lo hi 0 demo_sst"
  by (auto simp: setAllInstances_def intf_apply demo_sst_sel bindE_apply demo_validInstances thenE_apply
      split: prod.splits sum.splits)

lemma demo_ppOffset:
  assumes "tpmi s = tpmi demo_sst" and "demo_D (hw s)" and "cachedRegs s = Map.empty \<or> cachedRegs s = [(0, 0, 0) \<mapsto> 0x02000200]"
  shows "ppOffset demo_lib demo_regset 0 s = (Inr 16, s\<lparr>cachedRegs := [(0, 0, 0) \<mapsto> 0x02000200]\<rparr>)"
proof -
  have d: "sm_deref (features (tpmi s)) (rs_feature demo_regset) = Some demo_feature"
    "sm_deref (cpus (tpmi s)) (rs_cpu demo_regset) = Some demo_cpu"
    using demo_derefs assms(1) by simp_all
  have "reg_read demo_lib demo_regset 0 0 s = (Inr 0x02000200, s)"
    using quiet_reg_read [OF demo_quiet_device d, of 0 0] demo_D_header [OF assms(2), of 0] by simp
  then have "reg_header demo_lib demo_regset 0 s = (Inr 0x02000200, s\<lparr>cachedRegs := [(0, 0, 0) \<mapsto> 0x02000200]\<rparr>)"
    using assms(3) by (auto simp: reg_header_def cachedRead_def Let_def bindE_apply thenE_apply demo_sst_sel)
  then show ?thesis
    by (simp add: ppOffset_def bindE_apply) (simp add: demo_lib_def)
qed

lemma demo_setInstance:
  "\<exists>s'. setInstance demo_lib demo_regset m v lo hi 0 demo_sst = (Inr (), s')"
proof -
  define s1 where "s1 = demo_sst\<lparr>cachedRegs := [(0, 0, 0) \<mapsto> 0x02000200]\<rparr>"
  define h2 where "h2 = (hw demo_sst)\<lparr>dh_mem := (map_of demo_regs)(0x1028 \<mapsto> (0 AND NOT m) OR v)\<rparr>"
  have s1: "tpmi s1 = tpmi demo_sst" "hw s1 = hw demo_sst" "cachedRegs s1 = [(0, 0, 0) \<mapsto> 0x02000200]"
    by (simp_all add: s1_def)
  have D: "demo_D (hw demo_sst)" "demo_D h2" by (simp_all add: demo_D_def demo_sst_sel h2_def)
  have d: "sm_deref (features (tpmi s1)) (rs_feature demo_regset) = Some demo_feature"
    "sm_deref (cpus (tpmi s1)) (rs_cpu demo_regset) = Some demo_cpu"
    using demo_derefs by (simp_all add: s1)
  have pp0: "ppOffset demo_lib demo_regset 0 demo_sst = (Inr 16, s1)"
    using demo_ppOffset [of demo_sst] D by (simp add: demo_sst_sel s1_def)
  have pp1: "ppOffset demo_lib demo_regset 0 (s1\<lparr>hw := h\<rparr>) = (Inr 16, s1\<lparr>hw := h\<rparr>)" if "demo_D h" for h
    using demo_ppOffset [of "s1\<lparr>hw := h\<rparr>"] that by (simp add: s1)
  have c: "device_value demo_lib demo_cpu demo_feature (hw demo_sst) 0 40 = Inr 0"
    by (simp add: device_value_def mmio_answer_def reg_address_def demo_lib_def demo_sst_sel demo_regs_def)
  have st: "device_value demo_lib demo_cpu demo_feature h2 0 48 = Inr 0"
    by (simp add: device_value_def mmio_answer_def reg_address_def demo_lib_def h2_def demo_sst_sel demo_regs_def)
  have rd: "ppControl demo_lib demo_regset 0 demo_sst = (Inr 0, s1)"
    using quiet_reg_read [OF demo_quiet_device d, of 0 40] c
    by (simp add: ppControl_def bindE_apply pp0 s1)
  have "ppOffset demo_lib demo_regset 0 s1 = (Inr 16, s1)"
    using pp1 [OF D(1)] by (simp add: s1_def)
  then have wr: "ppControl_write demo_lib demo_regset 0 ((0 AND NOT m) OR v) s1 = (Inr (), s1\<lparr>hw := h2\<rparr>)"
    using d by (simp add: ppControl_write_def reg_write_def derefFeature_def derefCPU_def bindE_apply
        peciOpWithWakeRetry_def liftHw_def demo_sst_sel)
      (simp add: demo_lib_def reg_address_def s1 h2_def demo_sst_sel)
  have "sm_deref (features (tpmi (s1\<lparr>hw := h2\<rparr>))) (rs_feature demo_regset) = Some demo_feature"
    "sm_deref (cpus (tpmi (s1\<lparr>hw := h2\<rparr>))) (rs_cpu demo_regset) = Some demo_cpu"
    using d by simp_all
  from quiet_reg_read [OF demo_quiet_device this, of 0 48] st
  have "ppStatus demo_lib demo_regset 0 (s1\<lparr>hw := h2\<rparr>) = (Inr 0, s1\<lparr>hw := h2\<rparr>)"
    by (simp add: ppStatus_def bindE_apply pp1 [OF D(2)])
  moreover have "mask_bits demo_lib 0 lo hi = 0" by (simp add: demo_lib_def)
  ultimately show ?thesis
    using rd wr by (simp add: setInstance_def bindE_apply thenE_apply)
qed

lemma demo_setAll_runs: "\<exists>s'. setAllInstances demo_lib demo_tpmi m v lo hi demo_sst = (Inr (), s')"
  unfolding demo_setAll by (rule demo_setInstance)

section \<open>Properties\<close>

text \<open>C1: \<open>setCurrentLevel\<close> with a level of three bits is an exact read-modify-write: when it returns,
  every valid instance has the level in the low three bits of its control register and every other bit
  of that register as it was, and no other instance's control register has changed.\<close>

theorem setCurrentLevel_exact:
  assumes "ctl_state L r c f D RO s" and "t_intf sst = Some r" and "level < 8"
    and "setCurrentLevel L sst level s = (Inr (), s')"
  shows "\<exists>is. validInstances L r s = (Inr is, s) \<and>
    (\<forall>i \<in> set is. \<exists>w w'. dev_pp L c f i 24 (hw s) = Inr w \<and> dev_pp L c f i 24 (hw s') = Inr w' \<and>
       take_bit 3 w' = ucast level \<and> drop_bit 3 w' = drop_bit 3 w) \<and>
    (\<forall>i. i \<notin> set is \<longrightarrow> dev_pp L c f i 24 (hw s') = dev_pp L c f i 24 (hw s))"
proof -
  have seven: "(7 :: u64) = mask 3" by (simp add: mask_eq_exp_minus_1)
  have lv: "\<not> bit level n" if "3 \<le> n" for n
  proof -
    have "unat level < 2 ^ 3" using assms(3) by (simp add: word_less_nat_alt)
    then have "take_bit 3 level = level"
      by (simp add: word_unat_eq_iff unsigned_take_bit_eq take_bit_nat_eq_self)
    with that show ?thesis by (metis bit_take_bit_iff leD)
  qed
  have lo: "take_bit 3 ((w AND NOT 7) OR ucast level) = (ucast level :: u64)" for w :: u64
    unfolding seven by (rule bit_word_eqI) (use lv not_le in \<open>auto simp: bit_simps\<close>)
  have hi: "drop_bit 3 ((w AND NOT 7) OR ucast level) = drop_bit 3 w" for w :: u64
    unfolding seven by (rule bit_word_eqI) (use lv in \<open>auto simp: bit_simps dest: bit_imp_le_length\<close>)
  from setAllInstances_updates [OF assms(1,2) assms(4) [unfolded setCurrentLevel_def]] lo hi show ?thesis
    by metis
qed

theorem setCurrentLevel_exact_witness:
  "\<exists>s'. setCurrentLevel demo_lib demo_tpmi 3 demo_sst = (Inr (), s') \<and>
    (\<exists>is. validInstances demo_lib demo_regset demo_sst = (Inr is, demo_sst) \<and>
    (\<forall>i \<in> set is. \<exists>w w'. dev_pp demo_lib demo_cpu demo_feature i 24 (hw demo_sst) = Inr w \<and>
       dev_pp demo_lib demo_cpu demo_feature i 24 (hw s') = Inr w' \<and>
       take_bit 3 w' = 3 \<and> drop_bit 3 w' = drop_bit 3 w) \<and>
    (\<forall>i. i \<notin> set is \<longrightarrow> dev_pp demo_lib demo_cpu demo_feature i 24 (hw s') =
       dev_pp demo_lib demo_cpu demo_feature i 24 (hw demo_sst)))"
proof -
  obtain s' where run: "setCurrentLevel demo_lib demo_tpmi 3 demo_sst = (Inr (), s')"
    using demo_setAll_runs unfolding setCurrentLevel_def by blast
  have "(ucast (3 :: u32) :: u64) = 3" "(3 :: u32) < 8" by simp_all
  with setCurrentLevel_exact [OF demo_ctl_state demo_sst_sel(8) _ run] run show ?thesis by metis
qed

text \<open>C2: \<open>setBfEnabled\<close> and \<open>setTfEnabled\<close> change one bit of every valid instance: when they return,
  bit 8, respectively bit 9, of the control register is the requested value and every other bit of it
  is what it was; other instances' control registers have not changed.\<close>

theorem setFeatureState_exact:
  assumes "ctl_state L r c f D RO s" and "t_intf sst = Some r" and "bits_ok L"
    and "setBfEnabled L sst enable s = (Inr (), s') \<and> n = 8 \<or> setTfEnabled L sst enable s = (Inr (), s') \<and> n = 9"
  shows "\<exists>is. validInstances L r s = (Inr is, s) \<and>
    (\<forall>i \<in> set is. \<exists>w w'. dev_pp L c f i 24 (hw s) = Inr w \<and> dev_pp L c f i 24 (hw s') = Inr w' \<and>
       (\<forall>k. bit w' k = (if k = n then enable else bit w k))) \<and>
    (\<forall>i. i \<notin> set is \<longrightarrow> dev_pp L c f i 24 (hw s') = dev_pp L c f i 24 (hw s))"
proof -
  have n: "n < 64" using assms(4) by auto
  obtain lo hi where run: "setAllInstances L sst (push_bit n 1) (if enable then push_bit n 1 else 0) lo hi s = (Inr (), s')"
    using assms(4) bits_okD(2) [OF assms(3), of n] n
    by (cases enable) (auto simp: setBfEnabled_def setTfEnabled_def Let_def simp del: push_bit_of_1)
  have b: "bit ((w AND NOT (push_bit n 1)) OR (if enable then push_bit n 1 else 0)) k =
      (if k = n then enable else bit w k)" for w :: u64 and k
    using n by (cases "k < 64") (auto simp: bit_simps simp del: push_bit_of_1 dest: bit_imp_le_length)
  from setAllInstances_updates [OF assms(1,2) run] b show ?thesis by metis
qed

theorem setFeatureState_exact_witness:
  "\<exists>s'. setBfEnabled demo_lib demo_tpmi True demo_sst = (Inr (), s') \<and>
    (\<exists>is. validInstances demo_lib demo_regset demo_sst = (Inr is, demo_sst) \<and>
    (\<forall>i \<in> set is. \<exists>w w'. dev_pp demo_lib demo_cpu demo_feature i 24 (hw demo_sst) = Inr w \<and>
       dev_pp demo_lib demo_cpu demo_feature i 24 (hw s') = Inr w' \<and>
       (\<forall>k. bit w' k = (if k = 8 then True else bit w k))) \<and>
    (\<forall>i. i \<notin> set is \<longrightarrow> dev_pp demo_lib demo_cpu demo_feature i 24 (hw s') =
       dev_pp demo_lib demo_cpu demo_feature i 24 (hw demo_sst)))"
proof -
  obtain s' where run: "setBfEnabled demo_lib demo_tpmi True demo_sst = (Inr (), s')"
    using demo_setAll_runs unfolding setBfEnabled_def Let_def by blast
  then have "setBfEnabled demo_lib demo_tpmi True demo_sst = (Inr (), s') \<and> (8 :: nat) = 8 \<or>
      setTfEnabled demo_lib demo_tpmi True demo_sst = (Inr (), s') \<and> (8 :: nat) = 9" by simp
  from setFeatureState_exact [OF demo_ctl_state demo_sst_sel(8) demo_bits_ok this] run show ?thesis by blast
qed

text \<open>\<open>setCurrentLevel\<close> does not mask its argument: bits of a level beyond the three of the field are
  written into the bits above it, so that a level of \<open>0x100\<close> switches the base-frequency feature on in
  every valid instance.\<close>

theorem setCurrentLevel_unmasked:
  assumes "ctl_state L r c f D RO s" and "t_intf sst = Some r"
    and "setCurrentLevel L sst level s = (Inr (), s')"
  shows "\<exists>is. validInstances L r s = (Inr is, s) \<and>
    (\<forall>i \<in> set is. \<exists>w w'. dev_pp L c f i 24 (hw s) = Inr w \<and> dev_pp L c f i 24 (hw s') = Inr w' \<and>
       (\<forall>k. bit w' k = (bit level k \<or> 3 \<le> k \<and> bit w k)))"
proof -
  have seven: "(7 :: u64) = mask 3" by (simp add: mask_eq_exp_minus_1)
  have "bit ((w AND NOT 7) OR (ucast level)) k = (bit level k \<or> 3 \<le> k \<and> bit w k)" for w :: u64 and k
    unfolding seven by (cases "k < 64") (auto simp: bit_simps dest: bit_imp_le_length)
  with setAllInstances_updates [OF assms(1,2) assms(3) [unfolded setCurrentLevel_def]] show ?thesis by metis
qed

theorem setCurrentLevel_unmasked_witness:
  "\<exists>s'. setCurrentLevel demo_lib demo_tpmi 0x100 demo_sst = (Inr (), s') \<and>
    (\<exists>w'. dev_pp demo_lib demo_cpu demo_feature 0 24 (hw s') = Inr w' \<and> bit w' 8)"
proof -
  obtain s' where run: "setCurrentLevel demo_lib demo_tpmi 0x100 demo_sst = (Inr (), s')"
    using demo_setAll_runs unfolding setCurrentLevel_def by blast
  have "bit (0x100 :: u32) 8" by simp
  with setCurrentLevel_unmasked [OF demo_ctl_state demo_sst_sel(8) run] demo_validInstances run
  show ?thesis by auto
qed

text \<open>\<open>maxLevel\<close> and \<open>levelSupported\<close> agree on a quiet device: when \<open>maxLevel\<close> returns \<open>n\<close>, then
  \<open>n\<close> is at most 7, no level above \<open>n\<close> is reported supported, \<open>n\<close> itself is unless it is 0, and asking
  for a level of 8 or more throws \<open>std::out_of_range\<close>.\<close>

theorem maxLevel_is_highest_supported:
  assumes "quiet_state L r c f s" and "t_intf sst = Some r" and "maxLevel L sst s = (Inr n, s')"
  shows "n \<le> 7 \<and>
    (\<forall>l. n < l \<and> l < 8 \<longrightarrow> fst (levelSupported L sst l s') = Inr False) \<and>
    (n \<noteq> 0 \<longrightarrow> fst (levelSupported L sst n s') = Inr True) \<and>
    (\<forall>l. 8 \<le> l \<longrightarrow> fst (levelSupported L sst l s') = Inl (Out_Of_Range ''bitset::test''))"
proof -
  obtain regs where h: "ppHeader L r 0 s = (dev_pp L c f 0 0 (hw s), s\<lparr>cachedRegs := regs\<rparr>)"
    and q: "quiet_state L r c f (s\<lparr>cachedRegs := regs\<rparr>)"
    using readsD [OF reads_ppHeader assms(1)] .
  obtain v where v: "dev_pp L c f 0 0 (hw s) = Inr v"
    using assms(2,3) h by (cases "dev_pp L c f 0 0 (hw s)") (auto simp: maxLevel_def intf_apply bindE_apply)
  define m where "m = (ucast (mask_bits L v 12 19) :: u8)"
  have n: "n = maxLevel_from 7 m" and s': "s' = s\<lparr>cachedRegs := regs\<rparr>"
    using assms(2,3) h v by (simp_all add: maxLevel_def intf_apply bindE_apply m_def)
  have sup: "fst (levelSupported L sst l s') =
      (if 8 \<le> l then Inl (Out_Of_Range ''bitset::test'') else Inr (bit m (unat l)))" for l
  proof -
    obtain g2 where "ppHeader L r 0 s' = (Inr v, s\<lparr>cachedRegs := g2\<rparr>)"
      using readsD [OF reads_ppHeader q, of 0] v s' by auto
    then show ?thesis
      by (simp add: levelSupported_def intf_apply [OF assms(2)] bindE_apply m_def Let_def)
  qed
  note spec = maxLevel_from_spec [of 7 m, folded n]
  have le: "n \<le> 7" using spec by (simp add: word_le_nat_alt)
  then have n8: "\<not> 8 \<le> n" by (simp add: word_le_nat_alt)
  have above: "\<not> bit m (unat l)" if "n < l" "l < 8" for l
  proof -
    have "unat n < unat l" "unat l \<le> 7"
      using that by (simp_all add: word_less_nat_alt)
    then show ?thesis using spec by blast
  qed
  have self: "n \<noteq> 0 \<Longrightarrow> bit m (unat n)" using spec by blast
  show ?thesis
    using le n8 above self by (auto simp: sup not_le dest: leD)
qed

lemma demo_pp0: "dev_pp demo_lib demo_cpu demo_feature 0 0 (hw demo_sst) = Inr 0x0000040000001000"
proof -
  have "demo_D (hw demo_sst)" by (simp add: demo_D_def demo_sst_sel)
  then show ?thesis
    by (simp add: dev_pp_def demo_D_ppOffset)
      (simp add: device_value_def mmio_answer_def reg_address_def demo_lib_def demo_sst_sel demo_regs_def)
qed

lemma demo_level_mask: "maxLevel_from 7 (ucast (mask_bits demo_lib 0x0000040000001000 12 19)) = 0"
proof -
  have "maxLevel_from 7 1 = 0" by code_simp
  moreover have "(ucast (mask_bits demo_lib 0x0000040000001000 12 19) :: u8) = 1" by (simp add: demo_lib_def)
  ultimately show ?thesis by simp
qed

lemma demo_maxLevel: "\<exists>s'. maxLevel demo_lib demo_tpmi demo_sst = (Inr 0, s')"
proof -
  obtain regs where "ppHeader demo_lib demo_regset 0 demo_sst = (Inr 0x0000040000001000, demo_sst\<lparr>cachedRegs := regs\<rparr>)"
    using readsD [OF reads_ppHeader demo_quiet, of 0] demo_pp0 by metis
  then show ?thesis
    using demo_level_mask by (simp add: maxLevel_def intf_apply demo_sst_sel bindE_apply)
qed

theorem maxLevel_is_highest_supported_witness:
  "\<exists>s'. maxLevel demo_lib demo_tpmi demo_sst = (Inr 0, s') \<and>
    fst (levelSupported demo_lib demo_tpmi 3 s') = Inr False \<and>
    fst (levelSupported demo_lib demo_tpmi 9 s') = Inl (Out_Of_Range ''bitset::test'')"
proof -
  obtain s' where "maxLevel demo_lib demo_tpmi demo_sst = (Inr 0, s')" using demo_maxLevel by blast
  with maxLevel_is_highest_supported [OF demo_quiet demo_sst_sel(8) this] show ?thesis by simp
qed

text \<open>The turbo profile is exactly the list of the buckets, in order, whose core count and speed
  ratio are both nonzero bytes of the two registers read, with the ratio in units of 100 MHz; it has at
  most eight entries.\<close>

theorem sseTurboProfile_exact:
  assumes "sseTurboProfile L sst level s = (Inr ts, s')"
  shows "\<exists>r cores limits t. t_intf sst = Some r \<and> ppInfo10 L r 0 level s = (Inr cores, t) \<and>
    ppInfo4 L r 0 level t = (Inr limits, s') \<and> ts = turbo_entries cores limits 8 \<and> length ts \<le> 8"
  using assms length_turbo_entries
  by (auto simp: sseTurboProfile_def bindE_Inr_iff intf_Inr_iff turbo_loop_eq)

text \<open>A device that answers every read with the same value, for witnesses that only need some answer.\<close>

definition flat_sst :: "demo_hw sst_state" where
  "flat_sst = demo_sst\<lparr>hw := (hw demo_sst)\<lparr>dh_mem := (\<lambda>a. Some 0x1E0314)\<rparr>\<rparr>"

lemma flat_quiet: "quiet_state demo_lib demo_regset demo_cpu demo_feature flat_sst"
  using demo_derefs demo_quiet_device by (simp add: quiet_state_def cache_coherent_def flat_sst_def demo_sst_sel)

lemma flat_device: "i < 2 \<Longrightarrow> device_value demo_lib demo_cpu demo_feature (hw flat_sst) i off = Inr 0x1E0314"
  by (simp add: device_value_def mmio_answer_def demo_lib_def flat_sst_def demo_sst_sel)

lemma flat_ppInfo: "i < 2 \<Longrightarrow> dev_ppInfo demo_lib demo_cpu demo_feature k i level (hw flat_sst) = Inr 0x1E0314"
  by (simp add: dev_ppInfo_def dev_levelOffset_def dev_pp_def dev_ppOffset_def flat_device)

lemma flat_read:
  assumes "quiet_state demo_lib demo_regset demo_cpu demo_feature (flat_sst\<lparr>cachedRegs := g\<rparr>)" and "i < 2"
  shows "\<exists>g'. ppInfo demo_lib k demo_regset i level (flat_sst\<lparr>cachedRegs := g\<rparr>) =
      (Inr 0x1E0314, flat_sst\<lparr>cachedRegs := g'\<rparr>) \<and>
    quiet_state demo_lib demo_regset demo_cpu demo_feature (flat_sst\<lparr>cachedRegs := g'\<rparr>)"
proof -
  obtain g' where "ppInfo demo_lib k demo_regset i level (flat_sst\<lparr>cachedRegs := g\<rparr>) =
      (dev_ppInfo demo_lib demo_cpu demo_feature k i level (hw (flat_sst\<lparr>cachedRegs := g\<rparr>)),
       flat_sst\<lparr>cachedRegs := g\<rparr>\<lparr>cachedRegs := g'\<rparr>)"
    "quiet_state demo_lib demo_regset demo_cpu demo_feature (flat_sst\<lparr>cachedRegs := g\<rparr>\<lparr>cachedRegs := g'\<rparr>)"
    by (rule readsD [OF reads_ppInfo assms(1)])
  with flat_ppInfo [OF assms(2)] show ?thesis by auto
qed

theorem sseTurboProfile_exact_witness:
  "\<exists>s'. sseTurboProfile demo_lib demo_tpmi 0 flat_sst = (Inr [(2000, 20), (300, 3), (3000, 30)], s') \<and>
    length [(2000 :: u32, 20 :: size_t), (300, 3), (3000, 30)] \<le> 8"
proof -
  have "flat_sst = flat_sst\<lparr>cachedRegs := cachedRegs flat_sst\<rparr>" by simp
  then obtain g1 where a: "ppInfo demo_lib 10 demo_regset 0 0 flat_sst = (Inr 0x1E0314, flat_sst\<lparr>cachedRegs := g1\<rparr>)"
    and q: "quiet_state demo_lib demo_regset demo_cpu demo_feature (flat_sst\<lparr>cachedRegs := g1\<rparr>)"
    using flat_read [of "cachedRegs flat_sst" 0 10 0] flat_quiet by auto
  obtain g2 where b: "ppInfo demo_lib 4 demo_regset 0 0 (flat_sst\<lparr>cachedRegs := g1\<rparr>) = (Inr 0x1E0314, flat_sst\<lparr>cachedRegs := g2\<rparr>)"
    using flat_read [OF q, of 0 4 0] by auto
  have "turbo_loop 8 0x1E0314 0x1E0314 [] = [(2000, 20), (300, 3), (3000, 30)]" by code_simp
  then have "sseTurboProfile demo_lib demo_tpmi 0 flat_sst =
      (Inr [(2000, 20), (300, 3), (3000, 30)], flat_sst\<lparr>cachedRegs := g2\<rparr>)"
    using a b by (simp add: sseTurboProfile_def ppInfo10_def ppInfo4_def intf_apply demo_sst_sel bindE_apply)
  with sseTurboProfile_exact [OF this] show ?thesis by blast
qed

section \<open>Core lists\<close>

text \<open>The loop over the compute instances as a function of the device.\<close>

primrec dev_loop :: "('h, 'st) peci_lib \<Rightarrow> CPU \<Rightarrow> Feature \<Rightarrow> u32 \<Rightarrow> (u32 \<Rightarrow> 'h \<Rightarrow> exn + u64) \<Rightarrow>
    (u32 \<Rightarrow> u64 \<Rightarrow> 'a \<Rightarrow> 'a) \<Rightarrow> u32 list \<Rightarrow> 'a \<Rightarrow> 'h \<Rightarrow> exn + 'a" where
  "dev_loop L c f level y add [] acc h = Inr acc"
| "dev_loop L c f level y add (i # is) acc h = sum_bind (dev_ppInfo L c f 1 i level h) (\<lambda>v.
     (if (ucast (mask_bits L v 8 15) :: u8) = 0 then (\<lambda>h. Inr acc)
      else (\<lambda>h. sum_bind (sum_bind (y i h) (\<lambda>v. Inr (add i v acc))) (\<lambda>a. dev_loop L c f level y add is a h))) h)"

lemma reads_computeLoop:
  assumes "\<And>i acc. reads L r c f (cb i acc) (\<lambda>h. sum_bind (y i h) (\<lambda>v. Inr (add i v acc)))"
  shows "reads L r c f (computeLoop L r level cb is acc) (dev_loop L c f level y add is acc)"
proof (induction "is" arbitrary: acc)
  case Nil
  have "dev_loop L c f level y add [] acc = (\<lambda>h. Inr acc)" by (simp add: fun_eq_iff)
  then show ?case unfolding computeLoop.simps by (simp only: reads_ret)
next
  case (Cons i "is")
  have if_reads: "reads L r c f (if b then m else m') (if b then x else x')"
    if "reads L r c f m x" "reads L r c f m' x'" for b m m' x x'
    using that by simp
  have eq: "dev_loop L c f level y add (i # is) acc = (\<lambda>h. sum_bind (dev_ppInfo L c f 1 i level h) (\<lambda>v.
     (if (ucast (mask_bits L v 8 15) :: u8) = 0 then (\<lambda>h. Inr acc)
      else (\<lambda>h. sum_bind (sum_bind (y i h) (\<lambda>v. Inr (add i v acc))) (\<lambda>a. dev_loop L c f level y add is a h))) h))"
    by (simp add: fun_eq_iff)
  show ?case
    unfolding eq computeLoop.simps ppInfo1_def
    by (intro reads_bindE reads_ppInfo if_reads reads_ret assms Cons.IH)
qed

lemma flat_validInstances: "validInstances demo_lib demo_regset flat_sst = (Inr [0, 1], flat_sst)"
proof -
  have two: "[0..<2] = [0, 1::nat]" by (simp add: upt_rec)
  have answer: "mmio_answer demo_lib demo_cpu demo_feature (hw flat_sst) i off = (0, 0x40, 0x1E0314)" for i off
    by (simp add: mmio_answer_def demo_lib_def flat_sst_def demo_sst_sel)
  have probes: "\<forall>j < unat (f_instances demo_feature).
      probe_missing demo_lib (mmio_answer demo_lib demo_cpu demo_feature (hw flat_sst) (of_nat j) 0) \<or>
      probe_passes demo_lib (mmio_answer demo_lib demo_cpu demo_feature (hw flat_sst) (of_nat j) 0)"
    by (simp add: answer probe_passes_def) (simp add: demo_lib_def)
  have v: "probe_valid demo_lib (0, 0x40, 0x1E0314)"
    by (simp add: probe_valid_def probe_missing_def probe_passes_def invalidRead_def) (simp add: demo_lib_def)
  show ?thesis
    using validInstances_from_quiet [OF flat_quiet probes, of 0 "[]"]
    by (simp add: validInstances_def answer v demo_sst_sel two)
qed

lemma flat_has_cores: "i < 2 \<Longrightarrow> has_cores demo_lib demo_cpu demo_feature level (hw flat_sst) i"
  by (simp add: has_cores_def flat_ppInfo) (simp add: demo_lib_def)

text \<open>C3: On a quiet device with at most \<open>2 ^ 26\<close> instances, when \<open>enabledCoreList\<close> returns it
  returns the core IDs in strictly increasing order, without repetition, and exactly those: an ID
  belongs to the list if and only if its quotient by 64 is a valid instance before the first one
  without cores, and its remainder is a bit set in that instance's core mask register.\<close>

theorem enabledCoreList_exact:
  assumes "quiet_state L r c f s" and "t_intf sst = Some r" and "bits_ok L"
    and "unat (f_instances f) \<le> 2 ^ 26" and "enabledCoreList L sst level s = (Inr xs, s')"
  shows "\<exists>is. validInstances L r s = (Inr is, s) \<and> sorted_wrt (<) xs \<and>
    (\<forall>x. x \<in> set xs \<longleftrightarrow> x div 64 \<in> set (takeWhile (has_cores L c f level (hw s)) is) \<and>
      (case dev_ppInfo L c f 2 (x div 64) level (hw s) of Inr m \<Rightarrow> bit m (unat (x mod 64)) | Inl e \<Rightarrow> False))"
proof -
  have reg: "reads L r c f (ppInfo2 L r i level) (dev_ppInfo L c f 2 i level)" for i
    unfolding ppInfo2_def by (rule reads_ppInfo)
  from gatherCoreList_spec [OF assms(1-4) reg assms(5) [unfolded enabledCoreList_def]]
  show ?thesis by (auto simp: core_masks_spec_def)
qed

lemma flat_enabledCoreList: "\<exists>xs s'. enabledCoreList demo_lib demo_tpmi 0 flat_sst = (Inr xs, s')"
proof -
  define cb where "cb = (\<lambda>i coreList. bindE (intf demo_tpmi) (\<lambda>r. bindE (ppInfo2 demo_lib r i 0)
     (\<lambda>coreMask. ret (coreList @ map (\<lambda>x. x + 64 * i) (convertMaskToList demo_lib coreMask)) ::
        (demo_hw sst_state, u32 list) exm)))"
  define add where "add = (\<lambda>(i :: u32) m a. a @ map (\<lambda>x. x + 64 * i) (convertMaskToList demo_lib m))"
  have cb_eq: "cb i acc = bindE (ppInfo demo_lib 2 demo_regset i 0) (\<lambda>m. ret (add i m acc))" for i acc
    by (simp add: cb_def add_def fun_eq_iff bindE_apply intf_apply demo_sst_sel ppInfo2_def)
  have step: "reads demo_lib demo_regset demo_cpu demo_feature (cb i acc)
      (\<lambda>h. sum_bind (dev_ppInfo demo_lib demo_cpu demo_feature 2 i 0 h) (\<lambda>v. Inr (add i v acc)))" for i acc
    unfolding cb_eq by (intro reads_bindE reads_ppInfo reads_ret)
  have loop: "reads demo_lib demo_regset demo_cpu demo_feature (computeLoop demo_lib demo_regset 0 cb [0, 1] [])
      (dev_loop demo_lib demo_cpu demo_feature 0 (\<lambda>i. dev_ppInfo demo_lib demo_cpu demo_feature 2 i 0) add [0, 1] [])"
    by (rule reads_computeLoop) (rule step)
  have nz: "(ucast (mask_bits demo_lib 0x1E0314 8 15) :: u8) \<noteq> 0" by (simp add: demo_lib_def)
  have "\<exists>xs. dev_loop demo_lib demo_cpu demo_feature 0 (\<lambda>i. dev_ppInfo demo_lib demo_cpu demo_feature 2 i 0) add [0, 1] []
      (hw flat_sst) = Inr xs"
    using nz by (simp add: flat_ppInfo)
  then obtain xs s' where "computeLoop demo_lib demo_regset 0 cb [0, 1] [] flat_sst = (Inr xs, s')"
    using readsD [OF loop flat_quiet] by metis
  moreover have "enabledCoreList demo_lib demo_tpmi 0 = bindE (intf demo_tpmi) (\<lambda>r.
      bindE (validInstances demo_lib r) (\<lambda>is. computeLoop demo_lib r 0 cb is []))"
    by (simp only: enabledCoreList_def gatherCoreList_def forEachComputeInstance_def cb_def)
  ultimately show ?thesis
    by (simp add: bindE_apply intf_apply demo_sst_sel flat_validInstances del: computeLoop.simps)
qed

theorem enabledCoreList_exact_witness:
  "\<exists>xs s'. enabledCoreList demo_lib demo_tpmi 0 flat_sst = (Inr xs, s') \<and> sorted_wrt (<) xs \<and>
     (64 + 2) \<in> set xs \<and> 3 \<notin> set xs"
proof -
  obtain xs s' where run: "enabledCoreList demo_lib demo_tpmi 0 flat_sst = (Inr xs, s')"
    using flat_enabledCoreList by blast
  have "unat (f_instances demo_feature) \<le> 2 ^ 26" by (simp add: demo_sst_sel)
  from enabledCoreList_exact [OF flat_quiet demo_sst_sel(8) demo_bits_ok this run]
  have spec: "sorted_wrt (<) xs" "\<And>x. x \<in> set xs \<longleftrightarrow> x div 64 \<in> set (takeWhile (has_cores demo_lib demo_cpu
      demo_feature 0 (hw flat_sst)) [0, 1]) \<and> (case dev_ppInfo demo_lib demo_cpu demo_feature 2 (x div 64) 0 (hw flat_sst)
        of Inr m \<Rightarrow> bit m (unat (x mod 64)) | Inl e \<Rightarrow> False)"
    by (simp_all add: flat_validInstances)
  have "(66 :: u32) \<in> set xs" "(3 :: u32) \<notin> set xs"
    unfolding spec(2) by (simp_all add: flat_has_cores flat_ppInfo)
  with run spec(1) show ?thesis by auto
qed

section \<open>Readiness and lifetime of the register set\<close>

text \<open>\<open>ready\<close> answers true only when the D-Bus cache holds both the CPU and an SST feature that is
  enabled and not controlled through PCS, and it then leaves the object with a register set; it answers
  false without throwing whenever the CPU or its feature is unknown.\<close>

theorem ready_sound:
  "(\<not> cache_contains (tpmi s) (t_cpuIndex sst) \<longrightarrow> ready sst s = (Inr (sst, False), s)) \<and>
   (\<forall>sst' s'. ready sst s = (Inr (sst', True), s') \<longrightarrow> t_intf sst' \<noteq> None \<and> tpmi s' = tpmi s \<and>
     cache_contains (tpmi s) (t_cpuIndex sst) \<and>
     (\<exists>f. sm_at (features (tpmi s)) (t_cpuIndex sst) = Some f \<and> f_enabled f \<and> \<not> f_usePCS f))"
proof -
  have new: "tpmi s' = tpmi s" if "SSTRegisterSet_new i pol s = (Inr r, s')" for i pol r and s' :: "'a sst_state"
    using that by (auto simp: SSTRegisterSet_new_def bindE_apply thenE_apply split: if_splits option.splits)
  show ?thesis
    by (auto simp: ready_def bindE_Inr_iff bindE_apply split: option.splits prod.splits sum.splits dest: new)
qed

theorem ready_sound_witness:
  "ready (demo_tpmi\<lparr>t_cpuIndex := 7\<rparr>) demo_sst = (Inr (demo_tpmi\<lparr>t_cpuIndex := 7\<rparr>, False), demo_sst)"
proof -
  have "\<not> cache_contains (tpmi demo_sst) (t_cpuIndex (demo_tpmi\<lparr>t_cpuIndex := 7\<rparr>))"
    by (simp add: demo_sst_def demo_cache_def cache_contains_def sm_contains_def)
  with ready_sound [of demo_sst "demo_tpmi\<lparr>t_cpuIndex := 7\<rparr>"] show ?thesis by blast
qed

lemma ready_first_call:
  assumes "sm_at (cpus (tpmi s)) i = Some c" and "sm_at (features (tpmi s)) i = Some f" and "f_enabled f" and "\<not> f_usePCS f"
    and "t_cpuIndex sst = i" and "0 \<le> i" and "i < 256" and "t_intf sst = None"
  shows "\<exists>r. ready sst s = (Inr (sst\<lparr>t_intf := Some r\<rparr>, True), s\<lparr>peciWoken := False\<rparr>) \<and>
    rs_cpuIndex r = word_of_int i \<and> rs_policy r = t_wakePolicy sst \<and>
    sm_deref (cpus (tpmi s)) (rs_cpu r) = Some c \<and> sm_deref (features (tpmi s)) (rs_feature r) = Some f"
proof -
  have i: "uint (word_of_int i :: u8) = i"
    using assms(6,7) by (simp add: unsigned_of_int take_bit_int_eq_self)
  obtain p where p: "sm_ptr (cpus (tpmi s)) i = Some p" "sm_deref (cpus (tpmi s)) p = Some c"
    using assms(1) sm.ptr_iff [of "cpus (tpmi s)" i] sm.deref_ptr [of "cpus (tpmi s)" i] by auto
  obtain q where q: "sm_ptr (features (tpmi s)) i = Some q" "sm_deref (features (tpmi s)) q = Some f"
    using assms(2) sm.ptr_iff [of "features (tpmi s)" i] sm.deref_ptr [of "features (tpmi s)" i] by auto
  show ?thesis
    using assms p q
    by (intro exI [of _ "\<lparr>rs_cpu = p, rs_feature = q, rs_cpuIndex = word_of_int i, rs_policy = t_wakePolicy sst\<rparr>"])
      (simp add: ready_def SSTRegisterSet_new_def bindE_apply thenE_apply cache_contains_def sm_contains_def i)
qed

text \<open>C4: From the announcement of a feature to a register of the device.  An unlocked feature that is announced for
  a known CPU, disabled or controlled through PCS, makes the cache send its corrective writes; once they are answered
  with success, in any order, no handler has thrown and the first call of \<open>ready\<close> answers true with a new register
  set, through which \<open>currentLevel\<close> gives the level bits of the status register of the device, at the address the
  announcement has given.\<close>

theorem announced_feature_answers:
  assumes "unpack_feature LB ps = Some f" and "\<not> f_locked f" and "sm_at (cpus c) i = Some cpu" and "0 \<le> i" and "i < 256"
    and "set rs = set (new_requests c (addSSTFeature LB i ps c))"
    and "t_cpuIndex sst = i" and "t_intf sst = None"
    and "\<And>r. rs_policy r = t_wakePolicy sst \<Longrightarrow> quiet_device L r (hw s)" and "bits_ok L"
    and "\<And>k off. cachedRegs s (word_of_int i, k, off) = None"
  shows "\<exists>c' sst' s'. forE rs (deliver_ok LB) (addSSTFeature LB i ps c) = (Inr (), c') \<and>
    ready sst (s\<lparr>tpmi := c'\<rparr>) = (Inr (sst', True), s') \<and>
    fst (currentLevel L sst' s') = sum_bind (dev_pp L cpu (f\<lparr>f_enabled := True, f_usePCS := False\<rparr>) 0 32 (hw s))
      (\<lambda>v. Inr (ucast (take_bit 3 v)))"
proof -
  let ?f = "f\<lparr>f_enabled := True, f_usePCS := False\<rparr>"
  obtain c' where c': "forE rs (deliver_ok LB) (addSSTFeature LB i ps c) = (Inr (), c')" "cpus c' = cpus c"
    "sm_at (features c') i = Some ?f"
    using corrective_writes_repair [OF assms(1,2) refl assms(6)] by blast
  obtain r where r: "ready sst (s\<lparr>tpmi := c'\<rparr>) = (Inr (sst\<lparr>t_intf := Some r\<rparr>, True), s\<lparr>tpmi := c', peciWoken := False\<rparr>)"
    "rs_cpuIndex r = word_of_int i" "rs_policy r = t_wakePolicy sst"
    "sm_deref (cpus c') (rs_cpu r) = Some cpu" "sm_deref (features c') (rs_feature r) = Some ?f"
    using ready_first_call [of "s\<lparr>tpmi := c'\<rparr>" i cpu ?f sst] assms(3-5,7,8) c' by auto
  let ?s = "s\<lparr>tpmi := c', peciWoken := False\<rparr>"
  have "quiet_state L r cpu ?f ?s"
    using r assms(9,11) by (simp add: quiet_state_def cache_coherent_def)
  moreover have "reads L r cpu ?f (currentLevel L (sst\<lparr>t_intf := Some r\<rparr>))
      (\<lambda>h. sum_bind (dev_pp L cpu ?f 0 32 h) (\<lambda>v. Inr (mask_unsigned L v 0 2)))"
    using reads_bindE [OF reads_ppStatus reads_ret] by (simp add: currentLevel_def intf_apply bindE_def)
  ultimately have "fst (currentLevel L (sst\<lparr>t_intf := Some r\<rparr>) ?s) =
      sum_bind (dev_pp L cpu ?f 0 32 (hw s)) (\<lambda>v. Inr (mask_unsigned L v 0 2))"
    by (fastforce elim: readsD)
  moreover have "mask_unsigned L v 0 2 = ucast (take_bit 3 v)" for v
    by (simp add: mask_unsigned_def bits_okD(1) [OF assms(10)] eval_nat_numeral)
  ultimately show ?thesis using c'(1) r(1) by auto
qed

theorem announced_feature_answers_witness:
  "\<exists>c' sst' s'. forE [pcs_req plain_lib 0, enable_req plain_lib 0] (deliver_ok plain_lib)
      (addSSTFeature plain_lib 0 sample_properties (TPMIDBusCache_new\<lparr>cpus := sm_assign 0 demo_cpu sm_empty\<rparr>)) = (Inr (), c') \<and>
    ready (demo_tpmi\<lparr>t_intf := None\<rparr>) (flat_sst\<lparr>tpmi := c'\<rparr>) = (Inr (sst', True), s') \<and>
    fst (currentLevel demo_lib sst' s') = Inr 4"
proof -
  let ?c = "TPMIDBusCache_new\<lparr>cpus := sm_assign 0 demo_cpu sm_empty\<rparr>"
  let ?f = "\<lparr>f_offset = 64, f_instances = 2, f_size = 1024, f_enabled = True, f_inBandWrite = True,
    f_inBandRead = True, f_usePCS = False, f_locked = False\<rparr>"
  have dev: "device_value demo_lib demo_cpu ?f (hw flat_sst) 0 off = Inr 0x1E0314" for off
    by (simp add: device_value_def mmio_answer_def demo_lib_def flat_sst_def demo_sst_sel)
  have quiet: "quiet_device demo_lib r (hw flat_sst)" if "rs_policy r = dontWake" for r
    using that by (simp add: quiet_device_def demo_lib_def split: option.splits)
  have new: "set [pcs_req plain_lib 0, enable_req plain_lib 0] =
      set (new_requests ?c (addSSTFeature plain_lib 0 sample_properties ?c))"
    by (auto simp: addSSTFeature_unlocked [OF sample_properties_unpack] new_requests_def)
  have sst: "t_cpuIndex (demo_tpmi\<lparr>t_intf := None\<rparr>) = 0" "t_intf (demo_tpmi\<lparr>t_intf := None\<rparr>) = None"
    "t_wakePolicy (demo_tpmi\<lparr>t_intf := None\<rparr>) = dontWake"
    by (simp_all add: demo_tpmi_def)
  have cpu: "sm_at (cpus ?c) 0 = Some demo_cpu" by simp
  have cached: "cachedRegs flat_sst (word_of_int 0, k, off) = None" for k off
    by (simp add: flat_sst_def demo_sst_sel)
  from announced_feature_answers [OF sample_properties_unpack _ cpu _ _ new sst(1,2) quiet demo_bits_ok cached]
  obtain c' sst' s' where "forE [pcs_req plain_lib 0, enable_req plain_lib 0] (deliver_ok plain_lib)
      (addSSTFeature plain_lib 0 sample_properties ?c) = (Inr (), c')"
    "ready (demo_tpmi\<lparr>t_intf := None\<rparr>) (flat_sst\<lparr>tpmi := c'\<rparr>) = (Inr (sst', True), s')"
    "fst (currentLevel demo_lib sst' s') = sum_bind (dev_pp demo_lib demo_cpu ?f 0 32 (hw flat_sst)) (\<lambda>v. Inr (ucast (take_bit 3 v)))"
    using sst(3) by auto
  moreover have "sum_bind (dev_pp demo_lib demo_cpu ?f 0 32 (hw flat_sst)) (\<lambda>v. Inr (ucast (take_bit 3 v))) = Inr (4 :: u32)"
    by (simp add: dev_pp_def dev_ppOffset_def dev)
  ultimately show ?thesis by metis
qed

text \<open>A register set outlives the feature it points to.  When the feature object of its CPU leaves
  D-Bus and comes back ready, \<open>ready\<close> still answers true with the old register set, but the pointer
  taken by the constructor dangles: every uncached register access is undefined behaviour.\<close>

theorem ready_with_dangling_feature:
  assumes "sm_wf (features (tpmi s))" and "t_intf sst = Some r"
    and "sm_ptr (features (tpmi s)) (t_cpuIndex sst) = Some (rs_feature r)"
    and "sm_contains (cpus (tpmi s)) (t_cpuIndex sst)"
    and "unpack_feature LB ps = Some f" and "f_enabled f" and "\<not> f_usePCS f"
    and "s2 = s\<lparr>tpmi := addSSTFeature LB (t_cpuIndex sst) ps (removeFeature (t_cpuIndex sst) (tpmi s))\<rparr>"
  shows "ready sst s2 = (Inr (sst, True), s2) \<and>
    reg_read L r i off s2 = (Inl (Undefined_Behaviour ''feature''), s2) \<and>
    reg_write L r i off v s2 = (Inl (Undefined_Behaviour ''feature''), s2) \<and>
    setCurrentLevel L sst level s2 = (Inl (Undefined_Behaviour ''feature''), s2)"
proof -
  have t: "features (tpmi s2) = sm_assign (t_cpuIndex sst) f (sm_erase (t_cpuIndex sst) (features (tpmi s)))"
    "cpus (tpmi s2) = cpus (tpmi s)"
    using assms(5-8) by (simp_all add: addSSTFeature_def removeFeature_def)
  have dangling: "sm_deref (features (tpmi s2)) (rs_feature r) = None"
    unfolding t by (rule sm.erase_then_reinsert_dangles [OF assms(1,3)])
  have "ready sst s2 = (Inr (sst, True), s2)"
    using assms(2,4,6,7) by (simp add: ready_def bindE_apply cache_contains_def sm_contains_def t)
  with dangling show ?thesis
    using assms(2)
    by (simp add: reg_read_def reg_write_def derefFeature_def bindE_apply setCurrentLevel_def setAllInstances_def
        intf_apply validInstances_def validInstances_from.simps)
qed

definition ready_properties :: Properties where
  "ready_properties = [(''Offset'', V_u32 0x1000), (''Instances'', V_u32 2), (''Size'', V_u32 0x100),
     (''Enabled'', V_bool True), (''InBandReadAllowed'', V_bool True), (''InBandWriteAllowed'', V_bool True),
     (''UsePCS'', V_bool False), (''Locked'', V_bool False)]"

theorem ready_with_dangling_feature_witness:
  "\<exists>s2. ready demo_tpmi s2 = (Inr (demo_tpmi, True), s2) \<and>
    reg_read demo_lib demo_regset 0 0 s2 = (Inl (Undefined_Behaviour ''feature''), s2)"
proof -
  have wf: "sm_wf (features (tpmi demo_sst))" by (simp add: demo_sst_def demo_cache_def)
  have ptr: "sm_ptr (features (tpmi demo_sst)) (t_cpuIndex demo_tpmi) = Some (rs_feature demo_regset)"
    by (simp add: demo_sst_def demo_cache_def demo_tpmi_def demo_regset_def sm_ptr_def sm_assign_def sm_empty_def)
  have cpu: "sm_contains (cpus (tpmi demo_sst)) (t_cpuIndex demo_tpmi)"
    by (simp add: demo_sst_def demo_cache_def demo_tpmi_def sm_contains_def)
  have up: "unpack_feature plain_lib ready_properties = Some demo_feature"
    by (simp add: unpack_feature_def plain_lib_def ready_properties_def demo_feature_def)
  have f: "f_enabled demo_feature" "\<not> f_usePCS demo_feature" by (simp_all add: demo_feature_def)
  show ?thesis
    using ready_with_dangling_feature [OF wf demo_sst_sel(8) ptr cpu up f refl, of demo_lib] by blast
qed

text \<open>The feature states can only be asked for the current level: for any other level both queries
  throw \<open>PECIError\<close> after reading the status, and for the current one they return bits 8 and 9 of it.\<close>

theorem feature_state_of_current_level:
  assumes "quiet_state L r c f s" and "t_intf sst = Some r" and "bits_ok L"
    and "dev_pp L c f 0 32 (hw s) = Inr v"
  shows "fst (bfEnabled L sst level s) = (if take_bit 3 v = ucast level then Inr (bit v 8)
      else Inl (PECIError ''Cannot get feature state for non-current level'')) \<and>
    fst (tfEnabled L sst level s) = (if take_bit 3 v = ucast level then Inr (bit v 9)
      else Inl (PECIError ''Cannot get feature state for non-current level''))"
proof -
  obtain g where h: "ppStatus L r 0 s = (Inr v, s\<lparr>cachedRegs := g\<rparr>)"
    and q: "quiet_state L r c f (s\<lparr>cachedRegs := g\<rparr>)"
    using readsD [OF reads_ppStatus assms(1), of 0] assms(4) by metis
  obtain g2 where h2: "ppStatus L r 0 (s\<lparr>cachedRegs := g\<rparr>) = (Inr v, s\<lparr>cachedRegs := g2\<rparr>)"
    using readsD [OF reads_ppStatus q, of 0] assms(4) by auto
  have cur: "currentLevel L sst s = (Inr (mask_unsigned L v 0 2), s\<lparr>cachedRegs := g\<rparr>)"
    using h by (simp add: currentLevel_def intf_apply [OF assms(2)] bindE_apply)
  have m: "mask_unsigned L v 0 2 = ucast (take_bit 3 v)"
    by (simp add: mask_unsigned_def bits_okD(1) [OF assms(3)] eval_nat_numeral)
  have single: "mask_bool L v n = bit v n" if "n < 64" for n
  proof -
    have "mask_bool L v n \<longleftrightarrow> take_bit 1 (drop_bit n v) \<noteq> 0"
      using that by (simp add: mask_bool_def bits_okD(1) [OF assms(3)])
    also have "\<dots> \<longleftrightarrow> bit v n" by (simp add: bit_iff_odd_drop_bit odd_iff_mod_2_eq_one)
    finally show ?thesis .
  qed
  have level: "(ucast (take_bit 3 v) :: u32) = level \<longleftrightarrow> take_bit 3 v = ucast level"
  proof
    assume "(ucast (take_bit 3 v) :: u32) = level"
    then have "(ucast level :: u64) = ucast (ucast (take_bit 3 v) :: u32)" by simp
    also have "\<dots> = take_bit 3 v"
      by (rule bit_word_eqI) (auto simp: bit_simps)
    finally show "take_bit 3 v = ucast level" by simp
  next
    assume "take_bit 3 v = ucast level"
    moreover have "(ucast (ucast level :: u64) :: u32) = level"
      by (rule bit_word_eqI) (auto simp: bit_simps)
    ultimately show "(ucast (take_bit 3 v) :: u32) = level" by simp
  qed
  show ?thesis
    using h2 by (simp add: bfEnabled_def tfEnabled_def bindE_apply cur m level intf_apply [OF assms(2)] single)
qed

lemma flat_status: "dev_pp demo_lib demo_cpu demo_feature 0 32 (hw flat_sst) = Inr 0x1E0314"
  by (simp add: dev_pp_def dev_ppOffset_def flat_device)

theorem feature_state_of_current_level_witness:
  "fst (bfEnabled demo_lib demo_tpmi 4 flat_sst) = Inr True \<and>
   fst (tfEnabled demo_lib demo_tpmi 3 flat_sst) =
     Inl (PECIError ''Cannot get feature state for non-current level'')"
  using feature_state_of_current_level [OF flat_quiet demo_sst_sel(8) demo_bits_ok flat_status, of 4]
    feature_state_of_current_level [OF flat_quiet demo_sst_sel(8) demo_bits_ok flat_status, of 3]
  by simp

end
