(* ===== verification/Lan_Oem.thy ===== *)
theory Lan_Oem
  imports Prelude
begin

text \<open>
  \<open>transporthandler_oem.cpp\<close>: the OEM LAN parameter of the IPMI host that carries the hostname, in
  up to four blocks of sixteen bytes.  The set handler assembles the blocks in a function static
  buffer and hands the string to the network service when the block marked complete arrives; the get
  handler reads it back block by block.

  The IPMI request payload and the D-Bus connection are parameters: a record of the functions the
  handlers call.
\<close>

section \<open>Interfaces and state\<close>

record ('p, 'b) ipmi_lib =
  pl_unpack :: "'p \<Rightarrow> (u8 \<times> u8 \<times> u8 list \<times> 'p) option"
  pl_fullyUnpacked :: "'p \<Rightarrow> bool"
  pl_size :: "'p \<Rightarrow> size_t"
  setHostName :: "u8 list \<Rightarrow> 'b \<Rightarrow> (exn + unit) \<times> 'b"
  getHostName :: "'b \<Rightarrow> (exn + u8 list) \<times> 'b"

record 'b lan_state =
  blockData :: "u8 list"
  bus :: 'b

datatype 'a RspType =
    Rsp_Success 'a
  | Rsp_ReqDataLenInvalid
  | Rsp_InvalidFieldRequest
  | Rsp_Cc u8

definition intelHostnameConfig :: u8 where "intelHostnameConfig = 0xc7"
definition IpmiHostnameLen :: nat where "IpmiHostnameLen = 16"
definition CurrentRevision :: u8 where "CurrentRevision = 0x11"
definition ccParamNotSupported :: u8 where "ccParamNotSupported = 0x80"
definition ccUnprintable :: u8 where "ccUnprintable = 0x90"
definition lanOemHostnameLength :: nat where "lanOemHostnameLength = 64"

definition validHostnameChars :: "char list" where
  "validHostnameChars = ''abcdefghijklmnopqrstuvwxyzABCDEFGHIJKLMNOPQRSTUVWXYZ0123456789-''"

definition validHostnameChar :: "u8 \<Rightarrow> bool" where
  "validHostnameChar b \<longleftrightarrow> unat b \<in> set (map char_code validHostnameChars)"

text \<open>The function static buffer starts zeroed.\<close>

definition lan_init :: "'b \<Rightarrow> 'b lan_state" where
  "lan_init b = \<lparr>blockData = replicate lanOemHostnameLength 0, bus = b\<rparr>"

text \<open>\<open>std::copy\<close> into the buffer; a copy past its end is undefined behaviour.\<close>

definition copyInto :: "u8 list \<Rightarrow> nat \<Rightarrow> u8 list \<Rightarrow> (exn + u8 list)" where
  "copyInto src pos dst = (if length src + pos \<le> length dst
     then Inr (take pos dst @ src @ drop (pos + length src) dst)
     else Inl (Undefined_Behaviour ''std::copy''))"

section \<open>The handlers\<close>

definition storeHostname :: "('p, 'b) ipmi_lib \<Rightarrow> ('b lan_state, unit RspType) exm" where
  "storeHostname L =
     thenE (modify (\<lambda>s. s\<lparr>blockData := (blockData s)[lanOemHostnameLength - 1 := 0]\<rparr>))
       (bindE (gets blockData) (\<lambda>newHostname.
          let firstNull = find_first (\<lambda>b. b = 0) newHostname in
          if find_first (\<lambda>b. \<not> validHostnameChar b) newHostname \<noteq> firstNull then ret (Rsp_Cc ccUnprintable)
          else (\<lambda>s. case setHostName L newHostname (bus s) of
                 (Inl e, b) \<Rightarrow> (Inl e, s\<lparr>bus := b\<rparr>)
               | (Inr u, b) \<Rightarrow> (Inr (Rsp_Success ()), s\<lparr>bus := b\<rparr>))))"

definition setLanOem :: "('p, 'b) ipmi_lib \<Rightarrow> u8 \<Rightarrow> 'p \<Rightarrow> ('b lan_state, unit RspType) exm" where
  "setLanOem L parameter req =
     (if parameter \<noteq> intelHostnameConfig then ret (Rsp_Cc ccParamNotSupported)
      else case pl_unpack L req of
        None \<Rightarrow> ret Rsp_ReqDataLenInvalid
      | Some (block, complete, dataBytes, req') \<Rightarrow>
          (if \<not> pl_fullyUnpacked L req' then ret Rsp_ReqDataLenInvalid
           else
             let numDataBytes = pl_size L req' - 4 in
             if unat numDataBytes > IpmiHostnameLen \<or> (complete = 0 \<and> unat numDataBytes < IpmiHostnameLen)
             then ret Rsp_ReqDataLenInvalid
             else if \<not> (0 < block \<and> block < 5) \<or> (complete \<noteq> 0 \<and> complete \<noteq> 1)
             then ret Rsp_InvalidFieldRequest
             else thenE (if block = 1
                 then modify (\<lambda>s. s\<lparr>blockData := replicate lanOemHostnameLength 0\<rparr>) else ret ())
               (bindE (bindE (gets blockData) (\<lambda>d.
                    lift_sum (copyInto dataBytes ((unat block - 1) * IpmiHostnameLen) d)))
                  (\<lambda>d. thenE (modify (\<lambda>s. s\<lparr>blockData := d\<rparr>))
                    (if complete \<noteq> 0 then storeHostname L else ret (Rsp_Success ()))))))"

definition getLanOem :: "('p, 'b) ipmi_lib \<Rightarrow> u8 \<Rightarrow> u8 \<Rightarrow> u8 \<Rightarrow> ('b lan_state, u8 list RspType) exm" where
  "getLanOem L parameter pset block =
     (if parameter \<noteq> intelHostnameConfig then ret (Rsp_Cc ccParamNotSupported)
      else if pset \<noteq> 0 then ret Rsp_InvalidFieldRequest
      else if block < 1 \<or> 4 < block then ret Rsp_InvalidFieldRequest
      else (\<lambda>s. case getHostName L (bus s) of
          (Inl e, b) \<Rightarrow> (Inl e, s\<lparr>bus := b\<rparr>)
        | (Inr hostname, b) \<Rightarrow>
            (let hd = (unat block - 1) * IpmiHostnameLen;
                 buf = (if hd < length hostname
                        then let n = min IpmiHostnameLen (length hostname - hd) in
                             take n (drop hd hostname) @ replicate (IpmiHostnameLen - n) 0
                        else replicate IpmiHostnameLen 0)
             in (Inr (Rsp_Success (CurrentRevision # buf)), s\<lparr>bus := b\<rparr>))))"

section \<open>What the code relies on\<close>

text \<open>
  The payload of the request still counts the channel, the parameter, the block and the completion
  byte when the data bytes have been taken out of it.
\<close>

definition payload_ok :: "('p, 'b) ipmi_lib \<Rightarrow> bool" where
  "payload_ok L \<longleftrightarrow> (\<forall>p block complete ds p'. pl_unpack L p = Some (block, complete, ds, p') \<longrightarrow>
     pl_fullyUnpacked L p' \<longrightarrow> length ds < 2 ^ 31 \<and> unat (pl_size L p') = 4 + length ds)"

text \<open>
  The network service keeps the hostname as a D-Bus string, which ends at the first NUL, and answers
  reads with it.
\<close>

definition hostname_service :: "('p, 'b) ipmi_lib \<Rightarrow> bool" where
  "hostname_service L \<longleftrightarrow> (\<forall>n b. \<exists>b'. setHostName L n b = (Inr (), b') \<and>
     getHostName L b' = (Inr (takeWhile (\<lambda>c. c \<noteq> 0) n), b'))"

text \<open>A payload as the list of its bytes, over a service that stores the name.\<close>

definition demo_ipmi :: "(u8 list, u8 list) ipmi_lib" where
  "demo_ipmi = \<lparr>
     pl_unpack = (\<lambda>p. case drop 2 p of b # c # ds \<Rightarrow> (if length ds < 2 ^ 31 then Some (b, c, ds, p) else None)
        | _ \<Rightarrow> None),
     pl_fullyUnpacked = (\<lambda>p. True),
     pl_size = (\<lambda>p. of_nat (length p)),
     setHostName = (\<lambda>n b. (Inr (), takeWhile (\<lambda>c. c \<noteq> 0) n)),
     getHostName = (\<lambda>b. (Inr b, b))\<rparr>"

lemma demo_payload_ok: "payload_ok demo_ipmi"
proof -
  have "unat (of_nat (length p) :: size_t) = length p"
    if "drop 2 p = b # c # ds" "length ds < 2147483648" for p :: "u8 list" and b c ds
  proof -
    have "length (drop 2 p) = Suc (Suc (length ds))" using that(1) by simp
    then have "length p < 2 ^ 32" using that(2) by simp
    then show ?thesis by (simp add: unat_of_nat take_bit_nat_eq_self)
  qed
  moreover have "length p = 4 + length ds" if "drop 2 p = b # c # ds" for p :: "u8 list" and b c ds
    using arg_cong [OF that, of length] by simp
  ultimately show ?thesis
    by (auto simp: payload_ok_def demo_ipmi_def split: list.splits if_splits)
qed

lemma demo_hostname_service: "hostname_service demo_ipmi"
  by (simp add: hostname_service_def demo_ipmi_def)

section \<open>One accepted block\<close>

definition lan_wf :: "'b lan_state \<Rightarrow> bool" where
  "lan_wf s \<longleftrightarrow> length (blockData s) = lanOemHostnameLength"

text \<open>The guards of the set handler.\<close>

definition block_fits :: "u8 \<Rightarrow> u8 list \<Rightarrow> bool" where
  "block_fits complete ds \<longleftrightarrow> length ds \<le> 16 \<and> (complete = 0 \<longrightarrow> length ds = 16)"

definition block_valid :: "u8 \<Rightarrow> u8 \<Rightarrow> bool" where
  "block_valid block complete \<longleftrightarrow> block \<in> {1, 2, 3, 4} \<and> complete \<in> {0, 1}"

text \<open>The buffer after the bytes of a block have been copied.\<close>

definition assembled :: "u8 \<Rightarrow> u8 list \<Rightarrow> u8 list \<Rightarrow> u8 list" where
  "assembled block ds d = (let pos = (unat block - 1) * 16;
     d0 = (if block = 1 then replicate 64 0 else d) in take pos d0 @ ds @ drop (pos + length ds) d0)"

lemma block_cases: "0 < block \<and> block < 5 \<longleftrightarrow> block \<in> {1, 2, 3, 4 :: u8}"
proof
  assume "0 < block \<and> block < 5"
  then have "unat block \<in> {1, 2, 3, 4}"
    by (auto simp: word_less_nat_alt)
  then show "block \<in> {1, 2, 3, 4}"
    by (auto simp: word_unat_eq_iff)
qed auto

lemma block_unat: "block \<in> {1, 2, 3, 4 :: u8} \<Longrightarrow> 1 \<le> unat block \<and> unat block \<le> 4"
  by auto

lemma length_assembled:
  assumes "block \<in> {1, 2, 3, 4}" and "length d = 64" and "length ds \<le> 16"
  shows "length (assembled block ds d) = 64"
  using block_unat [OF assms(1)] assms(2,3) by (auto simp: assembled_def Let_def min_def)

lemma setLanOem_unpacked:
  assumes L: "payload_ok L" and u: "pl_unpack L req = Some (block, complete, ds, req')"
    and f: "pl_fullyUnpacked L req'" and wf: "lan_wf s"
  shows "setLanOem L intelHostnameConfig req s =
    (if \<not> block_fits complete ds then (Inr Rsp_ReqDataLenInvalid, s)
     else if \<not> block_valid block complete then (Inr Rsp_InvalidFieldRequest, s)
     else if complete = 0 then (Inr (Rsp_Success ()), s\<lparr>blockData := assembled block ds (blockData s)\<rparr>)
     else storeHostname L (s\<lparr>blockData := assembled block ds (blockData s)\<rparr>))"
proof -
  have sz: "length ds < 2 ^ 31" "unat (pl_size L req') = 4 + length ds"
    using L u f by (auto simp: payload_ok_def)
  then have "unat (pl_size L req' - 4) = length ds"
    by (subst unat_sub) (simp_all add: word_le_nat_alt)
  then have fits: "unat (pl_size L req' - 4) > IpmiHostnameLen \<or>
      (complete = 0 \<and> unat (pl_size L req' - 4) < IpmiHostnameLen) \<longleftrightarrow> \<not> block_fits complete ds"
    by (auto simp: block_fits_def IpmiHostnameLen_def)
  have valid: "(\<not> (0 < block \<and> block < 5) \<or> (complete \<noteq> 0 \<and> complete \<noteq> 1)) \<longleftrightarrow> \<not> block_valid block complete"
    unfolding block_cases by (simp add: block_valid_def)
  have cp: "copyInto ds ((unat block - 1) * IpmiHostnameLen) (if block = 1 then replicate lanOemHostnameLength 0
      else blockData s) = Inr (assembled block ds (blockData s))"
    if "block_fits complete ds" "block_valid block complete"
  proof -
    have "1 \<le> unat block \<and> unat block \<le> 4" using that(2) block_unat by (simp add: block_valid_def)
    moreover have "length ds \<le> 16" using that(1) by (simp add: block_fits_def)
    ultimately show ?thesis using wf
      by (auto simp: copyInto_def assembled_def Let_def lan_wf_def lanOemHostnameLength_def IpmiHostnameLen_def)
  qed
  have run: "setLanOem L intelHostnameConfig req s =
      (if \<not> block_fits complete ds then ret Rsp_ReqDataLenInvalid
       else if \<not> block_valid block complete then ret Rsp_InvalidFieldRequest
       else thenE (if block = 1 then modify (\<lambda>s. s\<lparr>blockData := replicate lanOemHostnameLength 0\<rparr>) else ret ())
         (bindE (bindE (gets blockData) (\<lambda>d. lift_sum (copyInto ds ((unat block - 1) * IpmiHostnameLen) d)))
            (\<lambda>d. thenE (modify (\<lambda>s. s\<lparr>blockData := d\<rparr>))
               (if complete \<noteq> 0 then storeHostname L else ret (Rsp_Success ()))))) s"
    by (simp only: setLanOem_def u f Let_def option.case prod.case fits valid not_True_eq_False if_False
        simp_thms if_True)
  show ?thesis
    unfolding run using cp by (cases "block = 1") (simp_all add: bindE_apply thenE_apply)
qed

lemma storeHostname_cases:
  "storeHostname L s = (x, s') \<Longrightarrow> blockData s' = (blockData s)[63 := 0] \<and>
     (\<forall>e. x = Inl e \<longrightarrow> fst (setHostName L ((blockData s)[63 := 0]) (bus s)) = Inl e) \<and>
     (x = Inr (Rsp_Cc ccUnprintable) \<longrightarrow> bus s' = bus s)"
  by (auto simp: storeHostname_def bindE_apply thenE_apply lanOemHostnameLength_def Let_def
      split: if_splits prod.splits sum.splits)

section \<open>Sending a whole name\<close>

definition pad64 :: "u8 list \<Rightarrow> u8 list" where
  "pad64 xs = xs @ replicate (64 - length xs) 0"

definition chunk :: "nat \<Rightarrow> u8 list \<Rightarrow> u8 list" where
  "chunk k xs = take 16 (drop (16 * k) xs)"

definition blocks :: "u8 list \<Rightarrow> nat" where
  "blocks name = (if name = [] then 1 else (length name + 15) div 16)"

text \<open>The requests a client sends for a name: its chunks in order, the last one marked complete.\<close>

definition name_requests :: "('p, 'b) ipmi_lib \<Rightarrow> u8 list \<Rightarrow> 'p list \<Rightarrow> bool" where
  "name_requests L name ps \<longleftrightarrow> length ps = blocks name \<and> (\<forall>k < length ps. \<exists>p'.
     pl_unpack L (ps ! k) = Some (of_nat (Suc k), if Suc k = length ps then 1 else 0, chunk k name, p') \<and>
     pl_fullyUnpacked L p')"

primrec send_all :: "('p, 'b) ipmi_lib \<Rightarrow> 'p list \<Rightarrow> ('b lan_state, unit RspType list) exm" where
  "send_all L [] = ret []"
| "send_all L (p # ps) = bindE (setLanOem L intelHostnameConfig p) (\<lambda>r.
     bindE (send_all L ps) (\<lambda>rs. ret (r # rs)))"

lemma length_pad64: "length xs \<le> 64 \<Longrightarrow> length (pad64 xs) = 64"
  by (simp add: pad64_def)

lemma blocks_bounds:
  assumes "length name \<le> 64"
  shows "1 \<le> blocks name" "blocks name \<le> 4" "length name \<le> 16 * blocks name"
    "Suc k < blocks name \<Longrightarrow> 16 * Suc k < length name"
  using assms by (cases name; auto simp: blocks_def split: if_splits)+

lemma block_number: "k < 4 \<Longrightarrow> unat (of_nat (Suc k) :: u8) = Suc k"
  by (simp add: unat_of_nat take_bit_nat_eq_self del: of_nat_Suc)

lemma block_number_1: "k < 4 \<Longrightarrow> (of_nat (Suc k) :: u8) = 1 \<longleftrightarrow> k = 0"
  using block_number [of k] block_number [of 0] by (auto simp: word_unat_eq_iff simp del: of_nat_Suc)

lemma take_chunk: "take (16 * k) xs @ chunk k xs = take (16 * Suc k) xs"
  by (simp add: chunk_def take_add [symmetric] add.commute)

lemma assembled_chunk:
  assumes "k < 4" and "length name \<le> 64" and "16 * k \<le> length name" and "k \<noteq> 0 \<longrightarrow> d = pad64 (take (16 * k) name)"
  shows "assembled (of_nat (Suc k)) (chunk k name) d = pad64 (take (16 * Suc k) name)"
proof -
  define d0 where "d0 = pad64 (take (16 * k) name)"
  have "(if (of_nat (Suc k) :: u8) = 1 then replicate 64 0 else d) = d0"
    using assms(4) block_number_1 [OF assms(1)] by (auto simp: d0_def pad64_def)
  then have "assembled (of_nat (Suc k)) (chunk k name) d =
      take (16 * k) d0 @ chunk k name @ drop (16 * k + length (chunk k name)) d0"
    unfolding assembled_def Let_def block_number [OF assms(1)] by (simp add: mult.commute)
  also have "take (16 * k) d0 = take (16 * k) name"
    using assms(3) by (simp add: d0_def pad64_def)
  also have "drop (16 * k + length (chunk k name)) d0 = replicate (64 - length (take (16 * Suc k) name)) 0"
    using assms(1-3) by (auto simp: d0_def pad64_def chunk_def min_def)
  also have "take (16 * k) name @ chunk k name @ replicate (64 - length (take (16 * Suc k) name)) 0 =
      pad64 (take (16 * Suc k) name)"
    unfolding pad64_def take_chunk [symmetric] by simp
  finally show ?thesis .
qed

lemma find_first_split:
  "\<forall>x \<in> set xs. \<not> p x \<Longrightarrow> p y \<Longrightarrow> find_first p (xs @ y # ys) = Some (length xs)"
  by (induction xs) auto

lemma takeWhile_cong_find_first:
  assumes "find_first (\<lambda>x. \<not> p x) xs = find_first (\<lambda>x. \<not> q x) xs"
  shows "takeWhile p xs = takeWhile q xs"
proof -
  have "length (takeWhile p xs) = length (takeWhile q xs)"
    using assms length_takeWhile_le [of p xs] length_takeWhile_le [of q xs]
    by (auto simp: find_first_eq Let_def split: if_splits)
  then show ?thesis by (metis takeWhile_eq_take)
qed

lemma chunk_pad64:
  assumes "k < 4" and "length xs \<le> 64"
  shows "chunk k (pad64 xs) = take 16 (drop (16 * k) xs) @ replicate (16 - length (take 16 (drop (16 * k) xs))) 0"
proof -
  have "min (16 - (length xs - 16 * k)) (64 - length xs - (16 * k - length xs)) = 16 - min (length xs - 16 * k) 16"
  proof -
    have "k = 0 \<or> k = 1 \<or> k = 2 \<or> k = 3" using assms(1) by auto
    with assms(2) show ?thesis by (elim disjE; simp add: min_def; arith?)
  qed
  then show ?thesis by (simp add: chunk_def pad64_def)
qed

lemma valid_not_nul: "validHostnameChar b \<Longrightarrow> b \<noteq> 0"
  by (auto simp: validHostnameChar_def validHostnameChars_def char_code_def)

lemma pad64_last: "length xs \<le> 64 \<Longrightarrow> \<exists>z. (pad64 xs)[63 := 0] = take 63 xs @ 0 # replicate z 0"
proof (cases "length xs = 64")
  case True
  then show ?thesis by (auto simp: pad64_def list_eq_iff_nth_eq nth_append nth_list_update intro!: exI [of _ 0])
next
  case False
  assume "length xs \<le> 64"
  with False have "length xs \<le> 63" by simp
  then have "(pad64 xs)[63 := 0] = take 63 xs @ 0 # replicate (63 - length xs) 0"
    by (auto simp: pad64_def list_eq_iff_nth_eq nth_append nth_list_update nth_Cons')
  then show ?thesis by blast
qed

lemma storeHostname_valid:
  assumes "hostname_service L" and "\<forall>b \<in> set name. validHostnameChar b" and "length name \<le> 64"
    and "blockData s = pad64 name"
  shows "\<exists>b' d. storeHostname L s = (Inr (Rsp_Success ()), \<lparr>blockData = d, bus = b'\<rparr>) \<and>
     getHostName L b' = (Inr (take 63 name), b')"
proof -
  obtain z where z: "(pad64 name)[63 := 0] = take 63 name @ 0 # replicate z 0"
    using pad64_last [OF assms(3)] by blast
  have v: "\<forall>b \<in> set (take 63 name). validHostnameChar b \<and> b \<noteq> 0"
    using assms(2) valid_not_nul by (auto dest: in_set_takeD)
  have n0: "\<not> validHostnameChar 0" using valid_not_nul by blast
  have "find_first (\<lambda>b. b = 0) ((pad64 name)[63 := 0]) = Some (length (take 63 name))"
    unfolding z using v by (intro find_first_split) auto
  moreover have "find_first (\<lambda>b. \<not> validHostnameChar b) ((pad64 name)[63 := 0]) = Some (length (take 63 name))"
    unfolding z using v n0 by (intro find_first_split) auto
  moreover have "takeWhile (\<lambda>c. c \<noteq> 0) ((pad64 name)[63 := 0]) = take 63 name"
    unfolding z using v by (simp add: takeWhile_append)
  moreover obtain b' where "setHostName L ((pad64 name)[63 := 0]) (bus s) = (Inr (), b')"
    "getHostName L b' = (Inr (takeWhile (\<lambda>c. c \<noteq> 0) ((pad64 name)[63 := 0])), b')"
    using assms(1) unfolding hostname_service_def by blast
  ultimately show ?thesis
    by (cases s) (use assms(4) in \<open>simp add: storeHostname_def bindE_apply thenE_apply lanOemHostnameLength_def Let_def\<close>)
qed

lemma send_from:
  assumes L: "payload_ok L" "hostname_service L" and v: "\<forall>b \<in> set name. validHostnameChar b"
    and n: "length name \<le> 64" and r: "name_requests L name ps"
  shows "k < length ps \<Longrightarrow> lan_wf s \<Longrightarrow> k \<noteq> 0 \<longrightarrow> blockData s = pad64 (take (16 * k) name) \<Longrightarrow>
    \<exists>b' d. send_all L (drop k ps) s = (Inr (replicate (length ps - k) (Rsp_Success ())), \<lparr>blockData = d, bus = b'\<rparr>) \<and>
      getHostName L b' = (Inr (take 63 name), b')"
proof (induction "length ps - k" arbitrary: k s)
  case 0
  then show ?case by simp
next
  case (Suc m)
  have len: "length ps = blocks name" using r by (simp add: name_requests_def)
  have k4: "k < 4" using Suc.prems(1) len blocks_bounds(2) [OF n] by simp
  have k16: "16 * k \<le> length name"
    using Suc.prems(1) len blocks_bounds(4) [OF n, of "k - 1"] by (cases k) auto
  obtain p' where u: "pl_unpack L (ps ! k) = Some (of_nat (Suc k), if Suc k = length ps then 1 else 0, chunk k name, p')"
    and f: "pl_fullyUnpacked L p'"
    using r Suc.prems(1) by (auto simp: name_requests_def)
  have asm: "assembled (of_nat (Suc k)) (chunk k name) (blockData s) = pad64 (take (16 * Suc k) name)"
    using assembled_chunk [OF k4 n k16 Suc.prems(3)] .
  have bv: "block_valid (of_nat (Suc k)) (if Suc k = length ps then 1 else 0)"
    using k4 by (auto simp: block_valid_def less_Suc_eq numeral_eq_Suc)
  have bf: "block_fits (if Suc k = length ps then 1 else 0) (chunk k name)"
    using blocks_bounds(4) [OF n, of k] Suc.prems(1) len by (auto simp: block_fits_def chunk_def)
  note run = setLanOem_unpacked [OF L(1) u f Suc.prems(2)]
  have drop: "drop k ps = ps ! k # drop (Suc k) ps" using Suc.prems(1) by (simp add: Cons_nth_drop_Suc)
  show ?case
  proof (cases "Suc k = length ps")
    case True
    then have "length name \<le> 16 * Suc k" using blocks_bounds(3) [OF n] len by simp
    then have "blockData (s\<lparr>blockData := assembled (of_nat (Suc k)) (chunk k name) (blockData s)\<rparr>) = pad64 name"
      unfolding asm by simp
    from storeHostname_valid [OF L(2) v n this] obtain b' d where
      "storeHostname L (s\<lparr>blockData := assembled (of_nat (Suc k)) (chunk k name) (blockData s)\<rparr>) =
         (Inr (Rsp_Success ()), \<lparr>blockData = d, bus = b'\<rparr>)" "getHostName L b' = (Inr (take 63 name), b')"
      by blast
    moreover have "length ps - k = 1" using True by simp
    ultimately show ?thesis
      using run bv bf True unfolding drop by (simp add: bindE_apply)
  next
    case False
    define s1 where "s1 = s\<lparr>blockData := pad64 (take (16 * Suc k) name)\<rparr>"
    have one: "setLanOem L intelHostnameConfig (ps ! k) s = (Inr (Rsp_Success ()), s1)"
      using run bv bf False by (simp add: asm s1_def del: of_nat_Suc)
    have "lan_wf s1" using n by (simp add: lan_wf_def s1_def length_pad64 lanOemHostnameLength_def)
    moreover have "m = length ps - Suc k" "Suc k < length ps" using Suc.hyps(2) Suc.prems(1) False by simp_all
    moreover have "Suc k \<noteq> 0 \<longrightarrow> blockData s1 = pad64 (take (16 * Suc k) name)" by (simp add: s1_def)
    ultimately obtain b' d where rest: "send_all L (drop (Suc k) ps) s1 =
        (Inr (replicate (length ps - Suc k) (Rsp_Success ())), \<lparr>blockData = d, bus = b'\<rparr>)"
      and g: "getHostName L b' = (Inr (take 63 name), b')"
      using Suc.hyps(1) [of "Suc k" s1] by blast
    have "length ps - k = Suc (length ps - Suc k)" using Suc.prems(1) by simp
    then show ?thesis using one rest g unfolding drop by (simp add: bindE_apply)
  qed
qed

section \<open>Properties\<close>

text \<open>C7: The set handler never leaves its buffer: whatever the request and whatever the buffer holds,
  the buffer keeps its 64 bytes, the copy stays inside it, and the only exception that can come out is
  the one the network service throws.\<close>

theorem setLanOem_safe:
  assumes "payload_ok L" and "lan_wf s" and "setLanOem L parameter req s = (x, s')"
  shows "lan_wf s' \<and> (\<forall>e. x = Inl e \<longrightarrow> (\<exists>n. fst (setHostName L n (bus s)) = Inl e))"
proof (cases "parameter = intelHostnameConfig \<and>
    (\<exists>b c ds p'. pl_unpack L req = Some (b, c, ds, p') \<and> pl_fullyUnpacked L p')")
  case True
  then obtain b c ds p' where u: "pl_unpack L req = Some (b, c, ds, p')" and f: "pl_fullyUnpacked L p'" by blast
  have len: "length (assembled b ds (blockData s)) = 64" if "block_fits c ds" "block_valid b c"
    using that assms(2) by (intro length_assembled)
      (auto simp: block_fits_def block_valid_def lan_wf_def lanOemHostnameLength_def)
  show ?thesis
    using setLanOem_unpacked [OF assms(1) u f assms(2)] assms(2,3) True len
    by (auto simp: lan_wf_def lanOemHostnameLength_def split: if_splits dest!: storeHostname_cases)
next
  case False
  then show ?thesis using assms(2,3)
    by (auto simp: setLanOem_def split: option.splits prod.splits if_splits)
qed

theorem setLanOem_safe_witness:
  "\<exists>x s'. setLanOem demo_ipmi 0xc7 [1, 0xc7, 4, 1, 0x61] (lan_init []) = (x, s') \<and> lan_wf s'"
proof -
  have "lan_wf (lan_init [])" by (simp add: lan_wf_def lan_init_def)
  from setLanOem_safe [OF demo_payload_ok this, of "0xc7" "[1, 0xc7, 4, 1, 0x61]"] show ?thesis
    by (metis surj_pair)
qed

text \<open>C6: The network service is only given well-formed hostnames: when the set handler changes the
  bus state, the request was a last block, the answer is not an error code, and what was stored are the
  64 bytes of the buffer, of which the last is NUL and all before the first NUL are letters, digits or
  hyphens.  Every rejected request leaves the bus as it was.\<close>

theorem setLanOem_stores_valid_names:
  assumes "payload_ok L" and "lan_wf s" and "setLanOem L parameter req s = (x, s')" and "bus s' \<noteq> bus s"
  shows "(x = Inr (Rsp_Success ()) \<or> (\<exists>e. x = Inl e)) \<and>
    (\<exists>block ds p'. pl_unpack L req = Some (block, 1, ds, p')) \<and>
    length (blockData s') = 64 \<and> blockData s' ! 63 = 0 \<and>
    (\<forall>b \<in> set (takeWhile (\<lambda>c. c \<noteq> 0) (blockData s')). validHostnameChar b) \<and>
    bus s' = snd (setHostName L (blockData s') (bus s))"
proof -
  from assms(3,4) obtain b c ds p' where p: "parameter = intelHostnameConfig"
    and u: "pl_unpack L req = Some (b, c, ds, p')" and f: "pl_fullyUnpacked L p'"
    by (auto simp: setLanOem_def split: if_splits option.splits prod.splits)
  define t where "t = s\<lparr>blockData := assembled b ds (blockData s)\<rparr>"
  from setLanOem_unpacked [OF assms(1) u f assms(2)] assms(3,4) p
  have ok: "block_fits c ds" "block_valid b c" "c \<noteq> 0" and st: "storeHostname L t = (x, s')"
    by (auto simp: t_def split: if_splits)
  have len: "length (blockData t) = 64"
    using ok assms(2) unfolding t_def
    by (simp, intro length_assembled) (auto simp: block_fits_def block_valid_def lan_wf_def lanOemHostnameLength_def)
  have bd: "blockData s' = (blockData t)[63 := 0]" using storeHostname_cases [OF st] by simp
  have same: "find_first (\<lambda>b. \<not> validHostnameChar b) (blockData s') = find_first (\<lambda>b. b = 0) (blockData s')"
    and res: "(x = Inr (Rsp_Success ()) \<or> (\<exists>e. x = Inl e)) \<and> bus s' = snd (setHostName L (blockData s') (bus t))"
    using st assms(4) unfolding bd
    by (auto simp: storeHostname_def t_def bindE_apply thenE_apply lanOemHostnameLength_def Let_def
        split: if_splits prod.splits sum.splits)
  have "takeWhile (\<lambda>c. c \<noteq> 0) (blockData s') = takeWhile validHostnameChar (blockData s')"
    using same by (intro takeWhile_cong_find_first [symmetric]) simp
  then have "\<forall>b \<in> set (takeWhile (\<lambda>c. c \<noteq> 0) (blockData s')). validHostnameChar b"
    by (auto dest: set_takeWhileD)
  moreover have "c = 1" using ok by (simp add: block_valid_def)
  moreover have "bus t = bus s" by (simp add: t_def)
  ultimately show ?thesis using u res len bd by simp
qed

lemma demo_unpack:
  "pl_unpack demo_ipmi [1, 0xc7, 1, 1, 0x61, 0x62] = Some (1, 1, [0x61, 0x62], [1, 0xc7, 1, 1, 0x61, 0x62])"
  "pl_fullyUnpacked demo_ipmi p"
  by (simp_all add: demo_ipmi_def)

lemma demo_name: "\<forall>b \<in> set [0x61, 0x62]. validHostnameChar b"
  by (simp add: validHostnameChar_def validHostnameChars_def char_code_def)

lemma demo_lan_run:
  "\<exists>s'. setLanOem demo_ipmi intelHostnameConfig [1, 0xc7, 1, 1, 0x61, 0x62] (lan_init []) = (Inr (Rsp_Success ()), s') \<and>
     bus s' = [0x61, 0x62]"
proof -
  have wf: "lan_wf (lan_init [])" by (simp add: lan_wf_def lan_init_def)
  define t where "t = (lan_init ([] :: u8 list))\<lparr>blockData := assembled 1 [0x61, 0x62] (blockData (lan_init ([] :: u8 list)))\<rparr>"
  have "blockData t = pad64 [0x61, 0x62]"
    by (simp add: t_def assembled_def pad64_def)
  from storeHostname_valid [OF demo_hostname_service demo_name _ this] obtain b' d where
    st: "storeHostname demo_ipmi t = (Inr (Rsp_Success ()), \<lparr>blockData = d, bus = b'\<rparr>)"
    and g: "getHostName demo_ipmi b' = (Inr (take 63 [0x61, 0x62]), b')" by auto
  have "b' = [0x61, 0x62]" using g by (simp add: demo_ipmi_def)
  with st setLanOem_unpacked [OF demo_payload_ok demo_unpack wf] show ?thesis
    by (simp add: block_fits_def block_valid_def t_def)
qed

theorem setLanOem_stores_valid_names_witness:
  "\<exists>s'. setLanOem demo_ipmi intelHostnameConfig [1, 0xc7, 1, 1, 0x61, 0x62] (lan_init []) = (Inr (Rsp_Success ()), s') \<and>
     blockData s' ! 63 = 0 \<and> (\<forall>b \<in> set (takeWhile (\<lambda>c. c \<noteq> 0) (blockData s')). validHostnameChar b)"
proof -
  have wf: "lan_wf (lan_init [])" by (simp add: lan_wf_def lan_init_def)
  obtain s' where run: "setLanOem demo_ipmi intelHostnameConfig [1, 0xc7, 1, 1, 0x61, 0x62] (lan_init []) =
      (Inr (Rsp_Success ()), s')" and "bus s' = [0x61, 0x62]"
    using demo_lan_run by blast
  then have "bus s' \<noteq> bus (lan_init [])" by (simp add: lan_init_def)
  from setLanOem_stores_valid_names [OF demo_payload_ok wf run this] run show ?thesis by blast
qed

text \<open>C5: Round trip of the hostname: when a client sends any name of at most 64 hostname characters in
  its blocks, every block is answered with success whatever an earlier, unfinished transfer left in the
  buffer, and reading the four blocks back gives the revision byte and the sixteen bytes of the name at
  that place, padded with zeros.  Of a name of 64 characters the last one is lost.\<close>

theorem hostname_roundtrip:
  assumes "payload_ok L" and "hostname_service L" and "lan_wf s" and "name_requests L name ps"
    and "length name \<le> 64" and "\<forall>b \<in> set name. validHostnameChar b"
  shows "\<exists>s'. send_all L ps s = (Inr (replicate (length ps) (Rsp_Success ())), s') \<and>
    (\<forall>k < 4. getLanOem L intelHostnameConfig 0 (of_nat (Suc k)) s' =
       (Inr (Rsp_Success (CurrentRevision # chunk k (pad64 (take 63 name)))), s'))"
proof -
  have pos: "0 < length ps" using assms(4) blocks_bounds(1) [OF assms(5)] by (simp add: name_requests_def)
  obtain b' d where send: "send_all L ps s = (Inr (replicate (length ps) (Rsp_Success ())), \<lparr>blockData = d, bus = b'\<rparr>)"
    and g: "getHostName L b' = (Inr (take 63 name), b')"
    using send_from [OF assms(1,2,6,5,4) pos assms(3)] by auto
  have "getLanOem L intelHostnameConfig 0 (of_nat (Suc k)) \<lparr>blockData = d, bus = b'\<rparr> =
      (Inr (Rsp_Success (CurrentRevision # chunk k (pad64 (take 63 name)))), \<lparr>blockData = d, bus = b'\<rparr>)"
    if k: "k < 4" for k
  proof -
    have "\<not> ((of_nat (Suc k) :: u8) < 1 \<or> 4 < (of_nat (Suc k) :: u8))"
      using k block_number [OF k] by (simp add: word_less_nat_alt del: of_nat_Suc)
    moreover have "(if k * 16 < length (take 63 name)
        then let n = min 16 (length (take 63 name) - k * 16) in
             take n (drop (k * 16) (take 63 name)) @ replicate (16 - n) 0
        else replicate 16 0) = chunk k (pad64 (take 63 name))"
      using k by (subst chunk_pad64) (auto simp: Let_def mult.commute min_def)
    ultimately show ?thesis
      unfolding getLanOem_def block_number [OF k] IpmiHostnameLen_def by (simp add: g Let_def)
  qed
  with send show ?thesis by blast
qed

lemma demo_requests: "name_requests demo_ipmi [0x61, 0x62] [[1, 0xc7, 1, 1, 0x61, 0x62]]"
  using demo_unpack by (simp add: name_requests_def blocks_def chunk_def)

theorem hostname_roundtrip_witness:
  "\<exists>s'. send_all demo_ipmi [[1, 0xc7, 1, 1, 0x61, 0x62]] (lan_init []) = (Inr [Rsp_Success ()], s') \<and>
    getLanOem demo_ipmi intelHostnameConfig 0 1 s' =
       (Inr (Rsp_Success (CurrentRevision # [0x61, 0x62] @ replicate 14 0)), s')"
proof -
  have wf: "lan_wf (lan_init [])" by (simp add: lan_wf_def lan_init_def)
  have len: "length [0x61, 0x62 :: u8] \<le> 64" by simp
  from hostname_roundtrip [OF demo_payload_ok demo_hostname_service wf demo_requests len demo_name] obtain s' where
    s': "send_all demo_ipmi [[1, 0xc7, 1, 1, 0x61, 0x62]] (lan_init []) = (Inr (replicate (length [[1, 0xc7, 1, 1, 0x61, 0x62 :: u8]]) (Rsp_Success ())), s')"
    "\<forall>k < 4. getLanOem demo_ipmi intelHostnameConfig 0 (of_nat (Suc k)) s' =
       (Inr (Rsp_Success (CurrentRevision # chunk k (pad64 (take 63 [0x61, 0x62])))), s')" by blast
  have "chunk 0 (pad64 (take 63 [0x61, 0x62])) = [0x61, 0x62] @ replicate 14 0"
    by (simp add: chunk_def pad64_def)
  with s'(1) s'(2) [rule_format, of 0] show ?thesis by simp
qed

text \<open>The first block starts afresh: the answer to a first block and the hostname that is stored do
  not depend on what earlier requests left in the buffer.\<close>

theorem first_block_resets:
  assumes "payload_ok L" and "lan_wf s" and "lan_wf t" and "bus s = bus t"
    and "pl_unpack L req = Some (1, complete, ds, req')"
  shows "fst (setLanOem L parameter req s) = fst (setLanOem L parameter req t) \<and>
    bus (snd (setLanOem L parameter req s)) = bus (snd (setLanOem L parameter req t))"
proof (cases "parameter = intelHostnameConfig \<and> pl_fullyUnpacked L req'")
  case True
  have "assembled 1 ds (blockData s) = assembled 1 ds (blockData t)"
    by (simp add: assembled_def)
  then have "s\<lparr>blockData := assembled 1 ds (blockData s)\<rparr> = t\<lparr>blockData := assembled 1 ds (blockData t)\<rparr>"
    using assms(4) by (cases s; cases t) simp
  with True setLanOem_unpacked [OF assms(1,5) _ assms(2)] setLanOem_unpacked [OF assms(1,5) _ assms(3)] assms(4)
  show ?thesis by simp
next
  case False
  with assms(4,5) show ?thesis by (auto simp: setLanOem_def)
qed

theorem first_block_resets_witness:
  "fst (setLanOem demo_ipmi intelHostnameConfig [1, 0xc7, 1, 1, 0x61, 0x62] (lan_init [])) =
   fst (setLanOem demo_ipmi intelHostnameConfig [1, 0xc7, 1, 1, 0x61, 0x62] \<lparr>blockData = replicate 64 0x2d, bus = []\<rparr>)"
proof -
  have "lan_wf (lan_init [])" "lan_wf \<lparr>blockData = replicate 64 0x2d, bus = []\<rparr>"
    "bus (lan_init []) = bus \<lparr>blockData = replicate 64 0x2d, bus = []\<rparr>"
    by (simp_all add: lan_wf_def lan_init_def lanOemHostnameLength_def)
  from first_block_resets [OF demo_payload_ok this demo_unpack(1)] show ?thesis by blast
qed

end
