(* ===== verification/Redfish_Core.thy ===== *)
theory Redfish_Core
  imports Prelude
begin

unbundle bit_operations_syntax

text \<open>
  What the Redfish handlers of \<open>node-manager/*.hpp\<close> work on: JSON values and the response that is
  built in them, D-Bus values, the calls in flight with the continuation each reply is handed to, and
  the library functions the handlers call.

  \<open>nlohmann::json\<close> is modelled as far as the handlers use it.  The rest of \<open>bmcweb\<close> (request
  parsing, registered messages, durations) and \<open>std::regex\<close> are a parameter, a record of functions.
\<close>

section \<open>JSON\<close>

text \<open>Doubles are kept as their bits: the handlers only move them around.\<close>

type_synonym dbl = "64 word"

definition quiet_NaN :: dbl where "quiet_NaN = 0x7FF8000000000000"

definition isnan :: "dbl \<Rightarrow> bool" where
  "isnan d \<longleftrightarrow> (d AND 0x7FF0000000000000) = 0x7FF0000000000000 \<and> (d AND 0x000FFFFFFFFFFFFF) \<noteq> 0"

datatype json =
    J_null
  | J_bool bool
  | J_int int
  | J_double dbl
  | J_string string
  | J_array "json list"
  | J_object "(string \<times> json) list"

definition obj_set :: "string \<Rightarrow> json \<Rightarrow> (string \<times> json) list \<Rightarrow> (string \<times> json) list" where
  "obj_set k v m = (if map_of m k = None then m @ [(k, v)] else map (\<lambda>(k', v'). if k' = k then (k', v) else (k', v')) m)"

text \<open>\<open>operator[]\<close> on a value that is null makes it an object, on an object it finds or adds the
  member, and on anything else it throws.  \<open>json_upd\<close> applies a function at the end of such a path.\<close>

fun json_upd :: "string list \<Rightarrow> (json \<Rightarrow> exn + json) \<Rightarrow> json \<Rightarrow> exn + json" where
  "json_upd [] f j = f j"
| "json_upd (k # ks) f j = (case j of
     J_null \<Rightarrow> sum_bind (json_upd ks f J_null) (\<lambda>v. Inr (J_object [(k, v)]))
   | J_object m \<Rightarrow> sum_bind (json_upd ks f (case map_of m k of Some v \<Rightarrow> v | None \<Rightarrow> J_null))
       (\<lambda>v. Inr (J_object (obj_set k v m)))
   | _ \<Rightarrow> Inl (Json_Error ''type_error.305''))"

definition json_put :: "string list \<Rightarrow> json \<Rightarrow> json \<Rightarrow> exn + json" where
  "json_put p v = json_upd p (\<lambda>_. Inr v)"

text \<open>\<open>operator[]\<close> with an index: null becomes an array, and an array grows to hold the index.\<close>

definition json_at :: "nat \<Rightarrow> (json \<Rightarrow> exn + json) \<Rightarrow> json \<Rightarrow> exn + json" where
  "json_at i f j =
     (let upd = (\<lambda>vs. let ws = vs @ replicate (Suc i - length vs) J_null in
            sum_bind (f (ws ! i)) (\<lambda>v. Inr (J_array (ws[i := v])))) in
      case j of J_null \<Rightarrow> upd [] | J_array vs \<Rightarrow> upd vs | _ \<Rightarrow> Inl (Json_Error ''type_error.305''))"

definition json_erase :: "string \<Rightarrow> json \<Rightarrow> json" where
  "json_erase k j = (case j of J_object m \<Rightarrow> J_object (filter (\<lambda>e. fst e \<noteq> k) m) | _ \<Rightarrow> j)"

definition json_empty :: "json \<Rightarrow> bool" where
  "json_empty j = (case j of J_null \<Rightarrow> True | J_array vs \<Rightarrow> vs = [] | J_object m \<Rightarrow> m = [] | _ \<Rightarrow> False)"

definition json_append :: "json \<Rightarrow> json \<Rightarrow> exn + json" where
  "json_append v j = (case j of
     J_null \<Rightarrow> Inr (J_array [v])
   | J_array vs \<Rightarrow> Inr (J_array (vs @ [v]))
   | _ \<Rightarrow> Inl (Json_Error ''type_error.308''))"

definition json_push :: "string list \<Rightarrow> json \<Rightarrow> json \<Rightarrow> exn + json" where
  "json_push p v = json_upd p (json_append v)"

fun json_get :: "string list \<Rightarrow> json \<Rightarrow> json option" where
  "json_get [] j = Some j"
| "json_get (k # ks) (J_object m) = (case map_of m k of Some v \<Rightarrow> json_get ks v | None \<Rightarrow> None)"
| "json_get (k # ks) j = None"

definition json_contains :: "string \<Rightarrow> json \<Rightarrow> bool" where
  "json_contains k j \<longleftrightarrow> (case j of J_object m \<Rightarrow> map_of m k \<noteq> None | _ \<Rightarrow> False)"

definition json_size :: "json \<Rightarrow> nat" where
  "json_size j = (case j of J_null \<Rightarrow> 0 | J_array vs \<Rightarrow> length vs | J_object m \<Rightarrow> length m | _ \<Rightarrow> 1)"

section \<open>The response\<close>

text \<open>The registered messages the handlers add to a response.\<close>

datatype message =
    M_internalError
  | M_propertyMissing string
  | M_propertyValueIncorrect string string
  | M_resourceNotFound string string
  | M_queryNotSupportedOnResource
  | M_operationFailed
  | M_resourceCreationConflict string
  | M_resourceCannotBeDeleted
  | M_operationNotAllowed
  | M_malformedJSON
  | M_actionParameterMissing string string
  | M_actionParameterValueFormatError string string string
  | M_serviceInUnknownState
  | M_created

text \<open>\<open>r_body\<close> is what \<open>res.write\<close> has put into the body directly.\<close>

record response =
  r_json :: json
  r_result :: nat
  r_msgs :: "message list"
  r_body :: string
  r_headers :: "(string \<times> string) list"

definition http_ok :: nat where "http_ok = 200"
definition http_no_content :: nat where "http_no_content = 204"
definition http_conflict :: nat where "http_conflict = 409"

definition response_new :: response where
  "response_new = \<lparr>r_json = J_null, r_result = http_ok, r_msgs = [], r_body = [], r_headers = []\<rparr>"

section \<open>D-Bus values\<close>

datatype variant =
    DV_bool bool
  | DV_string string
  | DV_i32 int
  | DV_double dbl
  | DV_u32 u32
  | DV_u16 u16
  | DV_u64 u64
  | DV_u8 u8
  | DV_strings "string list"

type_synonym dbus_props = "(string \<times> variant) list"

text \<open>The body of a reply, or the error code of a failed call.\<close>

datatype dbus_reply =
    R_error int
  | R_void
  | R_props dbus_props
  | R_managed "(string \<times> (string \<times> dbus_props) list) list"
  | R_paths "string list"
  | R_path string
  | R_nested "(string \<times> dbus_props) list"
  | R_variant variant
  | R_services "string list"
  | R_bytes "u8 list"
  | R_optional "string option"

record PolicyParams =
  p_correctionInMs :: u32
  p_limit :: u16
  p_statReportingPeriod :: u16
  p_policyStorage :: int
  p_powerCorrectionType :: int
  p_limitException :: int
  p_suspendPeriods :: "(string \<times> (string list + string)) list list"
  p_thresholds :: "(string \<times> u16 list) list"
  p_componentId :: u8
  p_triggerLimit :: u16
  p_triggerType :: string

datatype dbus_arg =
    A_string string
  | A_int int
  | A_strings "string list"
  | A_variant variant
  | A_params PolicyParams

section \<open>Continuations\<close>

text \<open>
  One constructor for each lambda the sources pass to an asynchronous call, with what it captures.
  The response is shared by all of them and is part of the state.
\<close>

datatype find_callback = FC_addPolicies | FC_removePolicy string | FC_addDomainPolicies

datatype policy_predicate = PR_none | PR_owner | PR_idAndOwner string | PR_domain string

datatype 'q path_handler =
    PH_patchPolicy 'q string
  | PH_changePolicyState 'q string
  | PH_resetPolicyStatistics string
  | PH_getDomain string
  | PH_patchDomain 'q string
  | PH_resetDomainStatistics string
  | PH_changeDomainState 'q string

datatype 'q nm_cont =
    K_findPolicies find_callback policy_predicate
  | K_getEnabled
  | K_getStatistics
  | K_resetStatistics
  | K_changeState
  | K_getAttributes
  | K_deletePolicy string
  | K_policyObjectPath string "'q path_handler"
  | K_getPolicy string
  | K_patchPolicy 'q string
  | K_changePolicyState 'q string string
  | K_policyUpdated 'q string
  | K_policyCreated 'q bool
  | K_policyEnabled
  | K_domainObjectPath string "'q path_handler"
  | K_getComponentCapabilities
  | K_getCapabilities
  | K_getDomainTriggers
  | K_getLimitBias string
  | K_getLimitingPolicies
  | K_setProperty string dbl bool

record 'k dbus_call =
  dc_service :: string
  dc_path :: string
  dc_interface :: string
  dc_method :: string
  dc_args :: "dbus_arg list"
  dc_cont :: 'k

text \<open>
  The state of a request: its response, the calls in flight with their continuations, and the shared
  \<open>FinalCallback\<close> with the number of its owners and what its function captures.  For the pages of
  policies and domains that is the name and the path of the domain a PATCH shows at its end.
\<close>

record ('k, 'f) call_state =
  nm_res :: response
  nm_calls :: "'k dbus_call list"
  nm_final :: "(nat \<times> 'f) option"

type_synonym 'q nm_state = "('q nm_cont, string \<times> string) call_state"

definition nm_init :: "'q nm_state" where
  "nm_init = \<lparr>nm_res = response_new, nm_calls = [], nm_final = None\<rparr>"

section \<open>The library\<close>

datatype jtype = T_u32 | T_u16 | T_u8 | T_string | T_double | T_json | T_array

datatype jval = JV_u32 u32 | JV_u16 u16 | JV_u8 u8 | JV_string string | JV_double dbl | JV_json json
  | JV_array "json list"

text \<open>A requested field: its name, its C++ type and whether it must be there.\<close>

type_synonym jfield = "string \<times> jtype \<times> bool"

text \<open>
  \<open>readJson\<close> takes its object by reference; \<open>readJson_rest\<close> is what it leaves of it.
\<close>

record 'q redfish_lib =
  msg_result :: "message \<Rightarrow> nat \<Rightarrow> nat"
  msg_json :: "message \<Rightarrow> json \<Rightarrow> json"
  readJsonAction :: "'q \<Rightarrow> jfield list \<Rightarrow> response \<Rightarrow> (string \<Rightarrow> jval option) option \<times> response"
  readJson :: "json \<Rightarrow> jfield list \<Rightarrow> response \<Rightarrow> (string \<Rightarrow> jval option) option \<times> response"
  readJson_rest :: "json \<Rightarrow> jfield list \<Rightarrow> json"
  processJsonFromRequest :: "'q \<Rightarrow> response \<Rightarrow> json option \<times> response"
  json_dump :: "json \<Rightarrow> string"
  fromDurationString :: "string \<Rightarrow> int option"
  toDurationString :: "int \<Rightarrow> string"
  path_filename :: "string \<Rightarrow> string"
  regex_search :: "string \<Rightarrow> string \<Rightarrow> exn + bool"
  double_to_string :: "dbl \<Rightarrow> string"
  double_to_u32 :: "dbl \<Rightarrow> u32"
  double_to_i64 :: "dbl \<Rightarrow> int"
  json_parse :: "string \<Rightarrow> exn + json"
  json_dump_indent :: "json \<Rightarrow> nat \<Rightarrow> string"
  getDateTimeUintMs :: "u64 \<Rightarrow> string"

section \<open>Operations on the state\<close>

definition upd_json :: "(json \<Rightarrow> exn + json) \<Rightarrow> (('k, 'f) call_state, unit) exm" where
  "upd_json f = (\<lambda>s. case f (r_json (nm_res s)) of
     Inl e \<Rightarrow> (Inl e, s)
   | Inr j \<Rightarrow> (Inr (), s\<lparr>nm_res := (nm_res s)\<lparr>r_json := j\<rparr>\<rparr>))"

definition addHeader :: "string \<Rightarrow> string \<Rightarrow> (('k, 'f) call_state, unit) exm" where
  "addHeader field v = modify (\<lambda>s. s\<lparr>nm_res := (nm_res s)\<lparr>r_headers := r_headers (nm_res s) @ [(field, v)]\<rparr>\<rparr>)"

definition put :: "string list \<Rightarrow> json \<Rightarrow> (('k, 'f) call_state, unit) exm" where
  "put p v = upd_json (json_put p v)"

definition push :: "string list \<Rightarrow> json \<Rightarrow> (('k, 'f) call_state, unit) exm" where
  "push p v = upd_json (json_push p v)"

definition add_message :: "'q redfish_lib \<Rightarrow> message \<Rightarrow> response \<Rightarrow> response" where
  "add_message L m r = r\<lparr>r_json := msg_json L m (r_json r), r_result := msg_result L m (r_result r),
     r_msgs := r_msgs r @ [m]\<rparr>"

definition send :: "'q redfish_lib \<Rightarrow> message \<Rightarrow> (('k, 'f) call_state, unit) exm" where
  "send L m = modify (\<lambda>s. s\<lparr>nm_res := add_message L m (nm_res s)\<rparr>)"

definition set_result :: "nat \<Rightarrow> (('k, 'f) call_state, unit) exm" where
  "set_result n = modify (\<lambda>s. s\<lparr>nm_res := (nm_res s)\<lparr>r_result := n\<rparr>\<rparr>)"

definition with_res :: "(response \<Rightarrow> 'a \<times> response) \<Rightarrow> (('k, 'f) call_state, 'a) exm" where
  "with_res f = (\<lambda>s. case f (nm_res s) of (a, r) \<Rightarrow> (Inr a, s\<lparr>nm_res := r\<rparr>))"

definition call :: "string \<Rightarrow> string \<Rightarrow> string \<Rightarrow> string \<Rightarrow> dbus_arg list \<Rightarrow> 'k \<Rightarrow> (('k, 'f) call_state, unit) exm" where
  "call service path interface method args k = modify (\<lambda>s. s\<lparr>nm_calls := nm_calls s @
     [\<lparr>dc_service = service, dc_path = path, dc_interface = interface, dc_method = method, dc_args = args, dc_cont = k\<rparr>]\<rparr>)"

text \<open>Reading what a successful \<open>readJson\<close> has stored; a variable it has not set is uninitialised.\<close>

definition need :: "'a option \<Rightarrow> (('k, 'f) call_state, 'a) exm" where
  "need x = (case x of Some a \<Rightarrow> ret a | None \<Rightarrow> throw (Undefined_Behaviour ''uninitialised''))"

fun as_u32 :: "jval option \<Rightarrow> u32 option" where
  "as_u32 (Some (JV_u32 x)) = Some x"
| "as_u32 _ = None"

fun as_u16 :: "jval option \<Rightarrow> u16 option" where
  "as_u16 (Some (JV_u16 x)) = Some x"
| "as_u16 _ = None"

fun as_u8 :: "jval option \<Rightarrow> u8 option" where
  "as_u8 (Some (JV_u8 x)) = Some x"
| "as_u8 _ = None"

fun as_string :: "jval option \<Rightarrow> string option" where
  "as_string (Some (JV_string x)) = Some x"
| "as_string _ = None"

fun as_double :: "jval option \<Rightarrow> dbl option" where
  "as_double (Some (JV_double x)) = Some x"
| "as_double _ = None"

fun as_json :: "jval option \<Rightarrow> json option" where
  "as_json (Some (JV_json x)) = Some x"
| "as_json _ = None"

fun as_array :: "jval option \<Rightarrow> json list option" where
  "as_array (Some (JV_array x)) = Some x"
| "as_array _ = None"

text \<open>What a handler is given: the body of the reply as the binding library has decoded it to the declared
  type; a body of another shape is reported to the handler as an error.\<close>

definition ec_decode :: int where "ec_decode = 22"

definition reply_void :: "dbus_reply \<Rightarrow> int + unit" where
  "reply_void r = (case r of R_error e \<Rightarrow> Inl e | _ \<Rightarrow> Inr ())"

definition reply_props :: "dbus_reply \<Rightarrow> int + dbus_props" where
  "reply_props r = (case r of R_error e \<Rightarrow> Inl e | R_props ps \<Rightarrow> Inr ps | _ \<Rightarrow> Inl ec_decode)"

definition reply_paths :: "dbus_reply \<Rightarrow> int + string list" where
  "reply_paths r = (case r of R_error e \<Rightarrow> Inl e | R_paths ps \<Rightarrow> Inr ps | _ \<Rightarrow> Inl ec_decode)"

definition reply_path :: "dbus_reply \<Rightarrow> int + string" where
  "reply_path r = (case r of R_error e \<Rightarrow> Inl e | R_path p \<Rightarrow> Inr p | _ \<Rightarrow> Inl ec_decode)"

definition reply_managed :: "dbus_reply \<Rightarrow> int + (string \<times> (string \<times> dbus_props) list) list" where
  "reply_managed r = (case r of R_error e \<Rightarrow> Inl e | R_managed m \<Rightarrow> Inr m | _ \<Rightarrow> Inl ec_decode)"

definition reply_nested :: "dbus_reply \<Rightarrow> int + (string \<times> dbus_props) list" where
  "reply_nested r = (case r of R_error e \<Rightarrow> Inl e | R_nested m \<Rightarrow> Inr m | _ \<Rightarrow> Inl ec_decode)"

definition reply_variant :: "dbus_reply \<Rightarrow> int + variant" where
  "reply_variant r = (case r of R_error e \<Rightarrow> Inl e | R_variant v \<Rightarrow> Inr v | _ \<Rightarrow> Inl ec_decode)"

definition reply_services :: "dbus_reply \<Rightarrow> int + string list" where
  "reply_services r = (case r of R_error e \<Rightarrow> Inl e | R_services ss \<Rightarrow> Inr ss | _ \<Rightarrow> Inl ec_decode)"

definition reply_bytes :: "dbus_reply \<Rightarrow> int + u8 list" where
  "reply_bytes r = (case r of R_error e \<Rightarrow> Inl e | R_bytes bs \<Rightarrow> Inr bs | _ \<Rightarrow> Inl ec_decode)"

section \<open>What the code relies on\<close>

text \<open>Every registered message other than \<open>Created\<close> sets an error status.\<close>

definition messages_ok :: "'q redfish_lib \<Rightarrow> bool" where
  "messages_ok L \<longleftrightarrow> (\<forall>m n. m \<noteq> M_created \<longrightarrow> msg_result L m n \<noteq> http_ok)"

text \<open>
  The JSON readers: success leaves the response alone and delivers every mandatory field, and every
  delivered field has the requested type; failure has reported an error in the response.
\<close>

fun has_type :: "jtype \<Rightarrow> jval \<Rightarrow> bool" where
  "has_type T_u32 v = (as_u32 (Some v) \<noteq> None)"
| "has_type T_u16 v = (as_u16 (Some v) \<noteq> None)"
| "has_type T_u8 v = (as_u8 (Some v) \<noteq> None)"
| "has_type T_string v = (as_string (Some v) \<noteq> None)"
| "has_type T_double v = (as_double (Some v) \<noteq> None)"
| "has_type T_json v = (as_json (Some v) \<noteq> None)"
| "has_type T_array v = (as_array (Some v) \<noteq> None)"

lemma has_type_iff:
  "has_type T_u32 v \<longleftrightarrow> (\<exists>x. v = JV_u32 x)"
  "has_type T_u16 v \<longleftrightarrow> (\<exists>x. v = JV_u16 x)"
  "has_type T_u8 v \<longleftrightarrow> (\<exists>x. v = JV_u8 x)"
  "has_type T_string v \<longleftrightarrow> (\<exists>x. v = JV_string x)"
  "has_type T_double v \<longleftrightarrow> (\<exists>x. v = JV_double x)"
  "has_type T_json v \<longleftrightarrow> (\<exists>x. v = JV_json x)"
  "has_type T_array v \<longleftrightarrow> (\<exists>x. v = JV_array x)"
  by (cases v; simp)+

definition field_read :: "(string \<Rightarrow> jval option) \<Rightarrow> jfield \<Rightarrow> bool" where
  "field_read vals fd = (case fd of (k, t, mandatory) \<Rightarrow>
     (case vals k of None \<Rightarrow> \<not> mandatory | Some v \<Rightarrow> has_type t v))"

definition reader_ok :: "(jfield list \<Rightarrow> response \<Rightarrow> (string \<Rightarrow> jval option) option \<times> response) \<Rightarrow> bool" where
  "reader_ok rd \<longleftrightarrow> (\<forall>fs r vo r'. rd fs r = (vo, r') \<longrightarrow> (case vo of
     Some vals \<Rightarrow> r' = r \<and> list_all (field_read vals) fs
   | None \<Rightarrow> r_result r' \<noteq> http_ok))"

definition readers_ok :: "'q redfish_lib \<Rightarrow> bool" where
  "readers_ok L \<longleftrightarrow> (\<forall>q. reader_ok (readJsonAction L q)) \<and> (\<forall>j. reader_ok (readJson L j))"

lemma field_read_mandatory: "field_read vals (k, t, True) \<longleftrightarrow> (\<exists>v. vals k = Some v \<and> has_type t v)"
  by (auto simp: field_read_def split: option.splits)

lemma has_type_ex:
  "(\<exists>v. o' = Some v \<and> has_type T_u32 v) \<longleftrightarrow> (\<exists>x. o' = Some (JV_u32 x))"
  "(\<exists>v. o' = Some v \<and> has_type T_u16 v) \<longleftrightarrow> (\<exists>x. o' = Some (JV_u16 x))"
  "(\<exists>v. o' = Some v \<and> has_type T_u8 v) \<longleftrightarrow> (\<exists>x. o' = Some (JV_u8 x))"
  "(\<exists>v. o' = Some v \<and> has_type T_string v) \<longleftrightarrow> (\<exists>x. o' = Some (JV_string x))"
  "(\<exists>v. o' = Some v \<and> has_type T_double v) \<longleftrightarrow> (\<exists>x. o' = Some (JV_double x))"
  "(\<exists>v. o' = Some v \<and> has_type T_json v) \<longleftrightarrow> (\<exists>x. o' = Some (JV_json x))"
  by (auto simp: has_type_iff simp del: has_type.simps)

lemma readers_action: "readers_ok L \<Longrightarrow> reader_ok (readJsonAction L q)"
  and readers_json: "readers_ok L \<Longrightarrow> reader_ok (readJson L j)"
  by (simp_all add: readers_ok_def)

lemma reader_done: "reader_ok rd \<Longrightarrow> rd fs r = (Some vals, r') \<Longrightarrow> r' = r \<and> list_all (field_read vals) fs"
  unfolding reader_ok_def by force

lemma reader_failed: "reader_ok rd \<Longrightarrow> rd fs r = (None, r') \<Longrightarrow> r_result r' \<noteq> http_ok"
  unfolding reader_ok_def by force

section \<open>Laws of the JSON operations\<close>

lemma map_of_obj_set [simp]: "map_of (obj_set k v m) = (map_of m)(k \<mapsto> v)"
proof -
  have "map_of (map (\<lambda>(k', v'). if k' = k then (k', v) else (k', v')) m) j =
      (if j = k then map_option (\<lambda>_. v) (map_of m k) else map_of m j)" for j
    by (induction m) auto
  then show ?thesis
    by (auto simp: obj_set_def fun_eq_iff map_add_def split: option.splits)
qed

lemma json_upd_object: "json_upd (k # ks) f (J_object m) =
    sum_bind (json_upd ks f (case map_of m k of Some v \<Rightarrow> v | None \<Rightarrow> J_null)) (\<lambda>v. Inr (J_object (obj_set k v m)))"
  by simp

text \<open>What is put at a path is found there, and other paths are left alone.\<close>

lemma json_get_upd: "json_upd p f j = Inr j' \<Longrightarrow> \<exists>v. json_get p j' = Some v"
proof (induction p arbitrary: j j')
  case Nil
  then show ?case by simp
next
  case (Cons k ks)
  then show ?case by (cases j) (auto simp: sum_bind_Inr_iff)
qed

lemma json_get_put: "json_put p v j = Inr j' \<Longrightarrow> json_get p j' = Some v"
  unfolding json_put_def
proof (induction p arbitrary: j j')
  case Nil
  then show ?case by simp
next
  case (Cons k ks)
  then show ?case by (cases j) (auto simp: sum_bind_Inr_iff)
qed

lemma json_get_upd_other:
  "json_upd (k # ks) f j = Inr j' \<Longrightarrow> k \<noteq> k' \<Longrightarrow> json_get (k' # ks') j' = json_get (k' # ks') j"
  by (cases j) (auto simp: sum_bind_Inr_iff)

text \<open>The value at a path of a JSON value that may still be null.\<close>

definition member :: "string \<Rightarrow> json \<Rightarrow> json option" where
  "member k j = (case j of J_object m \<Rightarrow> map_of m k | _ \<Rightarrow> None)"

definition objectlike :: "json \<Rightarrow> bool" where
  "objectlike j \<longleftrightarrow> (case j of J_null \<Rightarrow> True | J_object m \<Rightarrow> True | _ \<Rightarrow> False)"

lemma json_upd_member:
  assumes "objectlike j"
  shows "json_upd (k # ks) f j = sum_bind (json_upd ks f (case member k j of Some v \<Rightarrow> v | None \<Rightarrow> J_null))
    (\<lambda>v. Inr (case j of J_object m \<Rightarrow> J_object (obj_set k v m) | _ \<Rightarrow> J_object [(k, v)]))"
  using assms by (cases j) (auto simp: objectlike_def member_def)

lemma json_get_member: "objectlike j \<Longrightarrow> json_get (k # ks) j = (case member k j of Some v \<Rightarrow> json_get ks v | None \<Rightarrow> None)"
  by (cases j) (auto simp: objectlike_def member_def)

section \<open>Frame rules\<close>

text \<open>A computation that touches only the response.\<close>

definition same_calls :: "'k dbus_call list \<Rightarrow> ('k, 'f) call_state \<Rightarrow> bool" where
  "same_calls c s \<longleftrightarrow> nm_calls s = c"

definition quiet_if_ok :: "message list \<Rightarrow> ('k, 'f) call_state \<Rightarrow> bool" where
  "quiet_if_ok ms s \<longleftrightarrow> (r_result (nm_res s) = http_ok \<longrightarrow> r_msgs (nm_res s) = ms)"

lemma keeps_upd_json_calls [keeps_intro]: "keeps (same_calls c) (upd_json f)"
  by (auto simp: keeps_def same_calls_def upd_json_def split: sum.splits)

lemma keeps_put_calls [keeps_intro]: "keeps (same_calls c) (put p v)"
  unfolding put_def by (rule keeps_intro)

lemma keeps_push_calls [keeps_intro]: "keeps (same_calls c) (push p v)"
  unfolding push_def by (rule keeps_intro)

lemma keeps_send_calls [keeps_intro]: "keeps (same_calls c) (send L m)"
  unfolding send_def by (rule keeps_modify) (simp add: same_calls_def)

lemma keeps_set_result_calls [keeps_intro]: "keeps (same_calls c) (set_result n)"
  unfolding set_result_def by (rule keeps_modify) (simp add: same_calls_def)

lemma keeps_with_res_calls [keeps_intro]: "keeps (same_calls c) (with_res f)"
  by (auto simp: keeps_def same_calls_def with_res_def split: prod.splits)

lemma keeps_need [keeps_intro]: "keeps P (need x)"
  unfolding need_def by (intro keeps_intro)

lemma keeps_sum [keeps_intro]:
  "(\<And>a. keeps P (f a)) \<Longrightarrow> (\<And>b. keeps P (g b)) \<Longrightarrow> keeps P (case x of Inl a \<Rightarrow> f a | Inr b \<Rightarrow> g b)"
  by (cases x) auto

lemma keeps_send_quiet: "messages_ok L \<Longrightarrow> m \<noteq> M_created \<Longrightarrow> keeps (quiet_if_ok ms) (send L m)"
  unfolding send_def
  by (rule keeps_modify) (auto simp: quiet_if_ok_def add_message_def messages_ok_def)

lemma keeps_reader_quiet: "reader_ok rd \<Longrightarrow> keeps (quiet_if_ok ms) (with_res (rd fs))"
  by (force simp: keeps_def quiet_if_ok_def with_res_def reader_ok_def split: prod.splits option.splits)

lemma nothrow_send [nothrow_intro]: "nothrow (send L m)"
  unfolding send_def by (rule nothrow_intro)

lemma nothrow_set_result [nothrow_intro]: "nothrow (set_result n)"
  unfolding set_result_def by (rule nothrow_intro)

lemma nothrow_call [nothrow_intro]: "nothrow (call sv path i m args k)"
  unfolding call_def by (rule nothrow_intro)

lemma nothrow_with_res [nothrow_intro]: "nothrow (with_res f)"
  by (simp add: nothrow_def with_res_def split: prod.splits)

lemma send_apply: "send L m s = (Inr (), s\<lparr>nm_res := add_message L m (nm_res s)\<rparr>)"
  by (simp add: send_def)

lemma put_apply: "put p v s = (case json_put p v (r_json (nm_res s)) of
     Inl e \<Rightarrow> (Inl e, s) | Inr j \<Rightarrow> (Inr (), s\<lparr>nm_res := (nm_res s)\<lparr>r_json := j\<rparr>\<rparr>))"
  by (simp add: put_def upd_json_def)

lemma call_apply: "call sv path i m args k s = (Inr (), s\<lparr>nm_calls := nm_calls s @
     [\<lparr>dc_service = sv, dc_path = path, dc_interface = i, dc_method = m, dc_args = args, dc_cont = k\<rparr>]\<rparr>)"
  by (simp add: call_def)

lemma set_result_apply: "set_result n s = (Inr (), s\<lparr>nm_res := (nm_res s)\<lparr>r_result := n\<rparr>\<rparr>)"
  by (simp add: set_result_def)

lemma need_Inr_iff: "need x s = (Inr a, s') \<longleftrightarrow> x = Some a \<and> s' = s"
  by (auto simp: need_def split: option.splits)

end
