(* ===== verification/Nm_Common.thy ===== *)
theory Nm_Common
  imports Redfish_Core
begin

text \<open>
  \<open>nm_common.hpp\<close>: what the Node Manager pages share.  Reading properties and putting them into the
  response, the error codes of the Node Manager service and the messages they become, the search for
  policies, statistics, and changing the state of an object.  Every handler of a reply takes the error
  code or the body it is called with.
\<close>

section \<open>Names\<close>

definition kNodeManagerService :: string where
  "kNodeManagerService = ''xyz.openbmc_project.NodeManager''"

definition kNodeManagerObjectPath :: string where
  "kNodeManagerObjectPath = ''/xyz/openbmc_project/NodeManager''"

definition kObjectMapperObjectPath :: string where
  "kObjectMapperObjectPath = ''/xyz/openbmc_project/object_mapper''"

definition kObjectMapperService :: string where
  "kObjectMapperService = ''xyz.openbmc_project.ObjectMapper''"

definition kPolicyOwnerBmc :: int where "kPolicyOwnerBmc = 0"

definition dbusProperties :: string where "dbusProperties = ''org.freedesktop.DBus.Properties''"
definition objectEnable :: string where "objectEnable = ''xyz.openbmc_project.Object.Enable''"
definition nmStatistics :: string where "nmStatistics = ''xyz.openbmc_project.NodeManager.Statistics''"
definition nmPolicyAttributes :: string where
  "nmPolicyAttributes = ''xyz.openbmc_project.NodeManager.PolicyAttributes''"

definition redfishPolicies :: string where
  "redfishPolicies = ''/redfish/v1/Managers/bmc/Oem/Intel/NodeManager/Policies/''"

section \<open>Reading properties\<close>

text \<open>\<open>std::get_if<T>\<close>.\<close>

fun v_bool :: "variant \<Rightarrow> bool option" where "v_bool (DV_bool x) = Some x" | "v_bool _ = None"
fun v_string :: "variant \<Rightarrow> string option" where "v_string (DV_string x) = Some x" | "v_string _ = None"
fun v_i32 :: "variant \<Rightarrow> int option" where "v_i32 (DV_i32 x) = Some x" | "v_i32 _ = None"
fun v_double :: "variant \<Rightarrow> dbl option" where "v_double (DV_double x) = Some x" | "v_double _ = None"
fun v_u32 :: "variant \<Rightarrow> u32 option" where "v_u32 (DV_u32 x) = Some x" | "v_u32 _ = None"
fun v_u16 :: "variant \<Rightarrow> u16 option" where "v_u16 (DV_u16 x) = Some x" | "v_u16 _ = None"
fun v_u8 :: "variant \<Rightarrow> u8 option" where "v_u8 (DV_u8 x) = Some x" | "v_u8 _ = None"
fun v_strings :: "variant \<Rightarrow> string list option" where "v_strings (DV_strings x) = Some x" | "v_strings _ = None"

definition getPropertyValue :: "(variant \<Rightarrow> 'a option) \<Rightarrow> dbus_props \<Rightarrow> string \<Rightarrow> 'a option" where
  "getPropertyValue get_if properties name = (case map_of properties name of Some v \<Rightarrow> get_if v | None \<Rightarrow> None)"

text \<open>A \<open>flat_map\<close> from codes to names, and the search for a name.\<close>

type_synonym 'a names_map = "('a \<times> string) list"

definition find_name :: "'a names_map \<Rightarrow> string \<Rightarrow> 'a option" where
  "find_name m s = map_option fst (find (\<lambda>e. s = snd e) m)"

definition convertStringToEnum ::
    "'q redfish_lib \<Rightarrow> 'a \<Rightarrow> string \<Rightarrow> string \<Rightarrow> 'a names_map \<Rightarrow> ('q nm_state, 'a) exm" where
  "convertStringToEnum L zero str name m = (case find_name m str of
     Some k \<Rightarrow> ret k
   | None \<Rightarrow> thenE (send L (M_propertyMissing name)) (ret zero))"

text \<open>\<open>convertTimeString<uint16_t>\<close>: \<open>duration_cast\<close> truncates towards zero.\<close>

definition ms_to_seconds :: "int \<Rightarrow> int" where
  "ms_to_seconds ms = (if ms < 0 then - ((- ms) div 1000) else ms div 1000)"

definition convertTimeString :: "'q redfish_lib \<Rightarrow> string \<Rightarrow> string \<Rightarrow> ('q nm_state, u16) exm" where
  "convertTimeString L str name = (case fromDurationString L str of
     Some ms \<Rightarrow> (if ms_to_seconds ms \<le> 65535 then ret (word_of_int (ms_to_seconds ms))
       else thenE (send L (M_propertyValueIncorrect name str)) (ret 0))
   | None \<Rightarrow> thenE (send L (M_propertyValueIncorrect name str)) (ret 0))"

text \<open>The four overloads of \<open>parsePropertyToResponse\<close>.\<close>

definition parseProperty_process :: "'q redfish_lib \<Rightarrow> (variant \<Rightarrow> 'a option) \<Rightarrow> dbus_props \<Rightarrow> string \<Rightarrow>
    ('a \<Rightarrow> ('q nm_state, unit) exm) \<Rightarrow> ('q nm_state, unit) exm" where
  "parseProperty_process L get_if properties name process = (case getPropertyValue get_if properties name of
     Some v \<Rightarrow> process v
   | None \<Rightarrow> send L M_internalError)"

definition parseProperty :: "'q redfish_lib \<Rightarrow> (variant \<Rightarrow> 'a option) \<Rightarrow> ('a \<Rightarrow> json) \<Rightarrow> dbus_props \<Rightarrow> string \<Rightarrow>
    ('q nm_state, unit) exm" where
  "parseProperty L get_if to_json properties name = (case getPropertyValue get_if properties name of
     Some v \<Rightarrow> put [name] (to_json v)
   | None \<Rightarrow> send L M_internalError)"

definition parseProperty_map_process :: "'q redfish_lib \<Rightarrow> (variant \<Rightarrow> 'a option) \<Rightarrow> dbus_props \<Rightarrow> string \<Rightarrow>
    'a names_map \<Rightarrow> (string \<Rightarrow> ('q nm_state, unit) exm) \<Rightarrow> ('q nm_state, unit) exm" where
  "parseProperty_map_process L get_if properties name namesMap process =
     (case getPropertyValue get_if properties name of
        Some v \<Rightarrow> (case map_of namesMap v of Some s \<Rightarrow> process s | None \<Rightarrow> send L M_internalError)
      | None \<Rightarrow> send L M_internalError)"

definition parseProperty_map :: "'q redfish_lib \<Rightarrow> (variant \<Rightarrow> 'a option) \<Rightarrow> dbus_props \<Rightarrow> string \<Rightarrow>
    'a names_map \<Rightarrow> ('q nm_state, unit) exm" where
  "parseProperty_map L get_if properties name namesMap =
     (case getPropertyValue get_if properties name of
        Some v \<Rightarrow> (case map_of namesMap v of Some s \<Rightarrow> put [name] (J_string s) | None \<Rightarrow> send L M_internalError)
      | None \<Rightarrow> send L M_internalError)"

section \<open>Error codes\<close>

datatype ErrorCodes =
    CorrectionTimeOutOfRange
  | InvalidPolicyId
  | PowerLimitOutOfRange
  | StatRepPeriodOutOfRange
  | InvalidPolicyStorage
  | InvalidPowerCorrectionType
  | InvalidLimitException
  | InvalidComponentId
  | ReadingSourceUnavailable
  | TriggerValueOutOfRange
  | UnsupportedPolicyTriggerType
  | OperationNotPermitted
  | CmdNotSupported
  | PoliciesCannotBeCreated
  | PolicyIdAlreadyExists

definition errorCodes :: "ErrorCodes list" where
  "errorCodes = [CorrectionTimeOutOfRange, InvalidPolicyId, PowerLimitOutOfRange, StatRepPeriodOutOfRange,
     InvalidPolicyStorage, InvalidPowerCorrectionType, InvalidLimitException, InvalidComponentId,
     ReadingSourceUnavailable, TriggerValueOutOfRange, UnsupportedPolicyTriggerType, OperationNotPermitted,
     CmdNotSupported, PoliciesCannotBeCreated, PolicyIdAlreadyExists]"

text \<open>The enumeration starts at 1000; \<open>static_cast<ErrorCodes>\<close> of another number is no enumerator.\<close>

definition to_ErrorCode :: "int \<Rightarrow> ErrorCodes option" where
  "to_ErrorCode ec = (if 1000 \<le> ec \<and> ec < 1000 + int (length errorCodes)
     then Some (errorCodes ! nat (ec - 1000)) else None)"

definition error_value :: "ErrorCodes \<Rightarrow> int" where
  "error_value c = 1000 + int (length (takeWhile (\<lambda>d. d \<noteq> c) errorCodes))"

definition nmError :: string where "nmError = ''xyz.openbmc_project.NodeManager.Error.''"

definition kNodeManagerDBusErrors :: "(string \<times> int) list" where
  "kNodeManagerDBusErrors = [
     (nmError @ ''CorrectionTimeOutOfRange'', error_value CorrectionTimeOutOfRange),
     (nmError @ ''InvalidPolicyId'', error_value InvalidPolicyId),
     (nmError @ ''PowerLimitOutOfRange'', error_value PowerLimitOutOfRange),
     (nmError @ ''StatRepPeriodOutOfRange'', error_value StatRepPeriodOutOfRange),
     (nmError @ ''InvalidPolicyStorage'', error_value InvalidPolicyStorage),
     (nmError @ ''InvalidPowerCorrectionType'', error_value InvalidPowerCorrectionType),
     (nmError @ ''InvalidLimitException'', error_value InvalidLimitException),
     (nmError @ ''InvalidComponentId'', error_value InvalidComponentId),
     (nmError @ ''ReadingSourceUnavailable'', error_value ReadingSourceUnavailable),
     (nmError @ ''TriggerValueOutOfRange'', error_value TriggerValueOutOfRange),
     (nmError @ ''UnsupportedPolicyTriggerType'', error_value UnsupportedPolicyTriggerType),
     (nmError @ ''OperationNotPermitted'', error_value OperationNotPermitted),
     (nmError @ ''CmdNotSupported'', error_value CmdNotSupported),
     (nmError @ ''PoliciesCannotBeCreated'', error_value PoliciesCannotBeCreated),
     (nmError @ ''PolicyIdAlreadyExists'', error_value PolicyIdAlreadyExists)]"

definition kErrorCodeToPropertyName :: "(ErrorCodes \<times> string) list" where
  "kErrorCodeToPropertyName = [
     (CorrectionTimeOutOfRange, ''CorrectionInMs''),
     (InvalidPolicyId, ''Id''),
     (PowerLimitOutOfRange, ''Limit''),
     (StatRepPeriodOutOfRange, ''StatisticsReportingPeriod''),
     (InvalidPolicyStorage, ''PolicyStorage''),
     (InvalidPowerCorrectionType, ''PowerCorrectionType''),
     (InvalidLimitException, ''LimitException''),
     (InvalidComponentId, ''ComponentId''),
     (TriggerValueOutOfRange, ''TriggerLimit''),
     (UnsupportedPolicyTriggerType, ''TriggerType'')]"

text \<open>\<open>operator[]\<close> read as a value.\<close>

definition json_index :: "string \<Rightarrow> json \<Rightarrow> exn + json" where
  "json_index k j = (case j of
     J_null \<Rightarrow> Inr J_null
   | J_object m \<Rightarrow> Inr (case map_of m k of Some v \<Rightarrow> v | None \<Rightarrow> J_null)
   | _ \<Rightarrow> Inl (Json_Error ''type_error.305''))"

definition dbusErrorToBmcwebMessage ::
    "'q redfish_lib \<Rightarrow> 'q \<Rightarrow> int \<Rightarrow> string option \<Rightarrow> (('k, 'f) call_state, unit) exm" where
  "dbusErrorToBmcwebMessage L req ec objectPath =
     bindE (with_res (processJsonFromRequest L req)) (\<lambda>jo. case jo of
       None \<Rightarrow> ret ()
     | Some jsonRequest \<Rightarrow>
        (let it = (case to_ErrorCode ec of Some c \<Rightarrow> map_of kErrorCodeToPropertyName c | None \<Rightarrow> None);
             incorrect = (\<lambda>name j. bindE (lift_sum (json_index name j)) (\<lambda>v.
                send L (M_propertyValueIncorrect name (json_dump L v)))) in
         case to_ErrorCode ec of
           Some c \<Rightarrow>
            (if c \<in> {CorrectionTimeOutOfRange, PowerLimitOutOfRange, StatRepPeriodOutOfRange, InvalidPolicyId,
                  InvalidPolicyStorage, InvalidPowerCorrectionType, InvalidLimitException, InvalidComponentId}
             then (case it of Some name \<Rightarrow> incorrect name jsonRequest | None \<Rightarrow> send L M_internalError)
             else if c \<in> {UnsupportedPolicyTriggerType, TriggerValueOutOfRange}
             then (case it of
                 Some name \<Rightarrow> bindE (lift_sum (json_index ''Trigger'' jsonRequest)) (incorrect name)
               | None \<Rightarrow> send L M_internalError)
             else if c = OperationNotPermitted then send L M_queryNotSupportedOnResource
             else if c \<in> {ReadingSourceUnavailable, CmdNotSupported} then send L M_operationFailed
             else (case objectPath of
                 Some p \<Rightarrow> thenE (send L (M_resourceCreationConflict p)) (set_result http_conflict)
               | None \<Rightarrow> send L M_internalError))
         | None \<Rightarrow> send L M_internalError))"

section \<open>Finding policies\<close>

definition getDomainDbusPath :: "string \<Rightarrow> string" where
  "getDomainDbusPath domainName = ''/xyz/openbmc_project/NodeManager/Domain/'' @ domainName"

definition createAttributePredicate :: "(variant \<Rightarrow> 'a option) \<Rightarrow> string \<Rightarrow> 'a \<Rightarrow> dbus_props \<Rightarrow> bool" where
  "createAttributePredicate get_if attributeName expectedValue propMap = (case map_of propMap attributeName of
     Some v \<Rightarrow> get_if v = Some expectedValue
   | None \<Rightarrow> False)"

fun predicate_holds :: "policy_predicate \<Rightarrow> dbus_props \<Rightarrow> bool" where
  "predicate_holds PR_none ps = True"
| "predicate_holds PR_owner ps = createAttributePredicate v_i32 ''Owner'' kPolicyOwnerBmc ps"
| "predicate_holds (PR_idAndOwner policyId) ps =
     (createAttributePredicate v_string ''Id'' policyId ps \<and> createAttributePredicate v_i32 ''Owner'' kPolicyOwnerBmc ps)"
| "predicate_holds (PR_domain domainName) ps = createAttributePredicate v_string ''DomainId'' domainName ps"

definition asyncFindPolicies :: "find_callback \<Rightarrow> policy_predicate \<Rightarrow> ('q nm_state, unit) exm" where
  "asyncFindPolicies callback p = call kNodeManagerService kNodeManagerObjectPath ''org.freedesktop.DBus.ObjectManager''
     ''GetManagedObjects'' [] (K_findPolicies callback p)"

text \<open>The loops over the managed objects and their interfaces.\<close>

definition found_policies :: "policy_predicate \<Rightarrow> (string \<times> (string \<times> dbus_props) list) list \<Rightarrow> string list" where
  "found_policies p managedObj = concat (map (\<lambda>(path, ifMap).
     concat (map (\<lambda>(ifName, propMap).
       if ifName \<noteq> nmPolicyAttributes then [] else if \<not> predicate_holds p propMap then [] else [path]) ifMap))
     managedObj)"

section \<open>Handlers of replies\<close>

definition getEnabled :: "string \<Rightarrow> ('q nm_state, unit) exm" where
  "getEnabled dbusPath = call kNodeManagerService dbusPath dbusProperties ''GetAll'' [A_string objectEnable] K_getEnabled"

definition onGetEnabled :: "'q redfish_lib \<Rightarrow> int + dbus_props \<Rightarrow> (('k, 'f) call_state, unit) exm" where
  "onGetEnabled L reply = (case reply of
     Inl ec \<Rightarrow> send L M_internalError
   | Inr response \<Rightarrow>
      (case foldl (\<lambda>enabled (key, value). if ''Enabled'' = key then v_bool value else enabled) None response of
         None \<Rightarrow> send L M_internalError
       | Some enabled \<Rightarrow> put [''Status'', ''State''] (J_string (if enabled then ''Enabled'' else ''Disabled''))))"

definition getStatistics :: "string \<Rightarrow> ('q nm_state, unit) exm" where
  "getStatistics dbusPath = call kNodeManagerService dbusPath nmStatistics ''GetStatistics'' [] K_getStatistics"

definition stat_u32 :: "'q redfish_lib \<Rightarrow> variant \<Rightarrow> u32" where
  "stat_u32 L v = (case v of DV_double d \<Rightarrow> double_to_u32 L d | DV_u32 x \<Rightarrow> x | DV_u64 x \<Rightarrow> ucast x
     | DV_bool b \<Rightarrow> (if b then 1 else 0) | _ \<Rightarrow> 0)"

definition variant_json :: "variant \<Rightarrow> json" where
  "variant_json v = (case v of DV_bool b \<Rightarrow> J_bool b | DV_string s \<Rightarrow> J_string s | DV_i32 i \<Rightarrow> J_int i
     | DV_double d \<Rightarrow> J_double d | DV_u32 x \<Rightarrow> J_int (uint x) | DV_u16 x \<Rightarrow> J_int (uint x)
     | DV_u64 x \<Rightarrow> J_int (uint x) | DV_u8 x \<Rightarrow> J_int (uint x) | DV_strings xs \<Rightarrow> J_array (map J_string xs))"

definition seconds_string :: "'q redfish_lib \<Rightarrow> int \<Rightarrow> string" where
  "seconds_string L s = toDurationString L (1000 * s)"

definition stat_json :: "'q redfish_lib \<Rightarrow> string \<times> dbus_props \<Rightarrow> json" where
  "stat_json L stat = (case stat of (statName, statsMap) \<Rightarrow>
     J_object (foldl (\<lambda>m (valueName, v).
       if valueName = ''StatisticsReportingPeriod''
       then obj_set ''AveragingInterval'' (J_string (seconds_string L (uint (stat_u32 L v)))) m
       else obj_set valueName (variant_json v) m)
     [(''Name'', J_string statName)] statsMap))"

definition onGetStatistics :: "'q redfish_lib \<Rightarrow> int + (string \<times> dbus_props) list \<Rightarrow> ('q nm_state, unit) exm" where
  "onGetStatistics L reply = (case reply of
     Inl ec \<Rightarrow> send L M_internalError
   | Inr stats \<Rightarrow> thenE
       (bindE (gets (\<lambda>s. r_json (nm_res s))) (\<lambda>j.
          if \<not> json_contains ''Statistics'' j then put [''Statistics''] (J_array []) else ret ()))
       (forE stats (\<lambda>st. push [''Statistics''] (stat_json L st))))"

definition resetStatistics :: "string \<Rightarrow> ('q nm_state, unit) exm" where
  "resetStatistics dbusPath = call kNodeManagerService dbusPath nmStatistics ''ResetStatistics'' [] K_resetStatistics"

definition onResetStatistics :: "'q redfish_lib \<Rightarrow> int + unit \<Rightarrow> ('q nm_state, unit) exm" where
  "onResetStatistics L reply = (case reply of
     Inl ec \<Rightarrow> send L M_internalError
   | Inr _ \<Rightarrow> set_result http_no_content)"

definition changeDbusObjectState ::
    "'q redfish_lib \<Rightarrow> 'q \<Rightarrow> string \<Rightarrow> string \<Rightarrow> string \<Rightarrow> ('q nm_state, unit) exm" where
  "changeDbusObjectState L req objectName actionName objectPath =
     bindE (with_res (readJsonAction L req [(''State'', T_string, True)])) (\<lambda>vo. case vo of
       None \<Rightarrow> send L (M_actionParameterMissing actionName ''State'')
     | Some vals \<Rightarrow> bindE (need (as_string (vals ''State''))) (\<lambda>state.
         if state \<noteq> ''Enabled'' \<and> state \<noteq> ''Disabled''
         then send L (M_actionParameterValueFormatError state ''State'' actionName)
         else call kNodeManagerService objectPath dbusProperties ''Set''
           [A_string objectEnable, A_string ''Enabled'', A_variant (DV_bool (state = ''Enabled''))] K_changeState))"

definition onChangeState :: "'q redfish_lib \<Rightarrow> int + unit \<Rightarrow> ('q nm_state, unit) exm" where
  "onChangeState L reply = (case reply of
     Inl ec \<Rightarrow> (if to_ErrorCode ec = Some OperationNotPermitted then send L M_queryNotSupportedOnResource
                else send L M_internalError)
   | Inr _ \<Rightarrow> set_result http_no_content)"

definition dbusPoliciesPathsToLinks :: "'q redfish_lib \<Rightarrow> string list \<Rightarrow> json" where
  "dbusPoliciesPathsToLinks L dbusPaths = J_array (concat (map (\<lambda>path.
     (let policyId = path_filename L path in
      if policyId = [] then [] else [J_object [(''@odata.id'', J_string (redfishPolicies @ policyId))]])) dbusPaths))"

section \<open>The contract of the tables of names\<close>

text \<open>A table pairs codes with names, each once; encoding and decoding are then inverse.\<close>

locale name_table =
  fixes m :: "'a names_map"
  assumes codes: "distinct (map fst m)"
    and names: "distinct (map snd m)"
begin

lemma find_name_Some: "find_name m s = Some k \<Longrightarrow> (k, s) \<in> set m"
proof -
  assume "find_name m s = Some k"
  then obtain e where e: "find (\<lambda>e. s = snd e) m = Some e" "k = fst e"
    by (auto simp: find_name_def)
  then have "e \<in> set m" "s = snd e" by (auto simp: find_Some_iff)
  with e(2) show ?thesis by simp
qed

lemma decode_encode:
  assumes "map_of m k = Some s"
  shows "find_name m s = Some k"
proof -
  have mem: "(k, s) \<in> set m" using assms by (rule map_of_SomeD)
  then obtain k' where f: "find_name m s = Some k'"
    by (cases "find (\<lambda>e. s = snd e) m") (auto simp: find_name_def find_None_iff)
  have "(k', s) \<in> set m" by (rule find_name_Some [OF f])
  moreover have "inj_on snd (set m)" using names by (simp add: distinct_map)
  ultimately have "(k', s) = (k, s)" using mem inj_onD [of snd "set m" "(k', s)" "(k, s)"] by simp
  then have "k' = k" by simp
  with f show ?thesis by simp
qed

lemma encode_decode: "find_name m s = Some k \<Longrightarrow> map_of m k = Some s"
  using find_name_Some codes by (simp add: map_of_is_SomeI)

lemma find_name_iff: "find_name m s = Some k \<longleftrightarrow> map_of m k = Some s"
  using decode_encode encode_decode by blast

end

section \<open>Lemmas\<close>

lemma found_policies_iff:
  "path \<in> set (found_policies p objs) \<longleftrightarrow>
     (\<exists>ifMap ps. (path, ifMap) \<in> set objs \<and> (nmPolicyAttributes, ps) \<in> set ifMap \<and> predicate_holds p ps)"
  by (auto simp: found_policies_def split: if_splits) blast

lemma getPropertyValue_Some:
  "getPropertyValue g ps n = Some x \<longleftrightarrow> (\<exists>v. map_of ps n = Some v \<and> g v = Some x)"
  by (auto simp: getPropertyValue_def split: option.splits)

lemma to_ErrorCode_value: "to_ErrorCode (error_value c) = Some c"
  by (cases c) (simp_all add: to_ErrorCode_def error_value_def errorCodes_def)

lemma errorCodes_all: "c \<in> set errorCodes"
  by (cases c) (simp_all add: errorCodes_def)

lemma to_ErrorCode_Some: "to_ErrorCode ec = Some c \<longleftrightarrow> ec = error_value c"
proof
  assume a: "to_ErrorCode ec = Some c"
  then have r: "1000 \<le> ec" "ec < 1000 + int (length errorCodes)" "c = errorCodes ! nat (ec - 1000)"
    by (auto simp: to_ErrorCode_def split: if_splits)
  then have "nat (ec - 1000) < 15" by (simp add: errorCodes_def)
  then have "nat (ec - 1000) \<in> set [0..<15]" by simp
  then have "ec = error_value (errorCodes ! nat (ec - 1000))"
    using r(1) by (auto simp: errorCodes_def error_value_def upt_rec)
  with r(3) show "ec = error_value c" by simp
qed (simp add: to_ErrorCode_value)

text \<open>The message a failed call ends in, when the request is the JSON object \<open>m\<close>.\<close>

definition error_message :: "'q redfish_lib \<Rightarrow> int \<Rightarrow> (string \<times> json) list \<Rightarrow> string option \<Rightarrow> message" where
  "error_message L ec m objectPath =
     (let field = (\<lambda>k m. case map_of m k of Some v \<Rightarrow> v | None \<Rightarrow> J_null);
          trig = (case field ''Trigger'' m of J_object t \<Rightarrow> t | _ \<Rightarrow> []) in
      case to_ErrorCode ec of
        None \<Rightarrow> M_internalError
      | Some c \<Rightarrow> (case map_of kErrorCodeToPropertyName c of
          Some name \<Rightarrow> M_propertyValueIncorrect name (json_dump L
            (if c \<in> {TriggerValueOutOfRange, UnsupportedPolicyTriggerType} then field name trig else field name m))
        | None \<Rightarrow> (if c = OperationNotPermitted then M_queryNotSupportedOnResource
            else if c \<in> {ReadingSourceUnavailable, CmdNotSupported} then M_operationFailed
            else case objectPath of Some p \<Rightarrow> M_resourceCreationConflict p | None \<Rightarrow> M_internalError)))"

lemma dbusError_run:
  assumes p: "processJsonFromRequest L req (nm_res s) = (Some (J_object m), nm_res s)"
    and t: "case map_of m ''Trigger'' of None \<Rightarrow> True | Some j \<Rightarrow> objectlike j"
    and run: "dbusErrorToBmcwebMessage L req ec objectPath s = (x, s')"
  shows "x = Inr () \<and> nm_calls s' = nm_calls s \<and>
    r_msgs (nm_res s') = r_msgs (nm_res s) @ [error_message L ec m objectPath] \<and>
    r_result (nm_res s') \<in> {msg_result L (error_message L ec m objectPath) (r_result (nm_res s)), http_conflict}"
proof (cases "to_ErrorCode ec")
  case None
  with p run show ?thesis
    by (auto simp: dbusErrorToBmcwebMessage_def bindE_apply with_res_def send_apply error_message_def add_message_def)
next
  case (Some c)
  with p t run show ?thesis
    by (cases c) (auto simp: dbusErrorToBmcwebMessage_def bindE_apply thenE_apply with_res_def send_apply
        set_result_apply error_message_def add_message_def json_index_def objectlike_def
        kErrorCodeToPropertyName_def Let_def split: option.splits json.splits)
qed

section \<open>Properties\<close>


text \<open>C21: A failed Node Manager call ends in exactly one message: for a request whose body is a JSON object
  with no ill-typed \<open>Trigger\<close>, the handler adds the message of the error code and nothing else, names the
  offending property with the value the request gave for it, issues no call, and leaves an error status.\<close>

theorem error_reported_once:
  assumes "messages_ok L"
    and "processJsonFromRequest L req (nm_res s) = (Some (J_object m), nm_res s)"
    and "case map_of m ''Trigger'' of None \<Rightarrow> True | Some j \<Rightarrow> objectlike j"
    and "dbusErrorToBmcwebMessage L req ec objectPath s = (x, s')"
  shows "x = Inr () \<and> nm_calls s' = nm_calls s \<and>
    r_msgs (nm_res s') = r_msgs (nm_res s) @ [error_message L ec m objectPath] \<and>
    r_result (nm_res s') \<noteq> http_ok"
proof -
  have "error_message L ec m objectPath \<noteq> M_created"
    by (auto simp: error_message_def Let_def split: option.splits if_splits)
  then have "msg_result L (error_message L ec m objectPath) (r_result (nm_res s)) \<noteq> http_ok"
    using assms(1) by (simp add: messages_ok_def)
  with dbusError_run [OF assms(2-4)] show ?thesis
    by (auto simp: http_ok_def http_conflict_def)
qed

text \<open>A library for the witnesses: requests are JSON values, every message sets the status 400.\<close>

fun demo_field :: "jtype \<Rightarrow> json \<Rightarrow> jval option" where
  "demo_field T_u32 (J_int i) = Some (JV_u32 (word_of_int i))"
| "demo_field T_u16 (J_int i) = Some (JV_u16 (word_of_int i))"
| "demo_field T_u8 (J_int i) = Some (JV_u8 (word_of_int i))"
| "demo_field T_string (J_string s) = Some (JV_string s)"
| "demo_field T_double (J_double d) = Some (JV_double d)"
| "demo_field T_json j = Some (JV_json j)"
| "demo_field T_array (J_array vs) = Some (JV_array vs)"
| "demo_field _ _ = None"

definition demo_read :: "json \<Rightarrow> jfield list \<Rightarrow> response \<Rightarrow> (string \<Rightarrow> jval option) option \<times> response" where
  "demo_read j fs r = (case j of
     J_object m \<Rightarrow>
      (if distinct (map fst fs) \<and>
         list_all (\<lambda>(k, t, mand). case map_of m k of None \<Rightarrow> \<not> mand | Some v \<Rightarrow> demo_field t v \<noteq> None) fs
       then (Some (\<lambda>k. case (map_of fs k, map_of m k) of (Some (t, _), Some v) \<Rightarrow> demo_field t v | _ \<Rightarrow> None), r)
       else (None, r\<lparr>r_result := 400\<rparr>))
   | _ \<Rightarrow> (None, r\<lparr>r_result := 400\<rparr>))"

definition demo_redfish :: "json redfish_lib" where
  "demo_redfish = \<lparr>
     msg_result = (\<lambda>m n. if m = M_created then 201 else 400),
     msg_json = (\<lambda>m j. j),
     readJsonAction = demo_read,
     readJson = demo_read,
     readJson_rest = (\<lambda>j fs. j),
     processJsonFromRequest = (\<lambda>j r. (Some j, r)),
     json_dump = (\<lambda>j. case j of J_string s \<Rightarrow> s | J_int i \<Rightarrow> to_string (nat i) | _ \<Rightarrow> ''null''),
     fromDurationString = (\<lambda>s. case stoi s of Inr (n, _) \<Rightarrow> Some n | Inl e \<Rightarrow> None),
     toDurationString = (\<lambda>n. to_string (nat n)),
     path_filename = (\<lambda>p. rev (takeWhile (\<lambda>c. c \<noteq> CHR ''/'') (rev p))),
     regex_search = (\<lambda>pat s. Inr (let n = length pat - 1 in drop (length s - n) s = take n pat)),
     double_to_string = (\<lambda>d. to_string (unat d)),
     double_to_u32 = (\<lambda>d. ucast d),
     double_to_i64 = (\<lambda>d. uint d),
     json_parse = (\<lambda>s. Inl (Json_Error ''parse_error.101'')),
     json_dump_indent = (\<lambda>j n. ''null''),
     getDateTimeUintMs = (\<lambda>t. to_string (unat t))\<rparr>"

lemma demo_messages_ok: "messages_ok demo_redfish"
  by (simp add: messages_ok_def demo_redfish_def http_ok_def)

lemma demo_field_type: "demo_field t v = Some x \<Longrightarrow> has_type t x"
  by (induction t v rule: demo_field.induct) auto

lemma demo_readers_ok: "readers_ok demo_redfish"
proof -
  have "reader_ok (demo_read j)" for j
  proof (unfold reader_ok_def, intro allI impI)
    fix fs r vo r'
    assume run: "demo_read j fs r = (vo, r')"
    show "case vo of Some vals \<Rightarrow> r' = r \<and> list_all (field_read vals) fs | None \<Rightarrow> r_result r' \<noteq> http_ok"
    proof (cases vo)
      case None
      with run show ?thesis by (auto simp: demo_read_def http_ok_def split: json.splits if_splits)
    next
      case (Some vals)
      then obtain m where m: "j = J_object m" "r' = r" "distinct (map fst fs)"
        "list_all (\<lambda>(k, t, mand). case map_of m k of None \<Rightarrow> \<not> mand | Some v \<Rightarrow> demo_field t v \<noteq> None) fs"
        "vals = (\<lambda>k. case (map_of fs k, map_of m k) of (Some (t, _), Some v) \<Rightarrow> demo_field t v | _ \<Rightarrow> None)"
        using run by (auto simp: demo_read_def split: json.splits if_splits)
      have "field_read vals (k, t, mand)" if fd: "(k, t, mand) \<in> set fs" for k t mand
      proof -
        have "map_of fs k = Some (t, mand)" using m(3) fd by simp
        moreover have "case map_of m k of None \<Rightarrow> \<not> mand | Some v \<Rightarrow> demo_field t v \<noteq> None"
          using m(4) fd by (auto simp: list_all_iff)
        ultimately show ?thesis
          by (auto simp: field_read_def m(5) split: option.splits dest: demo_field_type)
      qed
      with m(2) Some show ?thesis by (auto simp: list_all_iff)
    qed
  qed
  then show ?thesis by (simp add: readers_ok_def demo_redfish_def)
qed

theorem error_reported_once_witness:
  "\<exists>s'. dbusErrorToBmcwebMessage demo_redfish (J_object [(''Limit'', J_int 7)]) 1002 None (nm_init :: json nm_state) = (Inr (), s') \<and>
    r_msgs (nm_res s') = [M_propertyValueIncorrect ''Limit'' ''7''] \<and> r_result (nm_res s') \<noteq> http_ok"
proof -
  define q where "q = J_object [(''Limit'', J_int 7)]"
  have p: "processJsonFromRequest demo_redfish q (nm_res (nm_init :: json nm_state)) = (Some (J_object [(''Limit'', J_int 7)]), nm_res (nm_init :: json nm_state))"
    by (simp add: demo_redfish_def q_def nm_init_def)
  have t: "case map_of [(''Limit'', J_int 7)] ''Trigger'' of None \<Rightarrow> True | Some j \<Rightarrow> objectlike j" by simp
  obtain x and s' :: "json nm_state" where run: "dbusErrorToBmcwebMessage demo_redfish q 1002 None nm_init = (x, s')"
    by fastforce
  have "to_string 7 = ''7''" by code_simp
  then have "error_message demo_redfish 1002 [(''Limit'', J_int 7)] None = M_propertyValueIncorrect ''Limit'' ''7''"
    by (simp add: error_message_def to_ErrorCode_def errorCodes_def kErrorCodeToPropertyName_def)
      (simp add: demo_redfish_def)
  with error_reported_once [OF demo_messages_ok p t run] run show ?thesis
    by (auto simp: q_def nm_init_def response_new_def)
qed

text \<open>Changing the state of an object: the \<open>Set\<close> call is issued exactly when the request gives
  \<open>Enabled\<close> or \<open>Disabled\<close>, with the matching boolean for that object, and then no message is added;
  otherwise no call is issued and the response has an error status.\<close>

theorem changeDbusObjectState_guarded:
  assumes "messages_ok L" and "readers_ok L"
    and "changeDbusObjectState L req objectName actionName objectPath s = (x, s')"
  shows "x = Inr () \<and>
    (nm_calls s' = nm_calls s \<and> r_result (nm_res s') \<noteq> http_ok \<or>
     (\<exists>b. nm_calls s' = nm_calls s @ [\<lparr>dc_service = kNodeManagerService, dc_path = objectPath, dc_interface = dbusProperties, dc_method = ''Set'',
        dc_args = [A_string objectEnable, A_string ''Enabled'', A_variant (DV_bool b)], dc_cont = K_changeState\<rparr>] \<and>
        (\<exists>vals. readJsonAction L req [(''State'', T_string, True)] (nm_res s) = (Some vals, nm_res s) \<and>
           vals ''State'' = Some (JV_string (if b then ''Enabled'' else ''Disabled''))) \<and> nm_res s' = nm_res s))"
proof -
  obtain vo r where rd: "readJsonAction L req [(''State'', T_string, True)] (nm_res s) = (vo, r)" by fastforce
  have ok: "case vo of Some vals \<Rightarrow> r = nm_res s \<and> list_all (field_read vals) [(''State'', T_string, True)]
      | None \<Rightarrow> r_result r \<noteq> http_ok"
    using assms(2) rd unfolding readers_ok_def reader_ok_def by blast
  show ?thesis
  proof (cases vo)
    case None
    with assms(1,3) rd show ?thesis
      by (auto simp: changeDbusObjectState_def bindE_apply with_res_def send_apply add_message_def messages_ok_def)
  next
    case (Some vals)
    with ok obtain str where v: "vals ''State'' = Some (JV_string str)" and r: "r = nm_res s"
      by (auto simp: field_read_def has_type_iff simp del: has_type.simps split: option.splits)
    show ?thesis
    proof (cases "str = ''Enabled'' \<or> str = ''Disabled''")
      case True
      define b where "b = (str = ''Enabled'')"
      have str: "str = (if b then ''Enabled'' else ''Disabled'')" using True by (auto simp: b_def)
      have run: "changeDbusObjectState L req objectName actionName objectPath s = (Inr (), s\<lparr>nm_calls := nm_calls s @
          [\<lparr>dc_service = kNodeManagerService, dc_path = objectPath, dc_interface = dbusProperties, dc_method = ''Set'',
            dc_args = [A_string objectEnable, A_string ''Enabled'', A_variant (DV_bool b)], dc_cont = K_changeState\<rparr>]\<rparr>)"
        using rd Some v r True
        by (auto simp: changeDbusObjectState_def bindE_apply with_res_def need_def call_apply b_def)
      have vals: "readJsonAction L req [(''State'', T_string, True)] (nm_res s) = (Some vals, nm_res s) \<and>
          vals ''State'' = Some (JV_string (if b then ''Enabled'' else ''Disabled''))"
        using rd Some r v str by simp
      show ?thesis
        using run assms(3) by (intro conjI disjI2 exI [of _ b] exI [of _ vals] vals) auto
    next
      case False
      with assms(1,3) rd Some v r show ?thesis
        by (auto simp: changeDbusObjectState_def bindE_apply with_res_def need_def send_apply add_message_def
            messages_ok_def)
    qed
  qed
qed

theorem changeDbusObjectState_guarded_witness:
  "\<exists>s'. changeDbusObjectState demo_redfish (J_object [(''State'', J_string ''Paused'')]) ''P1'' ''A'' ''/p'' nm_init =
     (Inr (), s') \<and> nm_calls s' = []"
proof -
  define q where "q = J_object [(''State'', J_string ''Paused'')]"
  obtain x and s' :: "json nm_state" where run: "changeDbusObjectState demo_redfish q ''P1'' ''A'' ''/p'' nm_init = (x, s')"
    by fastforce
  have never: "\<not> (\<exists>b vals. readJsonAction demo_redfish q [(''State'', T_string, True)] (nm_res nm_init) = (Some vals, nm_res nm_init) \<and>
      vals ''State'' = Some (JV_string (if b then ''Enabled'' else ''Disabled'')))"
    by (auto simp: demo_redfish_def demo_read_def q_def split: if_splits)
  have "x = Inr () \<and> nm_calls s' = nm_calls nm_init"
    using changeDbusObjectState_guarded [OF demo_messages_ok demo_readers_ok run] never by blast
  with run show ?thesis by (simp add: q_def nm_init_def)
qed

end
