(* ===== verification/Nm_Policies.thy ===== *)
theory Nm_Policies
  imports Nm_Common
begin

text \<open>
  \<open>policies_collection.hpp\<close>: the Redfish pages of Node Manager policies.  Reading a policy, creating,
  updating and deleting one, changing its state and resetting its statistics, each as the functions of
  the route handler and of the replies it waits for.
\<close>

section \<open>Tables\<close>

definition nmPolicyManager :: string where
  "nmPolicyManager = ''xyz.openbmc_project.NodeManager.PolicyManager''"
definition kPowerPolicyType :: string where "kPowerPolicyType = ''PowerPolicy''"
definition kHwProtectionDomainId :: string where "kHwProtectionDomainId = ''HWProtection''"

definition kPolicyStorageMap :: "int names_map" where
  "kPolicyStorageMap = [(0, ''Persistent''), (1, ''Volatile'')]"

definition kPowerCorrectionTypeMap :: "int names_map" where
  "kPowerCorrectionTypeMap = [(0, ''Auto''), (1, ''NonAggressive''), (2, ''Aggressive'')]"

definition kLimitExceptionMap :: "int names_map" where
  "kLimitExceptionMap = [(0, ''NoAction''), (1, ''HardPowerOff''), (2, ''LogEventOnly''), (3, ''Oem'')]"

definition kPolicyStateMap :: "bool names_map" where
  "kPolicyStateMap = [(False, ''Disabled''), (True, ''Enabled'')]"

definition kPolicyOemStateMap :: "int names_map" where
  "kPolicyOemStateMap = [(0, ''Pending''), (1, ''Disabled''), (2, ''Ready''), (3, ''Triggered''),
     (4, ''Selected''), (5, ''Suspended'')]"

text \<open>The enumeration of the policy states; \<open>to_PolicyState\<close> is the cast of a number that has a name in it.\<close>

datatype PolicyState = PS_pending | PS_disabled | PS_ready | PS_triggered | PS_selected | PS_suspended

definition to_PolicyState :: "int \<Rightarrow> PolicyState option" where
  "to_PolicyState i = map_of [(0, PS_pending), (1, PS_disabled), (2, PS_ready), (3, PS_triggered), (4, PS_selected),
     (5, PS_suspended)] i"

definition kPolicyStatesEnabled :: "int list" where
  "kPolicyStatesEnabled = [0, 2, 3, 4, 5]"

definition isPolicyStateEnabled :: "int \<Rightarrow> bool" where
  "isPolicyStateEnabled state \<longleftrightarrow> state \<in> set kPolicyStatesEnabled"

definition isPolicyReadOnly :: "dbus_props \<Rightarrow> bool" where
  "isPolicyReadOnly properties = (case getPropertyValue v_i32 properties ''Owner'' of
     Some owner \<Rightarrow> owner \<noteq> kPolicyOwnerBmc
   | None \<Rightarrow> False)"

definition isHwProtectionPolicy :: "dbus_props \<Rightarrow> bool" where
  "isHwProtectionPolicy properties = (case getPropertyValue v_string properties ''DomainId'' of
     Some domainId \<Rightarrow> domainId = kHwProtectionDomainId
   | None \<Rightarrow> False)"

section \<open>Reading a policy\<close>

definition getAttributes :: "string \<Rightarrow> ('q nm_state, unit) exm" where
  "getAttributes policyObjectPath =
     call kNodeManagerService policyObjectPath dbusProperties ''GetAll'' [A_string nmPolicyAttributes] K_getAttributes"

definition uint_json :: "'a::len word \<Rightarrow> json" where
  "uint_json x = J_int (uint x)"

fun seqE :: "('s, unit) exm list \<Rightarrow> ('s, unit) exm" where
  "seqE [] = ret ()"
| "seqE (m # ms) = thenE m (seqE ms)"

definition policyTypeAttributes :: "'q redfish_lib \<Rightarrow> dbus_props \<Rightarrow> string \<Rightarrow> ('q nm_state, unit) exm" where
  "policyTypeAttributes L properties policyType = thenE (put [''PolicyType''] (J_string policyType))
     (if policyType = kPowerPolicyType then seqE [
        parseProperty L v_u32 uint_json properties ''CorrectionInMs'',
        parseProperty_map L v_i32 properties ''PowerCorrectionType'' kPowerCorrectionTypeMap,
        parseProperty_map L v_i32 properties ''LimitException'' kLimitExceptionMap]
      else ret ())"

definition onGetAttributes :: "'q redfish_lib \<Rightarrow> int + dbus_props \<Rightarrow> ('q nm_state, unit) exm" where
  "onGetAttributes L reply = (case reply of
     Inl ec \<Rightarrow> send L M_internalError
   | Inr properties \<Rightarrow>
      (case getPropertyValue v_string properties ''Id'' of
         None \<Rightarrow> send L M_internalError
       | Some policyName \<Rightarrow> seqE [
           put [''@odata.id''] (J_string (redfishPolicies @ policyName)),
           put [''@odata.type''] (J_string ''#NmPolicy.v1_2_0.NmPolicy''),
           put [''Actions'', ''#NmPolicy.ResetStatistics''] (J_object [(''target'',
             J_string (redfishPolicies @ policyName @ ''/Actions/Policy.ResetStatistics''))]),
           (if isHwProtectionPolicy properties \<or> \<not> isPolicyReadOnly properties
            then put [''Actions'', ''#NmPolicy.ChangeState''] (J_object [
                (''State@Redfish.AllowableValues'', J_array [J_string ''Enabled'', J_string ''Disabled'']),
                (''target'', J_string (redfishPolicies @ policyName @ ''/Actions/Policy.ChangeState''))])
            else ret ()),
           put [''Thresholds'', ''ThresholdValue''] (J_array []),
           put [''SuspendPeriods''] (J_object []),
           parseProperty L v_u8 uint_json properties ''ComponentId'',
           parseProperty L v_u16 uint_json properties ''Limit'',
           parseProperty_map L v_i32 properties ''PolicyStorage'' kPolicyStorageMap,
           put [''Id''] (J_string policyName),
           put [''Name''] (J_string (''Policy'' @ policyName)),
           parseProperty_process L v_string properties ''PolicyType'' (policyTypeAttributes L properties),
           parseProperty_process L v_u16 properties ''StatisticsReportingPeriod''
             (\<lambda>s. put [''StatisticsReportingPeriod''] (J_string (seconds_string L (uint s)))),
           parseProperty_process L v_string properties ''DomainId'' (\<lambda>domainName.
             put [''Domain'', ''@odata.id'']
               (J_string (''/redfish/v1/Managers/bmc/Oem/Intel/NodeManager/Domains/'' @ domainName))),
           parseProperty_map_process L v_i32 properties ''PolicyState'' kPolicyOemStateMap
             (\<lambda>state. put [''OemStatus''] (J_string state)),
           parseProperty_process L v_i32 properties ''PolicyState'' (\<lambda>state.
             put [''Status'', ''State''] (J_string (if isPolicyStateEnabled state then ''Enabled'' else ''Disabled''))),
           parseProperty_process L v_string properties ''TriggerType'' (\<lambda>trigger.
             put [''Trigger'', ''TriggerType'', ''@odata.id'']
               (J_string (''/redfish/v1/Managers/bmc/Oem/Intel/NodeManager/Triggers/'' @ trigger))),
           parseProperty_process L v_u16 properties ''TriggerLimit'' (\<lambda>triggerLimit.
             put [''Trigger'', ''TriggerLimit''] (uint_json triggerLimit))]))"

section \<open>Deleting a policy\<close>

definition deletePolicy :: "string \<Rightarrow> ('q nm_state, unit) exm" where
  "deletePolicy policyId = asyncFindPolicies (FC_removePolicy policyId) (PR_idAndOwner policyId)"

definition removePolicy :: "'q redfish_lib \<Rightarrow> string \<Rightarrow> int + string list \<Rightarrow> ('q nm_state, unit) exm" where
  "removePolicy L policyId found = (case found of
     Inl ec \<Rightarrow> send L M_internalError
   | Inr paths \<Rightarrow> (case paths of
       [policyPath] \<Rightarrow> call kNodeManagerService policyPath ''xyz.openbmc_project.Object.Delete'' ''Delete'' [] (K_deletePolicy policyPath)
     | _ \<Rightarrow> send L (M_resourceNotFound ''Policies'' policyId)))"

definition onDeletePolicy :: "'q redfish_lib \<Rightarrow> string \<Rightarrow> int + unit \<Rightarrow> ('q nm_state, unit) exm" where
  "onDeletePolicy L policyPath reply = (case reply of
     Inl ec \<Rightarrow> (if to_ErrorCode ec = Some OperationNotPermitted then send L M_resourceCannotBeDeleted
               else send L (M_resourceNotFound ''Policies'' policyPath))
   | Inr _ \<Rightarrow> set_result http_no_content)"

section \<open>Parameters of a policy\<close>

definition convertAttributesToPolicyParams :: "dbus_props \<Rightarrow> PolicyParams option" where
  "convertAttributesToPolicyParams properties =
     (case (getPropertyValue v_u32 properties ''CorrectionInMs'', getPropertyValue v_u16 properties ''Limit'',
            getPropertyValue v_u16 properties ''StatisticsReportingPeriod'',
            getPropertyValue v_i32 properties ''PolicyStorage'',
            getPropertyValue v_i32 properties ''PowerCorrectionType'',
            getPropertyValue v_i32 properties ''LimitException'',
            getPropertyValue v_u8 properties ''ComponentId'', getPropertyValue v_u16 properties ''TriggerLimit'',
            getPropertyValue v_string properties ''TriggerType'') of
       (Some correctionInMs, Some limit, Some period, Some storage, Some correction, Some exception,
        Some componentId, Some triggerLimit, Some triggerType) \<Rightarrow>
         Some \<lparr>p_correctionInMs = correctionInMs, p_limit = limit, p_statReportingPeriod = period,
           p_policyStorage = storage, p_powerCorrectionType = correction, p_limitException = exception,
           p_suspendPeriods = [], p_thresholds = [], p_componentId = componentId,
           p_triggerLimit = triggerLimit, p_triggerType = triggerType\<rparr>
     | _ \<Rightarrow> None)"

definition update_enum :: "'q redfish_lib \<Rightarrow> string \<Rightarrow> int names_map \<Rightarrow> (int \<Rightarrow> PolicyParams \<Rightarrow> PolicyParams) \<Rightarrow>
    string option \<Rightarrow> PolicyParams \<Rightarrow> ('q nm_state, PolicyParams) exm" where
  "update_enum L name m setter v params = (case v of
     None \<Rightarrow> ret params
   | Some str \<Rightarrow> (case find_name m str of
       Some k \<Rightarrow> ret (setter k params)
     | None \<Rightarrow> thenE (send L (M_propertyValueIncorrect name str)) (ret params)))"

definition policyFields :: "jfield list" where
  "policyFields = [(''CorrectionInMs'', T_u32, False), (''Limit'', T_u16, False),
     (''StatisticsReportingPeriod'', T_string, False), (''PolicyStorage'', T_string, False),
     (''PowerCorrectionType'', T_string, False), (''LimitException'', T_string, False),
     (''ComponentId'', T_u8, False), (''Trigger'', T_json, False)]"

definition update_trigger :: "'q redfish_lib \<Rightarrow> json option \<Rightarrow> PolicyParams \<Rightarrow> ('q nm_state, PolicyParams) exm" where
  "update_trigger L trigger params = (case trigger of
     None \<Rightarrow> ret params
   | Some j \<Rightarrow> bindE (with_res (readJson L j [(''TriggerLimit'', T_u16, False), (''TriggerType'', T_string, False)]))
      (\<lambda>vo. case vo of
         None \<Rightarrow> thenE (send L M_malformedJSON) (ret params)
       | Some vals \<Rightarrow>
          (let p1 = (case as_u16 (vals ''TriggerLimit'') of Some x \<Rightarrow> params\<lparr>p_triggerLimit := x\<rparr> | None \<Rightarrow> params);
               p2 = (case as_string (vals ''TriggerType'') of Some x \<Rightarrow> p1\<lparr>p_triggerType := x\<rparr> | None \<Rightarrow> p1)
           in ret p2)))"

definition updatePolicyParamsWithJsonValues ::
    "'q redfish_lib \<Rightarrow> 'q \<Rightarrow> PolicyParams \<Rightarrow> ('q nm_state, PolicyParams) exm" where
  "updatePolicyParamsWithJsonValues L req policyParams =
     bindE (with_res (readJsonAction L req policyFields)) (\<lambda>vo. case vo of
       None \<Rightarrow> thenE (send L M_malformedJSON) (ret policyParams)
     | Some vals \<Rightarrow>
        (let p0 = (case as_u32 (vals ''CorrectionInMs'') of
               Some x \<Rightarrow> policyParams\<lparr>p_correctionInMs := x\<rparr> | None \<Rightarrow> policyParams);
             p1 = (case as_u16 (vals ''Limit'') of Some x \<Rightarrow> p0\<lparr>p_limit := x\<rparr> | None \<Rightarrow> p0)
         in bindE (case as_string (vals ''StatisticsReportingPeriod'') of
               None \<Rightarrow> ret p1
             | Some str \<Rightarrow> bindE (convertTimeString L str ''StatisticsReportingPeriod'')
                 (\<lambda>x. ret (p1\<lparr>p_statReportingPeriod := x\<rparr>)))
           (\<lambda>p2. bindE (update_enum L ''PolicyStorage'' kPolicyStorageMap
                 (\<lambda>k p. p\<lparr>p_policyStorage := k\<rparr>) (as_string (vals ''PolicyStorage'')) p2)
           (\<lambda>p3. bindE (update_enum L ''PowerCorrectionType'' kPowerCorrectionTypeMap
                 (\<lambda>k p. p\<lparr>p_powerCorrectionType := k\<rparr>) (as_string (vals ''PowerCorrectionType'')) p3)
           (\<lambda>p4. bindE (update_enum L ''LimitException'' kLimitExceptionMap
                 (\<lambda>k p. p\<lparr>p_limitException := k\<rparr>) (as_string (vals ''LimitException'')) p4)
           (\<lambda>p5. let p6 = (case as_u8 (vals ''ComponentId'') of Some x \<Rightarrow> p5\<lparr>p_componentId := x\<rparr> | None \<Rightarrow> p5)
             in update_trigger L (as_json (vals ''Trigger'')) p6))))))"

section \<open>Finding the object of a policy\<close>

text \<open>\<open>std::find_if\<close> with \<open>std::regex_search\<close>; the expression is compiled for every element, and
  compiling it may throw.\<close>

fun find_path :: "'q redfish_lib \<Rightarrow> string \<Rightarrow> string list \<Rightarrow> exn + string option" where
  "find_path L pattern [] = Inr None"
| "find_path L pattern (p # ps) = sum_bind (regex_search L pattern p) (\<lambda>b.
     if b then Inr (Some p) else find_path L pattern ps)"

text \<open>The list a reply handler works on: empty when the call failed.\<close>

definition reply_list :: "int + 'a list \<Rightarrow> 'a list" where
  "reply_list reply = (case reply of Inl ec \<Rightarrow> [] | Inr xs \<Rightarrow> xs)"

definition getPolicyObjectPath :: "string \<Rightarrow> 'q path_handler \<Rightarrow> ('q nm_state, unit) exm" where
  "getPolicyObjectPath policyName handler = call kObjectMapperService kObjectMapperObjectPath kObjectMapperService ''GetSubTreePaths''
     [A_string kNodeManagerObjectPath, A_int 0, A_strings [nmPolicyAttributes]] (K_policyObjectPath policyName handler)"

definition policyHandler :: "'q path_handler \<Rightarrow> string \<Rightarrow> ('q nm_state, unit) exm" where
  "policyHandler handler policyObjectPath = (case handler of
     PH_patchPolicy req policyName \<Rightarrow> call kNodeManagerService policyObjectPath dbusProperties ''GetAll'' [A_string nmPolicyAttributes]
       (K_patchPolicy req policyObjectPath)
   | PH_changePolicyState req policyName \<Rightarrow> call kNodeManagerService policyObjectPath dbusProperties ''GetAll''
       [A_string nmPolicyAttributes] (K_changePolicyState req policyObjectPath policyName)
   | PH_resetPolicyStatistics policyName \<Rightarrow> resetStatistics policyObjectPath
   | _ \<Rightarrow> ret ())"

definition onPolicyObjectPath ::
    "'q redfish_lib \<Rightarrow> string \<Rightarrow> 'q path_handler \<Rightarrow> int + string list \<Rightarrow> ('q nm_state, unit) exm" where
  "onPolicyObjectPath L policyName handler reply =
     thenE (if isl reply then send L M_internalError else ret ())
       (bindE (lift_sum (find_path L (''Policy/'' @ policyName @ ''$'') (reply_list reply))) (\<lambda>po. case po of
          None \<Rightarrow> send L (M_resourceNotFound ''Policies'' policyName)
        | Some policyObjectPath \<Rightarrow> policyHandler handler policyObjectPath))"

section \<open>Routes\<close>

text \<open>GET of the collection.\<close>

definition policies_get :: "('q nm_state, unit) exm" where
  "policies_get = thenE
     (put [] (J_object [(''@odata.type'', J_string ''#NmPolicyCollection.v1_0_0.NmPolicyCollection''),
       (''@odata.id'', J_string ''/redfish/v1/Managers/bmc/Oem/Intel/NodeManager/Policies''),
       (''Name'', J_string ''NM Policies Collection'')]))
     (asyncFindPolicies FC_addPolicies PR_none)"

definition addPolicies :: "'q redfish_lib \<Rightarrow> int + string list \<Rightarrow> ('q nm_state, unit) exm" where
  "addPolicies L found = (case found of
     Inl ec \<Rightarrow> send L M_internalError
   | Inr paths \<Rightarrow>
      (let members = dbusPoliciesPathsToLinks L paths in
       thenE (put [''Members''] members) (put [''Members@odata.count''] (J_int (int (json_size members))))))"

text \<open>GET of one policy.\<close>

definition policy_get :: "string \<Rightarrow> ('q nm_state, unit) exm" where
  "policy_get policyName = call kObjectMapperService kObjectMapperObjectPath kObjectMapperService ''GetSubTreePaths''
     [A_string kNodeManagerObjectPath, A_int 0, A_strings [nmPolicyAttributes]] (K_getPolicy policyName)"

definition onGetPolicy :: "'q redfish_lib \<Rightarrow> string \<Rightarrow> int + string list \<Rightarrow> ('q nm_state, unit) exm" where
  "onGetPolicy L policyName reply =
     thenE (if isl reply then send L M_internalError else ret ())
       (bindE (lift_sum (find_path L (''Policy/'' @ policyName @ ''$'') (reply_list reply))) (\<lambda>po. case po of
          None \<Rightarrow> send L (M_resourceNotFound ''Policies'' policyName)
        | Some policyObjectPath \<Rightarrow> thenE (getAttributes policyObjectPath) (getStatistics policyObjectPath)))"

definition policy_delete :: "'q redfish_lib \<Rightarrow> string \<Rightarrow> ('q nm_state, unit) exm" where
  "policy_delete L policyName = (if policyName = [] then send L M_internalError else deletePolicy policyName)"

definition policy_patch :: "'q \<Rightarrow> string \<Rightarrow> ('q nm_state, unit) exm" where
  "policy_patch req policyName = getPolicyObjectPath policyName (PH_patchPolicy req policyName)"

definition onPatchPolicy :: "'q redfish_lib \<Rightarrow> 'q \<Rightarrow> string \<Rightarrow> int + dbus_props \<Rightarrow> ('q nm_state, unit) exm" where
  "onPatchPolicy L req policyObjectPath reply = (case reply of
     Inl ec \<Rightarrow> send L M_internalError
   | Inr properties \<Rightarrow>
      (if isPolicyReadOnly properties then send L M_operationNotAllowed
       else case convertAttributesToPolicyParams properties of
         None \<Rightarrow> send L M_internalError
       | Some params0 \<Rightarrow> bindE (updatePolicyParamsWithJsonValues L req params0) (\<lambda>policyParams.
           bindE (gets (\<lambda>s. r_result (nm_res s))) (\<lambda>result.
             if result \<noteq> http_ok then ret ()
             else call kNodeManagerService policyObjectPath nmPolicyAttributes ''Update'' [A_params policyParams]
               (K_policyUpdated req policyObjectPath)))))"

definition onPolicyUpdated :: "'q redfish_lib \<Rightarrow> 'q \<Rightarrow> string \<Rightarrow> int + unit \<Rightarrow> ('q nm_state, unit) exm" where
  "onPolicyUpdated L req policyObjectPath reply = (case reply of
     Inl ec \<Rightarrow> dbusErrorToBmcwebMessage L req ec (Some policyObjectPath)
   | Inr _ \<Rightarrow> thenE (getAttributes policyObjectPath) (getStatistics policyObjectPath))"

definition policy_changeState :: "'q \<Rightarrow> string \<Rightarrow> ('q nm_state, unit) exm" where
  "policy_changeState req policyName = getPolicyObjectPath policyName (PH_changePolicyState req policyName)"

definition onChangePolicyState ::
    "'q redfish_lib \<Rightarrow> 'q \<Rightarrow> string \<Rightarrow> string \<Rightarrow> int + dbus_props \<Rightarrow> ('q nm_state, unit) exm" where
  "onChangePolicyState L req policyObjectPath policyName reply = (case reply of
     Inl ec \<Rightarrow> send L M_internalError
   | Inr properties \<Rightarrow>
      (if \<not> isHwProtectionPolicy properties \<and> isPolicyReadOnly properties then send L M_operationNotAllowed
       else changeDbusObjectState L req policyName ''Policy.ChangeState'' policyObjectPath))"

definition policy_resetStatistics :: "string \<Rightarrow> ('q nm_state, unit) exm" where
  "policy_resetStatistics policyName = getPolicyObjectPath policyName (PH_resetPolicyStatistics policyName)"

text \<open>POST to the collection.\<close>

definition createFields :: "jfield list" where
  "createFields = [(''CorrectionInMs'', T_u32, True), (''Limit'', T_u16, True),
     (''StatisticsReportingPeriod'', T_string, True), (''PolicyStorage'', T_string, True),
     (''PowerCorrectionType'', T_string, True), (''LimitException'', T_string, True),
     (''ComponentId'', T_u8, True), (''Trigger'', T_json, True), (''Domain'', T_string, True),
     (''Id'', T_string, True), (''Status'', T_json, True)]"

definition createPolicy :: "'q redfish_lib \<Rightarrow> 'q \<Rightarrow> (string \<Rightarrow> jval option) \<Rightarrow> (string \<Rightarrow> jval option) \<Rightarrow>
    (string \<Rightarrow> jval option) \<Rightarrow> ('q nm_state, unit) exm" where
  "createPolicy L req vals trig stat =
     bindE (need (as_string (vals ''StatisticsReportingPeriod''))) (\<lambda>periodStr.
     bindE (need (as_string (vals ''PolicyStorage''))) (\<lambda>storageStr.
     bindE (need (as_string (vals ''PowerCorrectionType''))) (\<lambda>correctionStr.
     bindE (need (as_string (vals ''LimitException''))) (\<lambda>exceptionStr.
     bindE (need (as_string (stat ''State''))) (\<lambda>stateStr.
     bindE (convertTimeString L periodStr ''StatisticsReportingPeriod'') (\<lambda>period.
     bindE (convertStringToEnum L 0 storageStr ''PolicyStorage'' kPolicyStorageMap) (\<lambda>storage.
     bindE (convertStringToEnum L 0 correctionStr ''PowerCorrectionType'' kPowerCorrectionTypeMap) (\<lambda>correction.
     bindE (convertStringToEnum L 0 exceptionStr ''LimitException'' kLimitExceptionMap) (\<lambda>exception.
     bindE (convertStringToEnum L False stateStr ''State'' kPolicyStateMap) (\<lambda>state.
     bindE (gets (\<lambda>s. r_result (nm_res s))) (\<lambda>result.
       if result \<noteq> http_ok then ret ()
       else
         bindE (need (as_u32 (vals ''CorrectionInMs''))) (\<lambda>correctionInMs.
         bindE (need (as_u16 (vals ''Limit''))) (\<lambda>limit.
         bindE (need (as_u8 (vals ''ComponentId''))) (\<lambda>componentId.
         bindE (need (as_string (vals ''Domain''))) (\<lambda>domain.
         bindE (need (as_string (vals ''Id''))) (\<lambda>policyId.
         bindE (need (as_u16 (trig ''TriggerLimit''))) (\<lambda>triggerLimit.
         bindE (need (as_string (trig ''TriggerType''))) (\<lambda>triggerType.
           call kNodeManagerService (getDomainDbusPath domain) nmPolicyManager ''CreateWithId''
             [A_string policyId, A_params \<lparr>p_correctionInMs = correctionInMs, p_limit = limit,
                p_statReportingPeriod = period, p_policyStorage = storage, p_powerCorrectionType = correction,
                p_limitException = exception, p_suspendPeriods = [], p_thresholds = [],
                p_componentId = componentId, p_triggerLimit = triggerLimit, p_triggerType = triggerType\<rparr>]
             (K_policyCreated req state)))))))))))))))))))"

definition policies_post :: "'q redfish_lib \<Rightarrow> 'q \<Rightarrow> ('q nm_state, unit) exm" where
  "policies_post L req = bindE (with_res (readJsonAction L req createFields)) (\<lambda>vo. case vo of
     None \<Rightarrow> ret ()
   | Some vals \<Rightarrow> bindE (need (as_json (vals ''Trigger''))) (\<lambda>trigger.
      bindE (with_res (readJson L trigger [(''TriggerLimit'', T_u16, True), (''TriggerType'', T_string, True)]))
        (\<lambda>to. case to of
           None \<Rightarrow> ret ()
         | Some trig \<Rightarrow> bindE (need (as_json (vals ''Status''))) (\<lambda>status.
            bindE (with_res (readJson L status [(''State'', T_string, True)])) (\<lambda>so. case so of
              None \<Rightarrow> ret ()
            | Some stat \<Rightarrow> createPolicy L req vals trig stat)))))"

definition onPolicyCreated :: "'q redfish_lib \<Rightarrow> 'q \<Rightarrow> bool \<Rightarrow> int + string \<Rightarrow> ('q nm_state, unit) exm" where
  "onPolicyCreated L req state reply = (case reply of
     Inl ec \<Rightarrow> dbusErrorToBmcwebMessage L req ec (Some [])
   | Inr policyObjectPath \<Rightarrow> thenE (send L M_created)
      (thenE (if state then call kNodeManagerService policyObjectPath dbusProperties ''Set''
            [A_string objectEnable, A_string ''Enabled'', A_variant (DV_bool True)] K_policyEnabled else ret ())
         (thenE (getAttributes policyObjectPath) (getStatistics policyObjectPath))))"

definition onPolicyEnabled :: "'q redfish_lib \<Rightarrow> int + unit \<Rightarrow> ('q nm_state, unit) exm" where
  "onPolicyEnabled L reply = (case reply of Inl ec \<Rightarrow> send L M_internalError | Inr _ \<Rightarrow> ret ())"

section \<open>The contract of an object lookup\<close>

text \<open>
  Three handlers look for the object of a name in the reply of the object mapper: the reply may be an
  error, the object may be missing, and compiling the expression may throw.
\<close>

definition found_at :: "'q redfish_lib \<Rightarrow> string \<Rightarrow> string list \<Rightarrow> string option" where
  "found_at L pattern objects = find (\<lambda>p. regex_search L pattern p = Inr True) objects"

lemma find_path_found:
  "list_all (\<lambda>p. \<not> isl (regex_search L pattern p)) objects \<Longrightarrow> find_path L pattern objects = Inr (found_at L pattern objects)"
proof (induction objects)
  case Nil
  then show ?case by (simp add: found_at_def)
next
  case (Cons p ps)
  then obtain b where "regex_search L pattern p = Inr b"
    by (cases "regex_search L pattern p") auto
  with Cons show ?case by (simp add: found_at_def)
qed

lemma found_at_mem: "found_at L pattern objects = Some p \<Longrightarrow> p \<in> set objects \<and> regex_search L pattern p = Inr True"
  by (auto simp: found_at_def find_Some_iff)

locale object_lookup =
  fixes look :: "'q redfish_lib \<Rightarrow> string \<Rightarrow> 'h \<Rightarrow> int + string list \<Rightarrow> ('q nm_state, unit) exm"
    and pattern :: "string \<Rightarrow> string"
    and kind :: string
    and handler :: "'q redfish_lib \<Rightarrow> 'h \<Rightarrow> string \<Rightarrow> ('q nm_state, unit) exm"
  assumes look: "look L n h reply = thenE (if isl reply then send L M_internalError else ret ())
    (bindE (lift_sum (find_path L (pattern n) (reply_list reply))) (\<lambda>po. case po of
       None \<Rightarrow> send L (M_resourceNotFound kind n) | Some p \<Rightarrow> handler L h p))"
begin

lemma look_failed:
  "look L n h (Inl ec) = thenE (send L M_internalError) (send L (M_resourceNotFound kind n))"
  by (simp add: look reply_list_def fun_eq_iff bindE_lift_sum thenE_ret)

lemma look_done:
  assumes "list_all (\<lambda>p. \<not> isl (regex_search L (pattern n) p)) objects"
  shows "look L n h (Inr objects) = (case found_at L (pattern n) objects of
    None \<Rightarrow> send L (M_resourceNotFound kind n) | Some p \<Rightarrow> handler L h p)"
  by (simp add: look reply_list_def find_path_found [OF assms] fun_eq_iff bindE_lift_sum thenE_ret)

end

section \<open>The tables obey the contract\<close>

interpretation storage: name_table kPolicyStorageMap
  by unfold_locales (simp_all add: kPolicyStorageMap_def)

interpretation correction: name_table kPowerCorrectionTypeMap
  by unfold_locales (simp_all add: kPowerCorrectionTypeMap_def)

interpretation exception: name_table kLimitExceptionMap
  by unfold_locales (simp_all add: kLimitExceptionMap_def)

interpretation pstate: name_table kPolicyStateMap
  by unfold_locales (simp_all add: kPolicyStateMap_def)

interpretation oemstate: name_table kPolicyOemStateMap
  by unfold_locales (simp_all add: kPolicyOemStateMap_def)

text \<open>Both lookups of a policy are instances of the lookup.\<close>

interpretation policy_lookup: object_lookup onPolicyObjectPath "\<lambda>n. ''Policy/'' @ n @ ''$''" "''Policies''"
    "\<lambda>L h p. policyHandler h p"
  by unfold_locales (simp add: onPolicyObjectPath_def)

interpretation policy_page: object_lookup "\<lambda>L n h. onGetPolicy L n" "\<lambda>n. ''Policy/'' @ n @ ''$''" "''Policies''"
    "\<lambda>L (h :: unit) p. thenE (getAttributes p) (getStatistics p)"
  by unfold_locales (simp add: onGetPolicy_def)

section \<open>Lemmas\<close>

lemma convertStringToEnum_run:
  assumes "messages_ok L"
  shows "\<exists>k s'. convertStringToEnum L zero str name m s = (Inr k, s') \<and> nm_calls s' = nm_calls s \<and>
    (find_name m str = Some k \<and> s' = s \<or> find_name m str = None \<and> k = zero \<and> r_result (nm_res s') \<noteq> http_ok)"
  using assms
  by (auto simp: convertStringToEnum_def thenE_apply send_apply add_message_def messages_ok_def split: option.splits)

lemma convertTimeString_run:
  assumes "messages_ok L"
  shows "\<exists>k s'. convertTimeString L str name s = (Inr k, s') \<and> nm_calls s' = nm_calls s \<and>
    (s' = s \<and> (\<exists>ms. fromDurationString L str = Some ms \<and> ms_to_seconds ms \<le> 65535 \<and> k = word_of_int (ms_to_seconds ms))
     \<or> k = 0 \<and> r_result (nm_res s') \<noteq> http_ok)"
  using assms
  by (auto simp: convertTimeString_def thenE_apply send_apply add_message_def messages_ok_def split: option.splits)

lemma keeps_convertTime_calls [keeps_intro]: "keeps (same_calls c) (convertTimeString L str name)"
  unfolding convertTimeString_def by (intro keeps_intro)

lemma keeps_update_enum_calls [keeps_intro]: "keeps (same_calls c) (update_enum L name m f v p)"
  unfolding update_enum_def by (intro keeps_intro)

lemma keeps_update_trigger_calls [keeps_intro]: "keeps (same_calls c) (update_trigger L v p)"
  unfolding update_trigger_def by (intro keeps_intro)

lemma keeps_update_calls [keeps_intro]: "keeps (same_calls c) (updatePolicyParamsWithJsonValues L req p)"
  unfolding updatePolicyParamsWithJsonValues_def Let_def by (intro keeps_intro)

text \<open>While the response has status OK, no message has been added.\<close>

lemma keeps_update_quiet:
  assumes "messages_ok L" and "readers_ok L"
  shows "keeps (quiet_if_ok ms) (updatePolicyParamsWithJsonValues L req p)"
  using assms
  unfolding updatePolicyParamsWithJsonValues_def Let_def update_enum_def update_trigger_def convertTimeString_def
    readers_ok_def
  by (intro keeps_intro keeps_send_quiet keeps_reader_quiet) simp_all

lemma nothrow_update [nothrow_intro]: "nothrow (updatePolicyParamsWithJsonValues L req p)"
  unfolding updatePolicyParamsWithJsonValues_def Let_def update_enum_def update_trigger_def convertTimeString_def
  by (intro nothrow_intro)

text \<open>What the update makes of each field, when the request is read and no message is added.\<close>

definition updated_field :: "'b \<Rightarrow> ('a \<Rightarrow> 'b option) \<Rightarrow> 'a option \<Rightarrow> 'b \<Rightarrow> bool" where
  "updated_field old conv v new \<longleftrightarrow> (case v of None \<Rightarrow> new = old | Some a \<Rightarrow> conv a = Some new)"

definition seconds_of :: "'q redfish_lib \<Rightarrow> string \<Rightarrow> u16 option" where
  "seconds_of L str = (case fromDurationString L str of
     Some ms \<Rightarrow> (if ms_to_seconds ms \<le> 65535 then Some (word_of_int (ms_to_seconds ms)) else None)
   | None \<Rightarrow> None)"

lemma stat_step:
  assumes "messages_ok L"
    and "(case v of None \<Rightarrow> ret p | Some str \<Rightarrow> bindE (convertTimeString L str n)
           (\<lambda>x. ret (p\<lparr>p_statReportingPeriod := x\<rparr>))) s = (Inr p', s')"
  shows "(\<exists>x. p' = p\<lparr>p_statReportingPeriod := x\<rparr>) \<and>
    (r_result (nm_res s') = http_ok \<longrightarrow> s' = s \<and>
       updated_field (p_statReportingPeriod p) (seconds_of L) v (p_statReportingPeriod p'))"
  using assms
  by (auto simp: updated_field_def seconds_of_def convertTimeString_def bindE_apply thenE_apply send_apply
      add_message_def messages_ok_def split: option.splits if_splits)
     (metis PolicyParams.surjective PolicyParams.update_convs(3))+

lemma enum_step:
  assumes "messages_ok L" and "update_enum L name m (\<lambda>k p. upd k p) v p s = (Inr p', s')"
  shows "(p' = p \<or> (\<exists>k. p' = upd k p)) \<and> (r_result (nm_res s') = http_ok \<longrightarrow> s' = s \<and>
    (case v of None \<Rightarrow> p' = p | Some str \<Rightarrow> \<exists>k. find_name m str = Some k \<and> p' = upd k p))"
  using assms
  by (auto simp: update_enum_def thenE_apply send_apply add_message_def messages_ok_def split: option.splits)

definition triggerFields :: "jfield list" where
  "triggerFields = [(''TriggerLimit'', T_u16, False), (''TriggerType'', T_string, False)]"

lemma trigger_step:
  assumes "messages_ok L" and "readers_ok L" and "update_trigger L v p s = (Inr p', s')"
  shows "r_result (nm_res s') = http_ok \<longrightarrow> s' = s \<and>
    (\<exists>tl tt. p' = p\<lparr>p_triggerLimit := tl, p_triggerType := tt\<rparr> \<and>
      (case v of None \<Rightarrow> tl = p_triggerLimit p \<and> tt = p_triggerType p
       | Some j \<Rightarrow> (\<exists>vals. readJson L j triggerFields (nm_res s) = (Some vals, nm_res s) \<and>
           updated_field (p_triggerLimit p) Some (as_u16 (vals ''TriggerLimit'')) tl \<and>
           updated_field (p_triggerType p) Some (as_string (vals ''TriggerType'')) tt)))"
proof (cases v)
  case None
  with assms(3) show ?thesis
    by (auto simp: update_trigger_def intro!: exI [of _ "p_triggerLimit p"] exI [of _ "p_triggerType p"])
next
  case (Some j)
  obtain vo r where rd: "readJson L j triggerFields (nm_res s) = (vo, r)" by fastforce
  have ok: "case vo of Some vals \<Rightarrow> r = nm_res s \<and> list_all (field_read vals) triggerFields
      | None \<Rightarrow> r_result r \<noteq> http_ok"
    using assms(2) rd unfolding readers_ok_def reader_ok_def by blast
  show ?thesis
  proof (cases vo)
    case None
    with assms(1,3) Some rd show ?thesis
      by (auto simp: update_trigger_def triggerFields_def bindE_apply thenE_apply with_res_def send_apply
          add_message_def messages_ok_def)
  next
    case (Some vals)
    define p1 where "p1 = (case as_u16 (vals ''TriggerLimit'') of Some x \<Rightarrow> p\<lparr>p_triggerLimit := x\<rparr> | None \<Rightarrow> p)"
    define p2 where "p2 = (case as_string (vals ''TriggerType'') of Some x \<Rightarrow> p1\<lparr>p_triggerType := x\<rparr> | None \<Rightarrow> p1)"
    have run: "p' = p2" "s' = s"
      using assms(3) \<open>v = Some j\<close> rd Some ok unfolding p2_def p1_def
      by (auto simp: update_trigger_def triggerFields_def bindE_apply with_res_def Let_def)
    have "p2 = p\<lparr>p_triggerLimit := p_triggerLimit p2, p_triggerType := p_triggerType p2\<rparr>"
      by (simp add: p2_def p1_def split: option.splits)
    moreover have "updated_field (p_triggerLimit p) Some (as_u16 (vals ''TriggerLimit'')) (p_triggerLimit p2)"
      "updated_field (p_triggerType p) Some (as_string (vals ''TriggerType'')) (p_triggerType p2)"
      by (auto simp: p2_def p1_def updated_field_def split: option.splits)
    ultimately show ?thesis
      using run rd Some ok \<open>v = Some j\<close>
      by (intro impI conjI exI [of _ "p_triggerLimit p2"] exI [of _ "p_triggerType p2"]) auto
  qed
qed

text \<open>The fields of an update, from the values the request was read as.\<close>

definition update_spec ::
    "'q redfish_lib \<Rightarrow> response \<Rightarrow> (string \<Rightarrow> jval option) \<Rightarrow> PolicyParams \<Rightarrow> PolicyParams \<Rightarrow> bool" where
  "update_spec L r vals p p' \<longleftrightarrow>
     updated_field (p_correctionInMs p) Some (as_u32 (vals ''CorrectionInMs'')) (p_correctionInMs p') \<and>
     updated_field (p_limit p) Some (as_u16 (vals ''Limit'')) (p_limit p') \<and>
     updated_field (p_statReportingPeriod p) (seconds_of L) (as_string (vals ''StatisticsReportingPeriod''))
       (p_statReportingPeriod p') \<and>
     updated_field (p_policyStorage p) (find_name kPolicyStorageMap) (as_string (vals ''PolicyStorage''))
       (p_policyStorage p') \<and>
     updated_field (p_powerCorrectionType p) (find_name kPowerCorrectionTypeMap)
       (as_string (vals ''PowerCorrectionType'')) (p_powerCorrectionType p') \<and>
     updated_field (p_limitException p) (find_name kLimitExceptionMap) (as_string (vals ''LimitException''))
       (p_limitException p') \<and>
     updated_field (p_componentId p) Some (as_u8 (vals ''ComponentId'')) (p_componentId p') \<and>
     p_suspendPeriods p' = p_suspendPeriods p \<and> p_thresholds p' = p_thresholds p \<and>
     (case as_json (vals ''Trigger'') of
        None \<Rightarrow> p_triggerLimit p' = p_triggerLimit p \<and> p_triggerType p' = p_triggerType p
      | Some j \<Rightarrow> (\<exists>tvals. readJson L j triggerFields r = (Some tvals, r) \<and>
          updated_field (p_triggerLimit p) Some (as_u16 (tvals ''TriggerLimit'')) (p_triggerLimit p') \<and>
          updated_field (p_triggerType p) Some (as_string (tvals ''TriggerType'')) (p_triggerType p')))"

lemma update_spec_holds:
  assumes M: "messages_ok L" and R: "readers_ok L"
    and run: "updatePolicyParamsWithJsonValues L req p s = (Inr p', s')" and ok: "r_result (nm_res s') = http_ok"
  shows "s' = s \<and> (\<exists>vals. readJsonAction L req policyFields (nm_res s) = (Some vals, nm_res s) \<and>
    update_spec L (nm_res s) vals p p')"
proof -
  obtain vo r where rd: "readJsonAction L req policyFields (nm_res s) = (vo, r)" by fastforce
  have rok: "case vo of Some vals \<Rightarrow> r = nm_res s \<and> list_all (field_read vals) policyFields
      | None \<Rightarrow> r_result r \<noteq> http_ok"
    using R rd unfolding readers_ok_def reader_ok_def by blast
  show ?thesis
  proof (cases vo)
    case None
    with run rd M ok show ?thesis
      by (auto simp: updatePolicyParamsWithJsonValues_def bindE_apply thenE_apply with_res_def send_apply
          add_message_def messages_ok_def)
  next
    case (Some vals)
    with rok have r: "s\<lparr>nm_res := r\<rparr> = s" by simp
    define p0 where "p0 = (case as_u32 (vals ''CorrectionInMs'') of Some x \<Rightarrow> p\<lparr>p_correctionInMs := x\<rparr> | None \<Rightarrow> p)"
    define p1 where "p1 = (case as_u16 (vals ''Limit'') of Some x \<Rightarrow> p0\<lparr>p_limit := x\<rparr> | None \<Rightarrow> p0)"
    from run rd Some r obtain p2 s2 p3 s3 p4 s4 p5 s5 where
      2: "(case as_string (vals ''StatisticsReportingPeriod'') of None \<Rightarrow> ret p1
        | Some str \<Rightarrow> bindE (convertTimeString L str ''StatisticsReportingPeriod'')
            (\<lambda>x. ret (p1\<lparr>p_statReportingPeriod := x\<rparr>))) s = (Inr p2, s2)"
      and 3: "update_enum L ''PolicyStorage'' kPolicyStorageMap (\<lambda>k p. p\<lparr>p_policyStorage := k\<rparr>)
        (as_string (vals ''PolicyStorage'')) p2 s2 = (Inr p3, s3)"
      and 4: "update_enum L ''PowerCorrectionType'' kPowerCorrectionTypeMap
        (\<lambda>k p. p\<lparr>p_powerCorrectionType := k\<rparr>) (as_string (vals ''PowerCorrectionType'')) p3 s3 = (Inr p4, s4)"
      and 5: "update_enum L ''LimitException'' kLimitExceptionMap
        (\<lambda>k p. p\<lparr>p_limitException := k\<rparr>) (as_string (vals ''LimitException'')) p4 s4 = (Inr p5, s5)"
      and 6: "update_trigger L (as_json (vals ''Trigger''))
        (case as_u8 (vals ''ComponentId'') of Some x \<Rightarrow> p5\<lparr>p_componentId := x\<rparr> | None \<Rightarrow> p5) s5 = (Inr p', s')"
      unfolding p1_def p0_def
      by (auto simp: updatePolicyParamsWithJsonValues_def bindE_Inr_iff with_res_def Let_def)
    note t6 = trigger_step [OF M R 6]
    with ok have e5: "s' = s5" "r_result (nm_res s5) = http_ok" by simp_all
    note t5 = enum_step [OF M 5]
    with e5 have e4: "s5 = s4" "r_result (nm_res s4) = http_ok" by simp_all
    note t4 = enum_step [OF M 4]
    with e4 have e3: "s4 = s3" "r_result (nm_res s3) = http_ok" by simp_all
    note t3 = enum_step [OF M 3]
    with e3 have e2: "s3 = s2" "r_result (nm_res s2) = http_ok" by simp_all
    note t2 = stat_step [OF M 2]
    with e2 have e1: "s2 = s" by simp
    have same: "s' = s" using e1 e2 e3 e4 e5 by simp
    define p6 where "p6 = (case as_u8 (vals ''ComponentId'') of Some x \<Rightarrow> p5\<lparr>p_componentId := x\<rparr> | None \<Rightarrow> p5)"
    obtain tl tt where p': "p' = p6\<lparr>p_triggerLimit := tl, p_triggerType := tt\<rparr>"
      and trig: "case as_json (vals ''Trigger'') of None \<Rightarrow> tl = p_triggerLimit p6 \<and> tt = p_triggerType p6
       | Some j \<Rightarrow> (\<exists>vals. readJson L j triggerFields (nm_res s) = (Some vals, nm_res s) \<and>
           updated_field (p_triggerLimit p6) Some (as_u16 (vals ''TriggerLimit'')) tl \<and>
           updated_field (p_triggerType p6) Some (as_string (vals ''TriggerType'')) tt)"
      using t6 ok e1 e2 e3 e4 e5 unfolding p6_def [symmetric] by auto
    have 2: "\<exists>x. p2 = p1\<lparr>p_statReportingPeriod := x\<rparr>"
      "updated_field (p_statReportingPeriod p1) (seconds_of L) (as_string (vals ''StatisticsReportingPeriod''))
         (p_statReportingPeriod p2)"
      using t2 e2 by auto
    have 3: "case as_string (vals ''PolicyStorage'') of None \<Rightarrow> p3 = p2
        | Some str \<Rightarrow> \<exists>k. find_name kPolicyStorageMap str = Some k \<and> p3 = p2\<lparr>p_policyStorage := k\<rparr>"
      using t3 e3 by auto
    have 4: "case as_string (vals ''PowerCorrectionType'') of None \<Rightarrow> p4 = p3
        | Some str \<Rightarrow> \<exists>k. find_name kPowerCorrectionTypeMap str = Some k \<and> p4 = p3\<lparr>p_powerCorrectionType := k\<rparr>"
      using t4 e4 by auto
    have 5: "case as_string (vals ''LimitException'') of None \<Rightarrow> p5 = p4
        | Some str \<Rightarrow> \<exists>k. find_name kLimitExceptionMap str = Some k \<and> p5 = p4\<lparr>p_limitException := k\<rparr>"
      using t5 e5 by auto
    have f0: "p_correctionInMs p0 = (case as_u32 (vals ''CorrectionInMs'') of Some x \<Rightarrow> x | None \<Rightarrow> p_correctionInMs p)"
      "p0 = p\<lparr>p_correctionInMs := p_correctionInMs p0\<rparr>"
      by (simp_all add: p0_def split: option.splits)
    have f1: "p_limit p1 = (case as_u16 (vals ''Limit'') of Some x \<Rightarrow> x | None \<Rightarrow> p_limit p0)"
      "p1 = p0\<lparr>p_limit := p_limit p1\<rparr>"
      by (simp_all add: p1_def split: option.splits)
    have f6: "p_componentId p6 = (case as_u8 (vals ''ComponentId'') of Some x \<Rightarrow> x | None \<Rightarrow> p_componentId p5)"
      "p6 = p5\<lparr>p_componentId := p_componentId p6\<rparr>"
      by (simp_all add: p6_def split: option.splits)
    obtain x where g2: "p2 = p1\<lparr>p_statReportingPeriod := x\<rparr>" using 2 by blast
    have g3: "p3 = p2\<lparr>p_policyStorage := p_policyStorage p3\<rparr>"
      "updated_field (p_policyStorage p2) (find_name kPolicyStorageMap) (as_string (vals ''PolicyStorage'')) (p_policyStorage p3)"
      using 3 by (auto simp: updated_field_def split: option.splits)
    have g4: "p4 = p3\<lparr>p_powerCorrectionType := p_powerCorrectionType p4\<rparr>"
      "updated_field (p_powerCorrectionType p3) (find_name kPowerCorrectionTypeMap)
         (as_string (vals ''PowerCorrectionType'')) (p_powerCorrectionType p4)"
      using 4 by (auto simp: updated_field_def split: option.splits)
    have g5: "p5 = p4\<lparr>p_limitException := p_limitException p5\<rparr>"
      "updated_field (p_limitException p4) (find_name kLimitExceptionMap) (as_string (vals ''LimitException''))
         (p_limitException p5)"
      using 5 by (auto simp: updated_field_def split: option.splits)
    define a b d e f g where "a = p_correctionInMs p0" and "b = p_limit p1" and "d = p_policyStorage p3"
      and "e = p_powerCorrectionType p4" and "f = p_limitException p5" and "g = p_componentId p6"
    have q: "p0 = p\<lparr>p_correctionInMs := a\<rparr>" "p1 = p0\<lparr>p_limit := b\<rparr>" "p3 = p2\<lparr>p_policyStorage := d\<rparr>"
      "p4 = p3\<lparr>p_powerCorrectionType := e\<rparr>" "p5 = p4\<lparr>p_limitException := f\<rparr>" "p6 = p5\<lparr>p_componentId := g\<rparr>"
      using f0(2) f1(2) g3(1) g4(1) g5(1) f6(2) by (simp_all add: a_def b_def d_def e_def f_def g_def)
    have chain: "p' = p\<lparr>p_correctionInMs := a, p_limit := b, p_statReportingPeriod := x, p_policyStorage := d,
        p_powerCorrectionType := e, p_limitException := f, p_componentId := g, p_triggerLimit := tl, p_triggerType := tt\<rparr>"
      by (simp add: p' q g2)
    have "updated_field (p_correctionInMs p) Some (as_u32 (vals ''CorrectionInMs'')) a"
      using f0(1) by (simp add: a_def updated_field_def split: option.splits)
    moreover have "updated_field (p_limit p) Some (as_u16 (vals ''Limit'')) b"
      using f1(1) q(1) by (simp add: b_def [symmetric] updated_field_def split: option.splits)
    moreover have "updated_field (p_componentId p) Some (as_u8 (vals ''ComponentId'')) g"
      using f6(1) q g2 by (simp add: g_def [symmetric] updated_field_def split: option.splits)
    moreover have "updated_field (p_statReportingPeriod p) (seconds_of L) (as_string (vals ''StatisticsReportingPeriod'')) x"
      using 2(2) q(1,2) g2 by simp
    moreover have "updated_field (p_policyStorage p) (find_name kPolicyStorageMap) (as_string (vals ''PolicyStorage'')) d"
      using g3(2) q(1,2) g2 by (simp add: d_def)
    moreover have "updated_field (p_powerCorrectionType p) (find_name kPowerCorrectionTypeMap)
         (as_string (vals ''PowerCorrectionType'')) e"
      using g4(2) q(1-3) g2 by (simp add: e_def)
    moreover have "updated_field (p_limitException p) (find_name kLimitExceptionMap) (as_string (vals ''LimitException'')) f"
      using g5(2) q(1-4) g2 by (simp add: f_def)
    moreover have "p_triggerLimit p6 = p_triggerLimit p" "p_triggerType p6 = p_triggerType p"
      by (simp_all add: q g2)
    ultimately have "update_spec L (nm_res s) vals p p'"
      using trig unfolding update_spec_def chain by (auto split: option.splits)
    with same rd Some rok show ?thesis by auto
  qed
qed

text \<open>A request that repeats, for any selection of fields, what the page of the policy shows.\<close>

definition repeats :: "'q redfish_lib \<Rightarrow> response \<Rightarrow> (string \<Rightarrow> jval option) \<Rightarrow> PolicyParams \<Rightarrow> bool" where
  "repeats L r vals p \<longleftrightarrow>
     as_u32 (vals ''CorrectionInMs'') \<in> {None, Some (p_correctionInMs p)} \<and>
     as_u16 (vals ''Limit'') \<in> {None, Some (p_limit p)} \<and>
     as_string (vals ''StatisticsReportingPeriod'') \<in> {None, Some (seconds_string L (uint (p_statReportingPeriod p)))} \<and>
     as_string (vals ''PolicyStorage'') \<in> {None, map_of kPolicyStorageMap (p_policyStorage p)} \<and>
     as_string (vals ''PowerCorrectionType'') \<in> {None, map_of kPowerCorrectionTypeMap (p_powerCorrectionType p)} \<and>
     as_string (vals ''LimitException'') \<in> {None, map_of kLimitExceptionMap (p_limitException p)} \<and>
     as_u8 (vals ''ComponentId'') \<in> {None, Some (p_componentId p)} \<and>
     (\<forall>j tvals. as_json (vals ''Trigger'') = Some j \<longrightarrow> readJson L j triggerFields r = (Some tvals, r) \<longrightarrow>
        as_u16 (tvals ''TriggerLimit'') \<in> {None, Some (p_triggerLimit p)} \<and>
        as_string (tvals ''TriggerType'') \<in> {None, Some (p_triggerType p)})"

text \<open>Durations written by the library are read back.\<close>

definition durations_ok :: "'q redfish_lib \<Rightarrow> bool" where
  "durations_ok L \<longleftrightarrow> (\<forall>ms. 0 \<le> ms \<longrightarrow> ms \<le> 65535000 \<longrightarrow> fromDurationString L (toDurationString L ms) = Some ms)"

lemma seconds_of_string: "durations_ok L \<Longrightarrow> seconds_of L (seconds_string L (uint (x :: u16))) = Some x"
proof -
  have "0 \<le> uint x" "uint x \<le> 65535"
    using uint_lt2p [of x] by simp_all
  moreover assume "durations_ok L"
  ultimately have "fromDurationString L (toDurationString L (1000 * uint x)) = Some (1000 * uint x)"
    by (simp add: durations_ok_def)
  then show ?thesis using \<open>uint x \<le> 65535\<close> by (simp add: seconds_of_def seconds_string_def ms_to_seconds_def)
qed

lemma updated_same:
  assumes "updated_field old conv v new" and "v \<in> {None, shown}" and "\<And>a. shown = Some a \<Longrightarrow> conv a = Some old"
  shows "new = old"
  using assms by (cases v) (auto simp: updated_field_def)

lemma repeats_identity:
  assumes D: "durations_ok L" and R: "repeats L r vals p" and U: "update_spec L r vals p p'"
  shows "p' = p"
proof -
  note R' = R [unfolded repeats_def] and U' = U [unfolded update_spec_def]
  have "p_correctionInMs p' = p_correctionInMs p"
    by (rule updated_same [OF U' [THEN conjunct1] R' [THEN conjunct1]]) simp
  moreover have "p_limit p' = p_limit p"
    by (rule updated_same [where conv = Some and v = "as_u16 (vals ''Limit'')" and shown = "Some (p_limit p)"])
      (use R' U' in simp_all)
  moreover have "p_statReportingPeriod p' = p_statReportingPeriod p"
    by (rule updated_same [where conv = "seconds_of L" and v = "as_string (vals ''StatisticsReportingPeriod'')"
          and shown = "Some (seconds_string L (uint (p_statReportingPeriod p)))"])
      (use R' U' seconds_of_string [OF D] in simp_all)
  moreover have "p_policyStorage p' = p_policyStorage p"
    by (rule updated_same [where conv = "find_name kPolicyStorageMap" and v = "as_string (vals ''PolicyStorage'')"
          and shown = "map_of kPolicyStorageMap (p_policyStorage p)"])
      (use R' U' storage.decode_encode in simp_all)
  moreover have "p_powerCorrectionType p' = p_powerCorrectionType p"
    by (rule updated_same [where conv = "find_name kPowerCorrectionTypeMap"
          and v = "as_string (vals ''PowerCorrectionType'')"
          and shown = "map_of kPowerCorrectionTypeMap (p_powerCorrectionType p)"])
      (use R' U' correction.decode_encode in simp_all)
  moreover have "p_limitException p' = p_limitException p"
    by (rule updated_same [where conv = "find_name kLimitExceptionMap" and v = "as_string (vals ''LimitException'')"
          and shown = "map_of kLimitExceptionMap (p_limitException p)"])
      (use R' U' exception.decode_encode in simp_all)
  moreover have "p_componentId p' = p_componentId p"
    by (rule updated_same [where conv = Some and v = "as_u8 (vals ''ComponentId'')" and shown = "Some (p_componentId p)"])
      (use R' U' in simp_all)
  moreover have "p_triggerLimit p' = p_triggerLimit p \<and> p_triggerType p' = p_triggerType p"
  proof (cases "as_json (vals ''Trigger'')")
    case None
    with U' show ?thesis by simp
  next
    case (Some j)
    with U' obtain tvals where t: "readJson L j triggerFields r = (Some tvals, r)"
      "updated_field (p_triggerLimit p) Some (as_u16 (tvals ''TriggerLimit'')) (p_triggerLimit p')"
      "updated_field (p_triggerType p) Some (as_string (tvals ''TriggerType'')) (p_triggerType p')"
      by auto
    have sh: "as_u16 (tvals ''TriggerLimit'') \<in> {None, Some (p_triggerLimit p)}"
      "as_string (tvals ''TriggerType'') \<in> {None, Some (p_triggerType p)}"
      using R' Some t(1) by blast+
    show ?thesis
      by (intro conjI; rule updated_same [OF t(2) sh(1)] updated_same [OF t(3) sh(2)]; simp)
  qed
  moreover have "p_suspendPeriods p' = p_suspendPeriods p" "p_thresholds p' = p_thresholds p"
    using U' by simp_all
  ultimately show ?thesis by simp
qed

text \<open>What a created policy is made of, from the values the request was read as.\<close>

definition newTriggerFields :: "jfield list" where
  "newTriggerFields = [(''TriggerLimit'', T_u16, True), (''TriggerType'', T_string, True)]"

definition newStatusFields :: "jfield list" where
  "newStatusFields = [(''State'', T_string, True)]"

definition create_spec :: "'q redfish_lib \<Rightarrow> (string \<Rightarrow> jval option) \<Rightarrow> (string \<Rightarrow> jval option) \<Rightarrow>
    (string \<Rightarrow> jval option) \<Rightarrow> string \<Rightarrow> string \<Rightarrow> PolicyParams \<Rightarrow> bool \<Rightarrow> bool" where
  "create_spec L vals tvals svals domain policyId params state \<longleftrightarrow>
     as_string (vals ''Domain'') = Some domain \<and> as_string (vals ''Id'') = Some policyId \<and>
     as_u32 (vals ''CorrectionInMs'') = Some (p_correctionInMs params) \<and>
     as_u16 (vals ''Limit'') = Some (p_limit params) \<and>
     Option.bind (as_string (vals ''StatisticsReportingPeriod'')) (seconds_of L) = Some (p_statReportingPeriod params) \<and>
     as_string (vals ''PolicyStorage'') = map_of kPolicyStorageMap (p_policyStorage params) \<and>
     as_string (vals ''PowerCorrectionType'') = map_of kPowerCorrectionTypeMap (p_powerCorrectionType params) \<and>
     as_string (vals ''LimitException'') = map_of kLimitExceptionMap (p_limitException params) \<and>
     as_u8 (vals ''ComponentId'') = Some (p_componentId params) \<and>
     as_u16 (tvals ''TriggerLimit'') = Some (p_triggerLimit params) \<and>
     as_string (tvals ''TriggerType'') = Some (p_triggerType params) \<and>
     p_suspendPeriods params = [] \<and> p_thresholds params = [] \<and>
     as_string (svals ''State'') = map_of kPolicyStateMap state"

lemma createPolicy_run:
  assumes M: "messages_ok L" and run: "createPolicy L req vals tvals svals s = (x, s')"
    and v: "vals ''CorrectionInMs'' = Some (JV_u32 ci)" "vals ''Limit'' = Some (JV_u16 lim)"
      "vals ''StatisticsReportingPeriod'' = Some (JV_string per)" "vals ''PolicyStorage'' = Some (JV_string sto)"
      "vals ''PowerCorrectionType'' = Some (JV_string cor)" "vals ''LimitException'' = Some (JV_string exc)"
      "vals ''ComponentId'' = Some (JV_u8 cid)" "vals ''Domain'' = Some (JV_string dmn)"
      "vals ''Id'' = Some (JV_string pid)"
    and t: "tvals ''TriggerLimit'' = Some (JV_u16 tlm)" "tvals ''TriggerType'' = Some (JV_string tty)"
    and st: "svals ''State'' = Some (JV_string str)"
  shows "x = Inr () \<and> (nm_calls s' = nm_calls s \<and> r_result (nm_res s') \<noteq> http_ok \<or>
    (\<exists>params state. create_spec L vals tvals svals dmn pid params state \<and>
     nm_calls s' = nm_calls s @ [\<lparr>dc_service = kNodeManagerService, dc_path = getDomainDbusPath dmn, dc_interface = nmPolicyManager,
          dc_method = ''CreateWithId'', dc_args = [A_string pid, A_params params],
          dc_cont = K_policyCreated req state\<rparr>] \<and>
     r_result (nm_res s') = http_ok \<and> nm_res s' = nm_res s))"
proof -
  obtain k1 s1 where 1: "convertTimeString L per ''StatisticsReportingPeriod'' s = (Inr k1, s1)"
    "nm_calls s1 = nm_calls s" "seconds_of L per = Some k1 \<and> s1 = s \<or> r_result (nm_res s1) \<noteq> http_ok"
    using convertTimeString_run [OF M, of per "''StatisticsReportingPeriod''" s]
    by (auto simp: seconds_of_def)
  obtain k2 s2 where 2: "convertStringToEnum L 0 sto ''PolicyStorage'' kPolicyStorageMap s1 = (Inr k2, s2)"
    "nm_calls s2 = nm_calls s1" "find_name kPolicyStorageMap sto = Some k2 \<and> s2 = s1 \<or> r_result (nm_res s2) \<noteq> http_ok"
    using convertStringToEnum_run [OF M] by metis
  obtain k3 s3 where 3: "convertStringToEnum L 0 cor ''PowerCorrectionType'' kPowerCorrectionTypeMap s2 = (Inr k3, s3)"
    "nm_calls s3 = nm_calls s2" "find_name kPowerCorrectionTypeMap cor = Some k3 \<and> s3 = s2 \<or> r_result (nm_res s3) \<noteq> http_ok"
    using convertStringToEnum_run [OF M] by metis
  obtain k4 s4 where 4: "convertStringToEnum L 0 exc ''LimitException'' kLimitExceptionMap s3 = (Inr k4, s4)"
    "nm_calls s4 = nm_calls s3" "find_name kLimitExceptionMap exc = Some k4 \<and> s4 = s3 \<or> r_result (nm_res s4) \<noteq> http_ok"
    using convertStringToEnum_run [OF M] by metis
  obtain k5 s5 where 5: "convertStringToEnum L False str ''State'' kPolicyStateMap s4 = (Inr k5, s5)"
    "nm_calls s5 = nm_calls s4" "find_name kPolicyStateMap str = Some k5 \<and> s5 = s4 \<or> r_result (nm_res s5) \<noteq> http_ok"
    using convertStringToEnum_run [OF M] by metis
  define params where "params = \<lparr>p_correctionInMs = ci, p_limit = lim, p_statReportingPeriod = k1,
      p_policyStorage = k2, p_powerCorrectionType = k3, p_limitException = k4, p_suspendPeriods = [],
      p_thresholds = [], p_componentId = cid, p_triggerLimit = tlm, p_triggerType = tty\<rparr>"
  have eq: "(x, s') = (if r_result (nm_res s5) \<noteq> http_ok then (Inr (), s5)
      else call kNodeManagerService (getDomainDbusPath dmn) nmPolicyManager ''CreateWithId'' [A_string pid, A_params params]
        (K_policyCreated req k5) s5)"
    unfolding run [symmetric] createPolicy_def v t st as_string.simps as_u32.simps as_u16.simps as_u8.simps params_def
    by (simp only: need_def option.case ret_apply bindE_apply 1(1) 2(1) 3(1) 4(1) 5(1) prod.case sum.case gets_apply)
      (simp add: bindE_apply)
  show ?thesis
  proof (cases "r_result (nm_res s5) = http_ok")
    case False
    with eq 1(2) 2(2) 3(2) 4(2) 5(2) show ?thesis by simp
  next
    case True
    with 5(3) have e4: "s5 = s4" "find_name kPolicyStateMap str = Some k5" by auto
    with 4(3) True have e3: "s4 = s3" "find_name kLimitExceptionMap exc = Some k4" by auto
    with 3(3) e4 True have e2: "s3 = s2" "find_name kPowerCorrectionTypeMap cor = Some k3" by auto
    with 2(3) e3 e4 True have e1: "s2 = s1" "find_name kPolicyStorageMap sto = Some k2" by auto
    with 1(3) e2 e3 e4 True have e0: "s1 = s" "seconds_of L per = Some k1" by auto
    have spec: "create_spec L vals tvals svals dmn pid params k5"
      unfolding create_spec_def v t st params_def
      by (simp add: e0 storage.encode_decode [OF e1(2)] correction.encode_decode [OF e2(2)]
          exception.encode_decode [OF e3(2)] pstate.encode_decode [OF e4(2)])
    have run': "x = Inr ()" "s' = s\<lparr>nm_calls := nm_calls s @ [\<lparr>dc_service = kNodeManagerService, dc_path = getDomainDbusPath dmn,
          dc_interface = nmPolicyManager, dc_method = ''CreateWithId'', dc_args = [A_string pid, A_params params],
          dc_cont = K_policyCreated req k5\<rparr>]\<rparr>"
      using eq True e0 e1 e2 e3 e4 by (simp_all add: call_apply)
    show ?thesis
      using run' True spec e0 e1 e2 e3 e4 by (intro conjI disjI2 exI [of _ params] exI [of _ k5]) simp_all
  qed
qed

text \<open>What the request of a creation delivers.\<close>

lemma createFields_read:
  assumes "list_all (field_read vals) createFields"
  shows "\<exists>ci lim per sto cor exc cid j1 dmn pid j2.
    vals ''CorrectionInMs'' = Some (JV_u32 ci) \<and> vals ''Limit'' = Some (JV_u16 lim) \<and>
    vals ''StatisticsReportingPeriod'' = Some (JV_string per) \<and> vals ''PolicyStorage'' = Some (JV_string sto) \<and>
    vals ''PowerCorrectionType'' = Some (JV_string cor) \<and> vals ''LimitException'' = Some (JV_string exc) \<and>
    vals ''ComponentId'' = Some (JV_u8 cid) \<and> vals ''Domain'' = Some (JV_string dmn) \<and>
    vals ''Id'' = Some (JV_string pid) \<and> vals ''Trigger'' = Some (JV_json j1) \<and> vals ''Status'' = Some (JV_json j2)"
proof -
  have f: "field_read vals (k, t, True)" if "(k, t, True) \<in> set createFields" for k t
    using assms that by (auto simp: list_all_iff)
  show ?thesis
    using f [of "''CorrectionInMs''" T_u32] f [of "''Limit''" T_u16] f [of "''StatisticsReportingPeriod''" T_string]
      f [of "''PolicyStorage''" T_string] f [of "''PowerCorrectionType''" T_string] f [of "''LimitException''" T_string]
      f [of "''ComponentId''" T_u8] f [of "''Domain''" T_string] f [of "''Id''" T_string]
      f [of "''Trigger''" T_json] f [of "''Status''" T_json]
    by (simp add: createFields_def field_read_mandatory has_type_ex del: has_type.simps)
qed

lemma newFields_read:
  assumes "list_all (field_read tvals) newTriggerFields" and "list_all (field_read svals) newStatusFields"
  shows "\<exists>tlm tty str. tvals ''TriggerLimit'' = Some (JV_u16 tlm) \<and> tvals ''TriggerType'' = Some (JV_string tty) \<and>
    svals ''State'' = Some (JV_string str)"
  using assms by (simp add: newTriggerFields_def newStatusFields_def field_read_mandatory has_type_ex del: has_type.simps)

section \<open>Properties\<close>


definition demo_policy :: dbus_props where
  "demo_policy = [(''Id'', DV_string ''P1''), (''Owner'', DV_i32 0), (''CorrectionInMs'', DV_u32 6000),
     (''Limit'', DV_u16 300), (''StatisticsReportingPeriod'', DV_u16 10), (''PolicyStorage'', DV_i32 1),
     (''PowerCorrectionType'', DV_i32 0), (''LimitException'', DV_i32 2), (''ComponentId'', DV_u8 255),
     (''TriggerLimit'', DV_u16 0), (''TriggerType'', DV_string ''Always''), (''DomainId'', DV_string ''D1''),
     (''PolicyType'', DV_string ''PowerPolicy''), (''PolicyState'', DV_i32 4)]"



lemma demo_durations_ok: "durations_ok demo_redfish"
  by (auto simp: durations_ok_def demo_redfish_def stoi_to_string)

definition demo_params :: PolicyParams where
  "demo_params = the (convertAttributesToPolicyParams demo_policy)"


text \<open>C20: Deleting a policy: a \<open>Delete\<close> call is only issued when exactly one managed object has the
  requested identifier and is owned by the BMC, and it goes to that object; a policy of another owner is
  never deleted.\<close>

theorem delete_only_own_policy:
  assumes "removePolicy L policyId (Inr (found_policies (PR_idAndOwner policyId) objs)) s = (x, s')"
    and "nm_calls s' \<noteq> nm_calls s"
  shows "\<exists>path ifMap ps. found_policies (PR_idAndOwner policyId) objs = [path] \<and> (path, ifMap) \<in> set objs \<and>
    (nmPolicyAttributes, ps) \<in> set ifMap \<and> getPropertyValue v_string ps ''Id'' = Some policyId \<and>
    getPropertyValue v_i32 ps ''Owner'' = Some kPolicyOwnerBmc \<and> \<not> isPolicyReadOnly ps \<and>
    nm_calls s' = nm_calls s @ [\<lparr>dc_service = kNodeManagerService, dc_path = path, dc_interface = ''xyz.openbmc_project.Object.Delete'',
      dc_method = ''Delete'', dc_args = [], dc_cont = K_deletePolicy path\<rparr>]"
proof -
  from assms obtain path where p: "found_policies (PR_idAndOwner policyId) objs = [path]"
    by (auto simp: removePolicy_def send_apply split: list.splits)
  then have "path \<in> set (found_policies (PR_idAndOwner policyId) objs)" by simp
  then obtain ifMap ps where m: "(path, ifMap) \<in> set objs" "(nmPolicyAttributes, ps) \<in> set ifMap"
    "predicate_holds (PR_idAndOwner policyId) ps"
    unfolding found_policies_iff by blast
  then have v: "getPropertyValue v_string ps ''Id'' = Some policyId" "getPropertyValue v_i32 ps ''Owner'' = Some kPolicyOwnerBmc"
    by (auto simp: createAttributePredicate_def getPropertyValue_def split: option.splits)
  have ro: "\<not> isPolicyReadOnly ps" using v(2) by (simp add: isPolicyReadOnly_def)
  show ?thesis
    using assms(1) p m(1,2) v ro
    by (intro exI [of _ path] exI [of _ ifMap] exI [of _ ps]) (auto simp: removePolicy_def call_apply)
qed

theorem delete_only_own_policy_witness:
  "\<exists>s'. removePolicy demo_redfish ''P1'' (Inr (found_policies (PR_idAndOwner ''P1'')
      [(''/d/P1'', [(nmPolicyAttributes, demo_policy)])])) nm_init = (Inr (), s') \<and>
    map dc_path (nm_calls s') = [''/d/P1'']"
proof -
  define objs where "objs = [(''/d/P1'', [(nmPolicyAttributes, demo_policy)])]"
  have f: "found_policies (PR_idAndOwner ''P1'') objs = [''/d/P1'']"
    by (simp add: objs_def found_policies_def createAttributePredicate_def demo_policy_def kPolicyOwnerBmc_def)
  obtain s' :: "json nm_state" where run: "removePolicy demo_redfish ''P1'' (Inr (found_policies (PR_idAndOwner ''P1'') objs)) nm_init = (Inr (), s')"
    and c: "nm_calls s' \<noteq> nm_calls nm_init"
    by (simp add: f removePolicy_def call_apply nm_init_def)
  from delete_only_own_policy [OF run c] f run show ?thesis by (auto simp: objs_def nm_init_def)
qed

text \<open>C18: Creating a policy: the handler never reads an uninitialised variable and never throws, and it
  issues the \<open>CreateWithId\<close> call only for a request that could be read completely, trigger and status
  included.  The call is then the only one, goes to the requested domain with the requested identifier,
  carries in every field the requested value (an enumeration as the code whose name was given, the
  reporting period in seconds), and no message has been added.  In every other case no call is issued and
  the response has an error status.\<close>

theorem create_policy_exact:
  assumes "messages_ok L" and "readers_ok L" and "policies_post L req s = (x, s')"
  shows "x = Inr () \<and>
    (nm_calls s' = nm_calls s \<and> r_result (nm_res s') \<noteq> http_ok \<or>
     (\<exists>vals j1 tvals j2 svals domain policyId params state.
        readJsonAction L req createFields (nm_res s) = (Some vals, nm_res s) \<and>
        as_json (vals ''Trigger'') = Some j1 \<and> readJson L j1 newTriggerFields (nm_res s) = (Some tvals, nm_res s) \<and>
        as_json (vals ''Status'') = Some j2 \<and> readJson L j2 newStatusFields (nm_res s) = (Some svals, nm_res s) \<and>
        create_spec L vals tvals svals domain policyId params state \<and>
        nm_calls s' = nm_calls s @ [\<lparr>dc_service = kNodeManagerService, dc_path = getDomainDbusPath domain, dc_interface = nmPolicyManager,
          dc_method = ''CreateWithId'', dc_args = [A_string policyId, A_params params],
          dc_cont = K_policyCreated req state\<rparr>] \<and>
        r_result (nm_res s') = http_ok \<and> nm_res s' = nm_res s))"
proof -
  note M = assms(1) and R = assms(2) and run = assms(3)
  obtain vo r where rd: "readJsonAction L req createFields (nm_res s) = (vo, r)" by fastforce
  show ?thesis
  proof (cases vo)
    case None
    with run rd reader_failed [OF readers_action [OF R] rd [unfolded None]] show ?thesis
      by (auto simp: policies_post_def bindE_apply with_res_def)
  next
    case (Some vals)
    note rd = rd [unfolded Some]
    from reader_done [OF readers_action [OF R] rd] have r: "r = nm_res s" and fr: "list_all (field_read vals) createFields"
      by simp_all
    obtain ci lim per sto cor exc cid j1 dmn pid j2 where v:
      "vals ''CorrectionInMs'' = Some (JV_u32 ci)" "vals ''Limit'' = Some (JV_u16 lim)"
      "vals ''StatisticsReportingPeriod'' = Some (JV_string per)" "vals ''PolicyStorage'' = Some (JV_string sto)"
      "vals ''PowerCorrectionType'' = Some (JV_string cor)" "vals ''LimitException'' = Some (JV_string exc)"
      "vals ''ComponentId'' = Some (JV_u8 cid)" "vals ''Domain'' = Some (JV_string dmn)"
      "vals ''Id'' = Some (JV_string pid)" and j: "vals ''Trigger'' = Some (JV_json j1)"
      "vals ''Status'' = Some (JV_json j2)"
      using createFields_read [OF fr] by blast
    obtain to1 r1 where rd1: "readJson L j1 newTriggerFields (nm_res s) = (to1, r1)" by fastforce
    have run1: "(x, s') = (case to1 of None \<Rightarrow> (Inr (), s\<lparr>nm_res := r1\<rparr>)
       | Some trig \<Rightarrow> bindE (with_res (readJson L j2 newStatusFields)) (\<lambda>so. case so of
              None \<Rightarrow> ret () | Some stat \<Rightarrow> createPolicy L req vals trig stat) (s\<lparr>nm_res := r1\<rparr>))"
      using rd rd1 r j
      by (simp add: run [symmetric] policies_post_def bindE_apply with_res_def need_def newTriggerFields_def
          newStatusFields_def split: option.splits)
    show ?thesis
    proof (cases to1)
      case None
      with run1 reader_failed [OF readers_json [OF R] rd1 [unfolded None]] show ?thesis by simp
    next
      case (Some tvals)
      note rd1 = rd1 [unfolded Some]
      from reader_done [OF readers_json [OF R] rd1] have r1: "r1 = nm_res s"
        and fr1: "list_all (field_read tvals) newTriggerFields" by simp_all
      obtain so r2 where rd2: "readJson L j2 newStatusFields (nm_res s) = (so, r2)" by fastforce
      have run2: "(x, s') = (case so of None \<Rightarrow> (Inr (), s\<lparr>nm_res := r2\<rparr>)
         | Some stat \<Rightarrow> createPolicy L req vals tvals stat (s\<lparr>nm_res := r2\<rparr>))"
        using run1 Some r1 rd2 by (simp add: bindE_apply with_res_def split: option.splits)
      show ?thesis
      proof (cases so)
        case None
        with run2 reader_failed [OF readers_json [OF R] rd2 [unfolded None]] show ?thesis by simp
      next
        case (Some svals)
        note rd2 = rd2 [unfolded Some]
        from reader_done [OF readers_json [OF R] rd2] have r2: "r2 = nm_res s"
          and fr2: "list_all (field_read svals) newStatusFields" by simp_all
        obtain tlm tty str where t: "tvals ''TriggerLimit'' = Some (JV_u16 tlm)"
          "tvals ''TriggerType'' = Some (JV_string tty)" "svals ''State'' = Some (JV_string str)"
          using newFields_read [OF fr1 fr2] by blast
        have run3: "createPolicy L req vals tvals svals s = (x, s')"
          using run2 Some r2 by simp
        from createPolicy_run [OF M run3 v t] rd r j rd1 r1 rd2 r2 show ?thesis
          by (elim conjE disjE exE) (simp_all, blast?)
      qed
    qed
  qed
qed

definition demo_create :: json where
  "demo_create = J_object [(''CorrectionInMs'', J_int 6000), (''Limit'', J_int 300),
     (''StatisticsReportingPeriod'', J_string ''10000''), (''PolicyStorage'', J_string ''Volatile''),
     (''PowerCorrectionType'', J_string ''Auto''), (''LimitException'', J_string ''LogEventOnly''),
     (''ComponentId'', J_int 255), (''Domain'', J_string ''D1''), (''Id'', J_string ''P1''),
     (''Trigger'', J_object [(''TriggerLimit'', J_int 0), (''TriggerType'', J_string ''Always'')]),
     (''Status'', J_object [(''State'', J_string ''Enabled'')])]"

lemma demo_create_calls: "nm_calls (snd (policies_post demo_redfish demo_create nm_init)) \<noteq> []"
proof -
  have s: "stoi ''10000'' = Inr (10000, 5)" by code_simp
  have t: "fromDurationString demo_redfish ''10000'' = Some 10000" by (simp add: demo_redfish_def s)
  have "\<exists>vals. demo_read demo_create createFields response_new = (Some vals, response_new) \<and>
      vals ''CorrectionInMs'' = Some (JV_u32 6000) \<and> vals ''Limit'' = Some (JV_u16 300) \<and>
      vals ''StatisticsReportingPeriod'' = Some (JV_string ''10000'') \<and>
      vals ''PolicyStorage'' = Some (JV_string ''Volatile'') \<and>
      vals ''PowerCorrectionType'' = Some (JV_string ''Auto'') \<and>
      vals ''LimitException'' = Some (JV_string ''LogEventOnly'') \<and> vals ''ComponentId'' = Some (JV_u8 255) \<and>
      vals ''Domain'' = Some (JV_string ''D1'') \<and> vals ''Id'' = Some (JV_string ''P1'') \<and>
      vals ''Trigger'' = Some (JV_json (J_object [(''TriggerLimit'', J_int 0), (''TriggerType'', J_string ''Always'')])) \<and>
      vals ''Status'' = Some (JV_json (J_object [(''State'', J_string ''Enabled'')]))"
    by (simp add: demo_read_def demo_create_def createFields_def)
  moreover have "readJsonAction demo_redfish = demo_read" "readJson demo_redfish = demo_read"
    by (simp_all add: demo_redfish_def)
  ultimately show ?thesis
    by (elim exE conjE) (simp add: policies_post_def bindE_apply with_res_def need_def nm_init_def demo_read_def
        [of "J_object [(''TriggerLimit'', J_int 0), (''TriggerType'', J_string ''Always'')]"]
        demo_read_def [of "J_object [(''State'', J_string ''Enabled'')]"] createPolicy_def convertTimeString_def t
        ms_to_seconds_def convertStringToEnum_def find_name_def kPolicyStorageMap_def kPowerCorrectionTypeMap_def
        kLimitExceptionMap_def kPolicyStateMap_def response_new_def call_apply)
qed

theorem create_policy_exact_witness:
  "\<exists>s' params. policies_post demo_redfish demo_create nm_init = (Inr (), s') \<and>
     map dc_path (nm_calls s') = [getDomainDbusPath ''D1''] \<and> map dc_args (nm_calls s') = [[A_string ''P1'', A_params params]]"
proof -
  obtain x and s' :: "json nm_state" where run: "policies_post demo_redfish demo_create nm_init = (x, s')"
    by fastforce
  have c: "nm_calls s' \<noteq> nm_calls nm_init" using demo_create_calls run by (simp add: nm_init_def)
  have rd: "fst (demo_read demo_create createFields r) = Some vals \<Longrightarrow>
      as_string (vals ''Domain'') = Some ''D1'' \<and> as_string (vals ''Id'') = Some ''P1''" for r vals
    by (auto simp: demo_read_def demo_create_def createFields_def)
  from create_policy_exact [OF demo_messages_ok demo_readers_ok run] c obtain vals tvals svals domain policyId params state
    where e: "x = Inr ()"
      "readJsonAction demo_redfish demo_create createFields (nm_res (nm_init :: json nm_state)) = (Some vals, nm_res (nm_init :: json nm_state))"
      "create_spec demo_redfish vals tvals svals domain policyId params state"
      "nm_calls s' = nm_calls nm_init @ [\<lparr>dc_service = kNodeManagerService, dc_path = getDomainDbusPath domain, dc_interface = nmPolicyManager,
          dc_method = ''CreateWithId'', dc_args = [A_string policyId, A_params params],
          dc_cont = K_policyCreated demo_create state\<rparr>]"
    by blast
  from e(2) have "fst (demo_read demo_create createFields (nm_res (nm_init :: json nm_state))) = Some vals" by (simp add: demo_redfish_def)
  from rd [OF this] e(3) have "domain = ''D1''" "policyId = ''P1''" by (simp_all add: create_spec_def)
  with e(1,4) run show ?thesis by (simp add: nm_init_def)
qed

end
