(* ===== verification/Nm_Domains.thy ===== *)
theory Nm_Domains
  imports Nm_Policies
begin

text \<open>
  \<open>domains_collection.hpp\<close>: the Redfish pages of Node Manager domains.  A domain page is put together
  from the replies to nine calls; a domain is updated by one call for each property of the request, and
  a shared \<open>FinalCallback\<close> renders the page when the last of their replies has been handled.
\<close>

section \<open>Names\<close>

definition kDomainPath :: string where "kDomainPath = ''/xyz/openbmc_project/NodeManager/Domain/''"
definition kCapabilitiesInterface :: string where
  "kCapabilitiesInterface = ''xyz.openbmc_project.NodeManager.Capabilities''"
definition kDomainAttributesInterface :: string where
  "kDomainAttributesInterface = ''xyz.openbmc_project.NodeManager.DomainAttributes''"
definition acTotalPlatformPowerDomainId :: string where
  "acTotalPlatformPowerDomainId = ''ACTotalPlatformPower''"

definition redfishDomains :: string where
  "redfishDomains = ''/redfish/v1/Managers/bmc/Oem/Intel/NodeManager/Domains/''"
definition redfishTriggers :: string where
  "redfishTriggers = ''/redfish/v1/Managers/bmc/Oem/Intel/NodeManager/Triggers/''"

section \<open>Updating a property\<close>

text \<open>Every pending call that was given the callback owns a share of it.\<close>

definition hold_final :: "(('k, 'f) call_state, unit) exm" where
  "hold_final = modify (\<lambda>s. s\<lparr>nm_final := map_option (\<lambda>(n, c). (Suc n, c)) (nm_final s)\<rparr>)"

definition setProperty :: "string \<Rightarrow> string \<Rightarrow> string \<Rightarrow> dbl \<Rightarrow> bool \<Rightarrow> ('q nm_state, unit) exm" where
  "setProperty path interface property value finalCallback =
     thenE (if finalCallback then hold_final else ret ())
       (call kNodeManagerService path dbusProperties ''Set'' [A_string interface, A_string property, A_variant (DV_double value)]
         (K_setProperty property value finalCallback))"

definition set_if :: "string \<Rightarrow> string \<Rightarrow> string \<Rightarrow> dbl option \<Rightarrow> ('q nm_state, unit) exm" where
  "set_if path interface property v = (case v of
     Some value \<Rightarrow> setProperty path interface property value True
   | None \<Rightarrow> ret ())"

definition setCapabilities :: "'q redfish_lib \<Rightarrow> string \<Rightarrow> json \<Rightarrow> ('q nm_state, unit) exm" where
  "setCapabilities L domainName capabilitiesCollection =
     bindE (with_res (readJson L capabilitiesCollection [(''Max'', T_double, False), (''Min'', T_double, False)]))
       (\<lambda>vo. case vo of
          None \<Rightarrow> ret ()
        | Some vals \<Rightarrow> thenE
           (set_if (kDomainPath @ domainName) kCapabilitiesInterface ''Max'' (as_double (vals ''Max'')))
           (set_if (kDomainPath @ domainName) kCapabilitiesInterface ''Min'' (as_double (vals ''Min''))))"

definition setLimitBiases :: "'q redfish_lib \<Rightarrow> string \<Rightarrow> json \<Rightarrow> ('q nm_state, unit) exm" where
  "setLimitBiases L domainName limitBiasCollection =
     bindE (with_res (readJson L limitBiasCollection
         [(''AbsoluteLimitBias'', T_double, False), (''RelativeLimitBias'', T_double, False)]))
       (\<lambda>vo. case vo of
          None \<Rightarrow> ret ()
        | Some vals \<Rightarrow> thenE
           (set_if (kDomainPath @ domainName) kDomainAttributesInterface ''LimitBiasAbsolute''
              (as_double (vals ''AbsoluteLimitBias'')))
           (set_if (kDomainPath @ domainName) kDomainAttributesInterface ''LimitBiasRelative''
              (as_double (vals ''RelativeLimitBias''))))"

text \<open>Replies with doubles.\<close>

definition reply_double :: "dbus_reply \<Rightarrow> int + dbl" where
  "reply_double r = (case reply_variant r of
     Inl e \<Rightarrow> Inl e | Inr v \<Rightarrow> (case v_double v of Some d \<Rightarrow> Inr d | None \<Rightarrow> Inl ec_decode))"

definition reply_limits :: "dbus_reply \<Rightarrow> int + (string \<times> (string \<times> dbl) list) list" where
  "reply_limits r = (case reply_nested r of
     Inl e \<Rightarrow> Inl e
   | Inr cs \<Rightarrow> (if list_all (\<lambda>(n, vs). list_all (\<lambda>(k, v). v_double v \<noteq> None) vs) cs
       then Inr (map (\<lambda>(n, vs). (n, map (\<lambda>(k, v). (k, the (v_double v))) vs)) cs) else Inl ec_decode))"

section \<open>The parts of a domain page\<close>

definition getComponentCapabilities :: "string \<Rightarrow> ('q nm_state, unit) exm" where
  "getComponentCapabilities dbusPath = call kNodeManagerService dbusPath kCapabilitiesInterface ''GetAllLimitsCapabilities'' []
     K_getComponentCapabilities"

definition capability_json :: "string \<times> (string \<times> dbl) list \<Rightarrow> json" where
  "capability_json cap = (case cap of (capName, capValues) \<Rightarrow>
     J_object (foldl (\<lambda>m (valueName, valueVar). obj_set valueName (J_double valueVar) m)
       [(''Name'', J_string capName)] capValues))"

definition onGetComponentCapabilities ::
    "'q redfish_lib \<Rightarrow> int + (string \<times> (string \<times> dbl) list) list \<Rightarrow> ('q nm_state, unit) exm" where
  "onGetComponentCapabilities L reply = (case reply of
     Inl ec \<Rightarrow> send L M_internalError
   | Inr capabilities \<Rightarrow> forE capabilities (\<lambda>cap. push [''ComponentCapabilities''] (capability_json cap)))"

definition getCapabilities :: "string \<Rightarrow> ('q nm_state, unit) exm" where
  "getCapabilities dbusPath = call kNodeManagerService dbusPath dbusProperties ''GetAll'' [A_string kCapabilitiesInterface] K_getCapabilities"

text \<open>The loop that assigns the pointer of a property whenever its key is met.\<close>

definition last_value :: "(variant \<Rightarrow> 'a option) \<Rightarrow> string \<Rightarrow> dbus_props \<Rightarrow> 'a option" where
  "last_value get_if name properties =
     foldl (\<lambda>p (key, value). if name = key then get_if value else p) None properties"

definition onGetCapabilities :: "'q redfish_lib \<Rightarrow> int + dbus_props \<Rightarrow> ('q nm_state, unit) exm" where
  "onGetCapabilities L reply = (case reply of
     Inl ec \<Rightarrow> send L M_internalError
   | Inr properties \<Rightarrow>
      (let mx = last_value v_double ''Max'' properties;
           mn = last_value v_double ''Min'' properties;
           maxCorrectionTimeInMs = last_value v_u32 ''MaxCorrectionTimeInMs'' properties;
           minCorrectionTimeInMs = last_value v_u32 ''MinCorrectionTimeInMs'' properties;
           maxStatReportingPeriod = last_value v_u16 ''MaxStatisticsReportingPeriod'' properties;
           minStatReportingPeriod = last_value v_u16 ''MinStatisticsReportingPeriod'' properties
       in seqE [
         put [''Capabilities'', ''Max''] (case mx of Some d \<Rightarrow> J_double d | None \<Rightarrow> J_null),
         put [''Capabilities'', ''Min''] (case mn of Some d \<Rightarrow> J_double d | None \<Rightarrow> J_null),
         (case (maxCorrectionTimeInMs, minCorrectionTimeInMs, maxStatReportingPeriod, minStatReportingPeriod) of
            (Some maxC, Some minC, Some maxS, Some minS) \<Rightarrow> seqE [
              put [''Capabilities'', ''MaxCorrectionTimeInMs''] (uint_json maxC),
              put [''Capabilities'', ''MinCorrectionTimeInMs''] (uint_json minC),
              put [''Capabilities'', ''MaxStatisticsReportingPeriod''] (J_string (seconds_string L (uint maxS))),
              put [''Capabilities'', ''MinStatisticsReportingPeriod''] (J_string (seconds_string L (uint minS)))]
          | _ \<Rightarrow> send L M_internalError)]))"

definition getDomainTriggers :: "string \<Rightarrow> ('q nm_state, unit) exm" where
  "getDomainTriggers dbusPath = call kNodeManagerService dbusPath dbusProperties ''Get''
     [A_string kDomainAttributesInterface, A_string ''AvailableTriggers''] K_getDomainTriggers"

definition onGetDomainTriggers :: "'q redfish_lib \<Rightarrow> int + variant \<Rightarrow> ('q nm_state, unit) exm" where
  "onGetDomainTriggers L reply = (case reply of
     Inl ec \<Rightarrow> send L M_internalError
   | Inr response \<Rightarrow> (case v_strings response of
       None \<Rightarrow> send L M_internalError
     | Some triggers \<Rightarrow>
        (let triggersJson = J_array (map (\<lambda>value. J_object [(''@odata.id'', J_string (redfishTriggers @ value))]) triggers)
         in thenE (put [''SupportedTriggers''] triggersJson)
              (put [''SupportedTriggers@odata.count''] (J_int (int (json_size triggersJson)))))))"

definition getLimitBias :: "string \<Rightarrow> ('q nm_state, unit) exm" where
  "getLimitBias dbusPath = thenE
     (call kNodeManagerService dbusPath dbusProperties ''Get'' [A_string kDomainAttributesInterface, A_string ''LimitBiasAbsolute'']
        (K_getLimitBias ''AbsoluteLimitBias''))
     (call kNodeManagerService dbusPath dbusProperties ''Get'' [A_string kDomainAttributesInterface, A_string ''LimitBiasRelative'']
        (K_getLimitBias ''RelativeLimitBias''))"

definition onGetLimitBias :: "'q redfish_lib \<Rightarrow> string \<Rightarrow> int + dbl \<Rightarrow> ('q nm_state, unit) exm" where
  "onGetLimitBias L name reply = (case reply of
     Inl ec \<Rightarrow> send L M_internalError
   | Inr limitBias \<Rightarrow> put [''LimitBias'', name] (J_double limitBias))"

definition getLimitingPolicies :: "string \<Rightarrow> ('q nm_state, unit) exm" where
  "getLimitingPolicies dbusPath = call kNodeManagerService dbusPath nmPolicyManager ''GetSelectedPolicies'' [] K_getLimitingPolicies"

definition onGetLimitingPolicies :: "'q redfish_lib \<Rightarrow> int + string list \<Rightarrow> ('q nm_state, unit) exm" where
  "onGetLimitingPolicies L reply = (case reply of
     Inl ec \<Rightarrow> send L M_internalError
   | Inr response \<Rightarrow>
      (let policiesJson = dbusPoliciesPathsToLinks L response in
       thenE (put [''LimitingPolicies''] policiesJson)
         (put [''LimitingPolicies@odata.count''] (J_int (int (json_size policiesJson))))))"

definition addDomainPolicies :: "'q redfish_lib \<Rightarrow> int + string list \<Rightarrow> ('q nm_state, unit) exm" where
  "addDomainPolicies L found = (case found of
     Inl ec \<Rightarrow> send L M_internalError
   | Inr paths \<Rightarrow>
      (let members = dbusPoliciesPathsToLinks L paths in
       thenE (put [''Links'', ''Policies''] members)
         (put [''Links'', ''Policies@odata.count''] (J_int (int (json_size members))))))"

definition domain_page :: "string \<Rightarrow> json" where
  "domain_page domainName = J_object [
     (''@odata.type'', J_string ''#NmDomain.v1_4_0.NmDomain''),
     (''@odata.id'', J_string (redfishDomains @ domainName)),
     (''Id'', J_string domainName),
     (''Name'', J_string domainName),
     (''Actions'', J_object [
        (''#NmDomain.ChangeState'', J_object [
           (''State@Redfish.AllowableValues'', J_array [J_string ''Enabled'', J_string ''Disabled'']),
           (''target'', J_string (redfishDomains @ domainName @ ''/Actions/Domain.ChangeState''))]),
        (''#NmDomain.ResetStatistics'', J_object [
           (''target'', J_string (redfishDomains @ domainName @ ''/Actions/Domain.ResetStatistics''))])])]"

definition getDomain :: "string \<Rightarrow> string \<Rightarrow> ('q nm_state, unit) exm" where
  "getDomain domainName domainDbusPath = seqE [
     getCapabilities domainDbusPath,
     getComponentCapabilities domainDbusPath,
     getEnabled domainDbusPath,
     getStatistics domainDbusPath,
     (if domainName = acTotalPlatformPowerDomainId then getStatistics kNodeManagerObjectPath else ret ()),
     getDomainTriggers domainDbusPath,
     getLimitBias domainDbusPath,
     getLimitingPolicies domainDbusPath,
     asyncFindPolicies FC_addDomainPolicies (PR_domain domainName),
     put [] (domain_page domainName)]"

section \<open>The shared callback\<close>

definition new_final :: "string \<Rightarrow> string \<Rightarrow> ('q nm_state, unit) exm" where
  "new_final domainName domainObjectPath = modify (\<lambda>s. s\<lparr>nm_final := Some (1, domainName, domainObjectPath)\<rparr>)"

text \<open>An owner goes away; with the last one the destructor runs the function.\<close>

definition release_final :: "('q nm_state, unit) exm" where
  "release_final = bindE (gets nm_final) (\<lambda>f. case f of
     None \<Rightarrow> ret ()
   | Some (n, domainName, domainObjectPath) \<Rightarrow>
      (if n \<le> 1 then thenE (modify (\<lambda>s. s\<lparr>nm_final := None\<rparr>))
         (bindE (gets (\<lambda>s. r_result (nm_res s))) (\<lambda>result.
            if result = http_ok then getDomain domainName domainObjectPath else ret ()))
       else modify (\<lambda>s. s\<lparr>nm_final := Some (n - 1, domainName, domainObjectPath)\<rparr>)))"

definition onSetProperty :: "'q redfish_lib \<Rightarrow> string \<Rightarrow> dbl \<Rightarrow> bool \<Rightarrow> int + unit \<Rightarrow> ('q nm_state, unit) exm" where
  "onSetProperty L property value finalCallback reply = thenE
     (case reply of
        Inl ec \<Rightarrow> send L (M_propertyValueIncorrect property (double_to_string L value))
      | Inr _ \<Rightarrow> ret ())
     (if finalCallback then release_final else ret ())"

section \<open>Finding the object of a domain\<close>

definition getDomainObjectPath :: "string \<Rightarrow> 'q path_handler \<Rightarrow> ('q nm_state, unit) exm" where
  "getDomainObjectPath domainName handler = call kObjectMapperService kObjectMapperObjectPath kObjectMapperService ''GetSubTreePaths''
     [A_string kNodeManagerObjectPath, A_int 0, A_strings [kDomainAttributesInterface]]
     (K_domainObjectPath domainName handler)"

definition patchDomain :: "'q redfish_lib \<Rightarrow> 'q \<Rightarrow> string \<Rightarrow> string \<Rightarrow> ('q nm_state, unit) exm" where
  "patchDomain L req domainName domainObjectPath =
     bindE (with_res (readJsonAction L req [(''Capabilities'', T_json, False), (''LimitBias'', T_json, False)]))
       (\<lambda>vo. case vo of
          None \<Rightarrow> ret ()
        | Some vals \<Rightarrow> seqE [
            new_final domainName domainObjectPath,
            (case as_json (vals ''Capabilities'') of
               Some j \<Rightarrow> setCapabilities L domainName j | None \<Rightarrow> ret ()),
            (case as_json (vals ''LimitBias'') of
               Some j \<Rightarrow> setLimitBiases L domainName j | None \<Rightarrow> ret ()),
            release_final])"

definition resetDomainStatistics :: "string \<Rightarrow> string \<Rightarrow> ('q nm_state, unit) exm" where
  "resetDomainStatistics domainName domainObjectPath = thenE (resetStatistics domainObjectPath)
     (if domainName = acTotalPlatformPowerDomainId then resetStatistics kNodeManagerObjectPath else ret ())"

definition domainHandler :: "'q redfish_lib \<Rightarrow> 'q path_handler \<Rightarrow> string \<Rightarrow> ('q nm_state, unit) exm" where
  "domainHandler L handler domainObjectPath = (case handler of
     PH_getDomain domainName \<Rightarrow> getDomain domainName domainObjectPath
   | PH_patchDomain req domainName \<Rightarrow> patchDomain L req domainName domainObjectPath
   | PH_resetDomainStatistics domainName \<Rightarrow> resetDomainStatistics domainName domainObjectPath
   | PH_changeDomainState req domainName \<Rightarrow>
       changeDbusObjectState L req domainName ''Domain.ChangeState'' domainObjectPath
   | _ \<Rightarrow> ret ())"

definition onDomainObjectPath ::
    "'q redfish_lib \<Rightarrow> string \<Rightarrow> 'q path_handler \<Rightarrow> int + string list \<Rightarrow> ('q nm_state, unit) exm" where
  "onDomainObjectPath L domainName handler reply =
     thenE (if isl reply then send L M_internalError else ret ())
       (bindE (lift_sum (find_path L (getDomainDbusPath domainName @ ''$'') (reply_list reply))) (\<lambda>po. case po of
          None \<Rightarrow> send L (M_resourceNotFound ''Domains'' domainName)
        | Some domainObjectPath \<Rightarrow> domainHandler L handler domainObjectPath))"

section \<open>Routes\<close>

text \<open>The members of a collection are added by \<open>getCollectionMembers\<close> of \<open>bmcweb\<close>, a parameter: it gets the address
  of the collection, the interfaces of the members and the subtree to search.\<close>

definition domains_get ::
    "(string \<Rightarrow> string list \<Rightarrow> string \<Rightarrow> ('q nm_state, unit) exm) \<Rightarrow> ('q nm_state, unit) exm" where
  "domains_get getCollectionMembers =
     (let url = ''/redfish/v1/Managers/bmc/Oem/Intel/NodeManager/Domains'' in
      thenE (put [] (J_object [
          (''@odata.type'', J_string ''#NmDomainCollection.NmDomainCollection''),
          (''@odata.id'', J_string url),
          (''Name'', J_string ''NM Domains Collection'')]))
        (getCollectionMembers url [''xyz.openbmc_project.NodeManager.DomainAttributes''] ''/xyz/openbmc_project/NodeManager''))"

definition domain_get :: "string \<Rightarrow> ('q nm_state, unit) exm" where
  "domain_get domainName = getDomainObjectPath domainName (PH_getDomain domainName)"

definition domain_patch :: "'q \<Rightarrow> string \<Rightarrow> ('q nm_state, unit) exm" where
  "domain_patch req domainName = getDomainObjectPath domainName (PH_patchDomain req domainName)"

definition domain_resetStatistics :: "string \<Rightarrow> ('q nm_state, unit) exm" where
  "domain_resetStatistics domainName = getDomainObjectPath domainName (PH_resetDomainStatistics domainName)"

definition domain_changeState :: "'q \<Rightarrow> string \<Rightarrow> ('q nm_state, unit) exm" where
  "domain_changeState req domainName = getDomainObjectPath domainName (PH_changeDomainState req domainName)"

section \<open>The lookup of a domain\<close>

interpretation domain_lookup: object_lookup onDomainObjectPath "\<lambda>n. getDomainDbusPath n @ ''$''" "''Domains''"
    domainHandler
  by unfold_locales (simp add: onDomainObjectPath_def)

section \<open>Properties\<close>

text \<open>Looking an object up: when every expression compiles, the handler of a policy or of a domain runs
  on the first listed object whose path matches the name, and when there is none the response gets
  \<open>resourceNotFound\<close> and nothing else; when the call to the object mapper has failed, the handler does
  not run and the response gets two messages, \<open>internalError\<close> and \<open>resourceNotFound\<close>.\<close>

theorem lookup_exact:
  assumes "list_all (\<lambda>p. \<not> isl (regex_search L (''Policy/'' @ n @ ''$'') p)) objects"
    and "list_all (\<lambda>p. \<not> isl (regex_search L (getDomainDbusPath n @ ''$'') p)) objects"
  shows "onPolicyObjectPath L n h (Inr objects) s =
      (case found_at L (''Policy/'' @ n @ ''$'') objects of
         None \<Rightarrow> send L (M_resourceNotFound ''Policies'' n) s | Some p \<Rightarrow> policyHandler h p s) \<and>
    onDomainObjectPath L n h (Inr objects) s =
      (case found_at L (getDomainDbusPath n @ ''$'') objects of
         None \<Rightarrow> send L (M_resourceNotFound ''Domains'' n) s | Some p \<Rightarrow> domainHandler L h p s) \<and>
    r_msgs (nm_res (snd (onPolicyObjectPath L n h (Inl ec) s))) =
      r_msgs (nm_res s) @ [M_internalError, M_resourceNotFound ''Policies'' n] \<and>
    r_msgs (nm_res (snd (onDomainObjectPath L n h (Inl ec) s))) =
      r_msgs (nm_res s) @ [M_internalError, M_resourceNotFound ''Domains'' n] \<and>
    nm_calls (snd (onPolicyObjectPath L n h (Inl ec) s)) = nm_calls s \<and>
    nm_calls (snd (onDomainObjectPath L n h (Inl ec) s)) = nm_calls s"
  by (simp add: policy_lookup.look_done [OF assms(1)] domain_lookup.look_done [OF assms(2)]
      policy_lookup.look_failed domain_lookup.look_failed thenE_apply send_apply add_message_def split: option.splits)

theorem lookup_exact_witness:
  "nm_calls (snd (onPolicyObjectPath demo_redfish ''P1'' (PH_resetPolicyStatistics ''P1'')
      (Inr [''/d/Policy/P1'']) (nm_init :: json nm_state))) =
    [\<lparr>dc_service = kNodeManagerService, dc_path = ''/d/Policy/P1'', dc_interface = nmStatistics, dc_method = ''ResetStatistics'', dc_args = [],
      dc_cont = K_resetStatistics\<rparr>]"
proof -
  have c: "list_all (\<lambda>p. \<not> isl (regex_search demo_redfish pat p)) [''/d/Policy/P1'']" for pat
    by (simp add: demo_redfish_def)
  have "found_at demo_redfish (''Policy/'' @ ''P1'' @ ''$'') [''/d/Policy/P1''] = Some ''/d/Policy/P1''"
    by (simp add: found_at_def demo_redfish_def)
  with lookup_exact [OF c c, where h = "PH_resetPolicyStatistics ''P1''" and s = "nm_init :: json nm_state"] show ?thesis
    by (simp add: policyHandler_def resetStatistics_def call_apply nm_init_def)
qed

end
