(* ===== verification/Nm_Server.thy ===== *)
theory Nm_Server
  imports Nm_Domains
begin

text \<open>
  The Node Manager pages as a whole.  A request runs its route and leaves calls in flight; every reply
  resumes the continuation of one of them, in any order, until none is left and the response is sent.
  The invariants of all reachable states are proved by rule induction over these steps, from one frame
  lemma for each handler that says which calls it may issue.
\<close>

section \<open>Requests and replies\<close>

datatype 'q nm_request =
    GET_policies
  | GET_policy string
  | DELETE_policy string
  | PATCH_policy 'q string
  | POST_policy_changeState 'q string
  | POST_policy_resetStatistics string
  | POST_policies 'q
  | GET_domain string
  | PATCH_domain 'q string
  | POST_domain_resetStatistics string
  | POST_domain_changeState 'q string

definition run_route :: "'q redfish_lib \<Rightarrow> 'q nm_request \<Rightarrow> ('q nm_state, unit) exm" where
  "run_route L rq = (case rq of
     GET_policies \<Rightarrow> policies_get
   | GET_policy n \<Rightarrow> policy_get n
   | DELETE_policy n \<Rightarrow> policy_delete L n
   | PATCH_policy q n \<Rightarrow> policy_patch q n
   | POST_policy_changeState q n \<Rightarrow> policy_changeState q n
   | POST_policy_resetStatistics n \<Rightarrow> policy_resetStatistics n
   | POST_policies q \<Rightarrow> policies_post L q
   | GET_domain n \<Rightarrow> domain_get n
   | PATCH_domain q n \<Rightarrow> domain_patch q n
   | POST_domain_resetStatistics n \<Rightarrow> domain_resetStatistics n
   | POST_domain_changeState q n \<Rightarrow> domain_changeState q n)"

definition onFindPolicies :: "'q redfish_lib \<Rightarrow> find_callback \<Rightarrow> int + string list \<Rightarrow> ('q nm_state, unit) exm" where
  "onFindPolicies L callback found = (case callback of
     FC_addPolicies \<Rightarrow> addPolicies L found
   | FC_removePolicy policyId \<Rightarrow> removePolicy L policyId found
   | FC_addDomainPolicies \<Rightarrow> addDomainPolicies L found)"

definition sum_map :: "('a \<Rightarrow> 'b) \<Rightarrow> int + 'a \<Rightarrow> int + 'b" where
  "sum_map f r = (case r of Inl e \<Rightarrow> Inl e | Inr a \<Rightarrow> Inr (f a))"

definition resume :: "'q redfish_lib \<Rightarrow> 'q nm_cont \<Rightarrow> dbus_reply \<Rightarrow> ('q nm_state, unit) exm" where
  "resume L k r = (case k of
     K_findPolicies callback p \<Rightarrow> onFindPolicies L callback (sum_map (found_policies p) (reply_managed r))
   | K_getEnabled \<Rightarrow> onGetEnabled L (reply_props r)
   | K_getStatistics \<Rightarrow> onGetStatistics L (reply_nested r)
   | K_resetStatistics \<Rightarrow> onResetStatistics L (reply_void r)
   | K_changeState \<Rightarrow> onChangeState L (reply_void r)
   | K_getAttributes \<Rightarrow> onGetAttributes L (reply_props r)
   | K_deletePolicy path \<Rightarrow> onDeletePolicy L path (reply_void r)
   | K_policyObjectPath n h \<Rightarrow> onPolicyObjectPath L n h (reply_paths r)
   | K_getPolicy n \<Rightarrow> onGetPolicy L n (reply_paths r)
   | K_patchPolicy q path \<Rightarrow> onPatchPolicy L q path (reply_props r)
   | K_changePolicyState q path n \<Rightarrow> onChangePolicyState L q path n (reply_props r)
   | K_policyUpdated q path \<Rightarrow> onPolicyUpdated L q path (reply_void r)
   | K_policyCreated q state \<Rightarrow> onPolicyCreated L q state (reply_path r)
   | K_policyEnabled \<Rightarrow> onPolicyEnabled L (reply_void r)
   | K_domainObjectPath n h \<Rightarrow> onDomainObjectPath L n h (reply_paths r)
   | K_getComponentCapabilities \<Rightarrow> onGetComponentCapabilities L (reply_limits r)
   | K_getCapabilities \<Rightarrow> onGetCapabilities L (reply_props r)
   | K_getDomainTriggers \<Rightarrow> onGetDomainTriggers L (reply_variant r)
   | K_getLimitBias name \<Rightarrow> onGetLimitBias L name (reply_double r)
   | K_getLimitingPolicies \<Rightarrow> onGetLimitingPolicies L (reply_paths r)
   | K_setProperty property value fin \<Rightarrow> onSetProperty L property value fin (reply_void r))"

text \<open>
  One reply.  A handler that throws ends the process; its state is kept as what the response and the
  calls were at that moment, so that the invariants cover it as well.
\<close>

inductive nm_step :: "'q redfish_lib \<Rightarrow> 'q nm_state \<Rightarrow> 'q nm_state \<Rightarrow> bool" for L where
  reply: "nm_calls s = xs @ c # ys \<Longrightarrow> resume L (dc_cont c) r (s\<lparr>nm_calls := xs @ ys\<rparr>) = (x, s') \<Longrightarrow> nm_step L s s'"

inductive nm_reach :: "'q redfish_lib \<Rightarrow> 'q nm_request \<Rightarrow> 'q nm_state \<Rightarrow> bool" for L rq where
  start: "run_route L rq nm_init = (x, s) \<Longrightarrow> nm_reach L rq s"
| step: "nm_reach L rq s \<Longrightarrow> nm_step L s s' \<Longrightarrow> nm_reach L rq s'"

inductive_cases nm_stepE: "nm_step L s s'"

section \<open>The calls a handler may issue\<close>

text \<open>The replies that can still follow from a call, itself included.\<close>

definition page_weight :: nat where "page_weight = 10"

fun handler_weight :: "'q path_handler \<Rightarrow> nat" where
  "handler_weight (PH_patchPolicy q n) = 4"
| "handler_weight (PH_changePolicyState q n) = 2"
| "handler_weight (PH_resetPolicyStatistics n) = 1"
| "handler_weight (PH_getDomain n) = page_weight"
| "handler_weight (PH_patchDomain q n) = page_weight + 4"
| "handler_weight (PH_resetDomainStatistics n) = 2"
| "handler_weight (PH_changeDomainState q n) = 1"

fun cont_weight :: "'q nm_cont \<Rightarrow> nat" where
  "cont_weight (K_findPolicies (FC_removePolicy i) p) = 2"
| "cont_weight (K_policyObjectPath n h) = Suc (handler_weight h)"
| "cont_weight (K_getPolicy n) = 3"
| "cont_weight (K_patchPolicy q path) = 4"
| "cont_weight (K_changePolicyState q path n) = 2"
| "cont_weight (K_policyUpdated q path) = 3"
| "cont_weight (K_policyCreated q state) = 4"
| "cont_weight (K_domainObjectPath n h) = Suc (handler_weight h)"
| "cont_weight _ = 1"

definition calls_weight :: "'q nm_cont dbus_call list \<Rightarrow> nat" where
  "calls_weight cs = sum_list (map (\<lambda>c. cont_weight (dc_cont c)) cs)"

lemma calls_weight_simps [simp]:
  "calls_weight [] = 0" "calls_weight (c # cs) = cont_weight (dc_cont c) + calls_weight cs"
  "calls_weight (cs @ ds) = calls_weight cs + calls_weight ds"
  by (simp_all add: calls_weight_def)

lemma cont_weight_pos: "0 < cont_weight k"
  by (induction k rule: cont_weight.induct) simp_all

text \<open>
  \<open>emits Q n m\<close>: the computation leaves the callback alone and appends calls, each satisfying \<open>Q\<close>, of
  weight at most \<open>n\<close> together.
\<close>

definition emits :: "('q nm_cont dbus_call \<Rightarrow> bool) \<Rightarrow> nat \<Rightarrow> ('q nm_state, 'a) exm \<Rightarrow> bool" where
  "emits Q n m \<longleftrightarrow> (\<forall>s. nm_final (snd (m s)) = nm_final s \<and>
     (\<exists>zs. nm_calls (snd (m s)) = nm_calls s @ zs \<and> list_all Q zs \<and> calls_weight zs \<le> n))"

lemma emitsD:
  assumes "emits Q n m" and "m s = (x, s')"
  shows "nm_final s' = nm_final s \<and> (\<exists>zs. nm_calls s' = nm_calls s @ zs \<and> list_all Q zs \<and> calls_weight zs \<le> n)"
  using assms by (auto simp: emits_def dest: spec [of _ s])

named_theorems emits_intro \<open>rules for the calls a computation issues\<close>

lemma emits_weaken: "emits Q n m \<Longrightarrow> n \<le> k \<Longrightarrow> emits Q k m"
  unfolding emits_def by (meson order_trans)

lemma emits_bindE:
  assumes "emits Q a m" and "\<And>x. emits Q b (f x)"
  shows "emits Q (a + b) (bindE m f)"
  unfolding emits_def
proof
  fix s
  obtain r t where m: "m s = (r, t)" by fastforce
  from emitsD [OF assms(1) m] obtain zs where z: "nm_final t = nm_final s" "nm_calls t = nm_calls s @ zs"
    "list_all Q zs" "calls_weight zs \<le> a" by blast
  show "nm_final (snd (bindE m f s)) = nm_final s \<and> (\<exists>zs. nm_calls (snd (bindE m f s)) = nm_calls s @ zs \<and>
      list_all Q zs \<and> calls_weight zs \<le> a + b)"
  proof (cases r)
    case (Inl e)
    with m z show ?thesis by (simp add: bindE_error)
  next
    case (Inr x)
    obtain r' t' where f: "f x t = (r', t')" by fastforce
    from emitsD [OF assms(2) f] obtain ws where w: "nm_final t' = nm_final t" "nm_calls t' = nm_calls t @ ws"
      "list_all Q ws" "calls_weight ws \<le> b" by blast
    have "bindE m f s = (r', t')" using m f Inr by (simp add: bindE_value)
    with z w show ?thesis by (simp add: add_mono)
  qed
qed

lemma emits_thenE: "emits Q a m \<Longrightarrow> emits Q b k \<Longrightarrow> emits Q (a + b) (thenE m k)"
  unfolding thenE_def by (rule emits_bindE)

text \<open>Base cases hold for every bound, and of two computations the second may issue the calls.\<close>

lemma emits_quiet:
  "(\<And>s. nm_final (snd (m s)) = nm_final s \<and> nm_calls (snd (m s)) = nm_calls s) \<Longrightarrow> emits Q n m"
  by (auto simp: emits_def intro!: exI [of _ "[]"])

lemma emits_base [emits_intro]:
  "emits Q n (ret a)" "emits Q n (throw e)" "emits Q n (gets f)" "emits Q n (lift_sum r)"
  "emits Q n (upd_json g)" "emits Q n (put p v)" "emits Q n (push p v)" "emits Q n (send L m)"
  "emits Q n (set_result k)" "emits Q n (with_res h)" "emits Q n (need y)"
  by (rule emits_quiet; simp add: upd_json_def put_def push_def send_def set_result_def with_res_def need_def
      split: sum.split prod.split option.split)+

lemma emits_call:
  "Q \<lparr>dc_service = sv, dc_path = path, dc_interface = i, dc_method = m, dc_args = args, dc_cont = k\<rparr> \<Longrightarrow> cont_weight k \<le> n \<Longrightarrow>
    emits Q n (call sv path i m args k)"
  by (simp add: emits_def call_apply)

lemma emits_bind_last [emits_intro]: "emits Q 0 m \<Longrightarrow> (\<And>x. emits Q n (f x)) \<Longrightarrow> emits Q n (bindE m f)"
  using emits_bindE [of Q 0 m n f] by simp

lemma emits_then_last [emits_intro]: "emits Q 0 m \<Longrightarrow> emits Q n k \<Longrightarrow> emits Q n (thenE m k)"
  using emits_thenE [of Q 0 m n k] by simp

lemma emits_split [emits_intro]:
  "emits Q n m \<Longrightarrow> emits Q n k \<Longrightarrow> emits Q n (if b then m else k)"
  "emits Q n m \<Longrightarrow> (\<And>a. emits Q n (f a)) \<Longrightarrow> emits Q n (case x of None \<Rightarrow> m | Some a \<Rightarrow> f a)"
  "(\<And>a. emits Q n (g a)) \<Longrightarrow> (\<And>b. emits Q n (h b)) \<Longrightarrow> emits Q n (case y of Inl a \<Rightarrow> g a | Inr b \<Rightarrow> h b)"
  "(\<And>a b. emits Q n (q a b)) \<Longrightarrow> emits Q n (case z of (a, b) \<Rightarrow> q a b)"
  "emits Q n (l a) \<Longrightarrow> emits Q n (Let a l)"
  by (auto split: option.split sum.split prod.split)

lemma emits_forE [emits_intro]: "(\<And>x. emits Q 0 (f x)) \<Longrightarrow> emits Q 0 (forE xs f)"
  by (induction xs) (auto intro: emits_intro)

lemma emits_Cons: "emits Q a m \<Longrightarrow> emits Q b (seqE ms) \<Longrightarrow> a + b \<le> n \<Longrightarrow> emits Q n (seqE (m # ms))"
  by (auto intro: emits_weaken emits_thenE)

lemma emits_two: "emits Q a m \<Longrightarrow> emits Q b k \<Longrightarrow> a + b \<le> n \<Longrightarrow> emits Q n (thenE m k)"
  by (auto intro: emits_weaken emits_thenE)

subsection \<open>Handlers that issue nothing\<close>

lemmas silent_defs = parseProperty_process_def parseProperty_def parseProperty_map_process_def
  parseProperty_map_def policyTypeAttributes_def onGetAttributes_def onGetEnabled_def onGetStatistics_def
  onResetStatistics_def onChangeState_def onDeletePolicy_def onPolicyEnabled_def onGetComponentCapabilities_def
  onGetCapabilities_def onGetDomainTriggers_def onGetLimitBias_def onGetLimitingPolicies_def addPolicies_def
  addDomainPolicies_def dbusErrorToBmcwebMessage_def convertTimeString_def convertStringToEnum_def
  update_enum_def update_trigger_def updatePolicyParamsWithJsonValues_def

lemma emits_silent [emits_intro]:
  "emits Q n (onGetEnabled L b)" "emits Q n (onGetStatistics L c)" "emits Q n (onResetStatistics L d)"
  "emits Q n (onChangeState L d)" "emits Q n (onGetAttributes L b)" "emits Q n (onDeletePolicy L path d)"
  "emits Q n (onPolicyEnabled L d)" "emits Q n (onGetComponentCapabilities L e)" "emits Q n (onGetCapabilities L b)"
  "emits Q n (onGetDomainTriggers L v)" "emits Q n (onGetLimitBias L name w)"
  "emits Q n (onGetLimitingPolicies L ps)" "emits Q n (addPolicies L ps)" "emits Q n (addDomainPolicies L ps)"
  "emits Q n (dbusErrorToBmcwebMessage L rq ec op)" "emits Q n (convertTimeString L str nm)"
  "emits Q n (convertStringToEnum L z str nm mp)" "emits Q n (updatePolicyParamsWithJsonValues L rq p)"
  unfolding silent_defs Let_def seqE.simps
  by (rule emits_weaken [OF _ le0], intro emits_intro)+

subsection \<open>Handlers that issue calls\<close>

text \<open>The calls that read what a page shows, and nothing else.\<close>

definition read_methods :: "string list" where
  "read_methods = [''GetAll'', ''Get'', ''GetManagedObjects'', ''GetSubTreePaths'', ''GetStatistics'',
     ''GetSelectedPolicies'', ''GetAllLimitsCapabilities'']"

fun page_cont :: "'q nm_cont \<Rightarrow> bool" where
  "page_cont K_getEnabled = True"
| "page_cont K_getStatistics = True"
| "page_cont K_getAttributes = True"
| "page_cont K_getComponentCapabilities = True"
| "page_cont K_getCapabilities = True"
| "page_cont K_getDomainTriggers = True"
| "page_cont (K_getLimitBias name) = True"
| "page_cont K_getLimitingPolicies = True"
| "page_cont (K_findPolicies FC_addPolicies p) = True"
| "page_cont (K_findPolicies FC_addDomainPolicies p) = True"
| "page_cont _ = False"

definition page_call :: "'q nm_cont dbus_call \<Rightarrow> bool" where
  "page_call c \<longleftrightarrow> dc_method c \<in> set read_methods \<and> page_cont (dc_cont c)"

lemma emits_mono: "emits R n m \<Longrightarrow> (\<And>c. R c \<Longrightarrow> Q c) \<Longrightarrow> emits Q n m"
  unfolding emits_def list_all_iff by metis

lemma page_cont_weight: "page_cont k \<Longrightarrow> cont_weight k = 1"
  by (induction k rule: page_cont.induct) simp_all

lemma emits_page_calls:
  "emits page_call 1 (getAttributes path)" "emits page_call 1 (getStatistics path)" "emits page_call 1 (getEnabled path)"
  "emits page_call 1 (getCapabilities path)" "emits page_call 1 (getComponentCapabilities path)"
  "emits page_call 1 (getDomainTriggers path)" "emits page_call 1 (getLimitingPolicies path)"
  "emits page_call 1 (asyncFindPolicies FC_addDomainPolicies p)" "emits page_call 1 (asyncFindPolicies FC_addPolicies p)"
  "emits page_call 2 (getLimitBias path)"
  unfolding getAttributes_def getStatistics_def getEnabled_def getCapabilities_def getComponentCapabilities_def
    getDomainTriggers_def getLimitingPolicies_def asyncFindPolicies_def getLimitBias_def
  by ((rule emits_call, simp add: page_call_def read_methods_def, simp)+)
    (rule emits_two [where a = 1 and b = 1],
      (rule emits_call, simp add: page_call_def read_methods_def, simp)+, simp)

lemma emits_show_policy: "emits page_call 2 (thenE (getAttributes path) (getStatistics path))"
  by (rule emits_two [OF emits_page_calls(1,2)]) simp

lemma emits_getDomain: "emits page_call page_weight (getDomain name path)"
proof -
  have st: "emits page_call 1 (if name = acTotalPlatformPowerDomainId then getStatistics kNodeManagerObjectPath else ret ())"
    by (intro emits_intro emits_page_calls)
  have nil: "emits page_call 0 (seqE [put [] (domain_page name)])"
    unfolding seqE.simps by (intro emits_intro)
  show ?thesis
    unfolding getDomain_def page_weight_def
    by (rule emits_Cons [OF emits_page_calls(4) emits_Cons [OF emits_page_calls(5) emits_Cons
          [OF emits_page_calls(3) emits_Cons [OF emits_page_calls(2) emits_Cons [OF st emits_Cons
          [OF emits_page_calls(6) emits_Cons [OF emits_page_calls(10) emits_Cons [OF emits_page_calls(7)
          emits_Cons [OF emits_page_calls(8) nil order_refl] order_refl] order_refl] order_refl] order_refl]
          order_refl] order_refl] order_refl]]) simp
qed

text \<open>The calls that own no share of a callback and are no lookup of a domain.\<close>

fun plain_cont :: "'q nm_cont \<Rightarrow> bool" where
  "plain_cont (K_domainObjectPath n h) = False"
| "plain_cont (K_setProperty property v fin) = False"
| "plain_cont _ = True"

definition plain :: "'q nm_cont dbus_call \<Rightarrow> bool" where
  "plain c \<longleftrightarrow> plain_cont (dc_cont c)"

lemma page_plain: "page_call c \<Longrightarrow> plain c"
  by (cases "dc_cont c" rule: page_cont.cases) (auto simp: page_call_def plain_def)

lemma emits_plain_page:
  "emits plain page_weight (getDomain name path)" "emits plain 2 (thenE (getAttributes path) (getStatistics path))"
  by (rule emits_mono [OF emits_getDomain], erule page_plain) (rule emits_mono [OF emits_show_policy], erule page_plain)

lemma emits_plain_ops:
  "emits plain 1 (removePolicy L i found)" "emits plain 1 (changeDbusObjectState L q n a path)"
  "emits plain (handler_weight h) (policyHandler h path)" "emits plain 1 (resetStatistics path)"
  "emits plain 2 (resetDomainStatistics n path)"
  "emits plain 4 (createPolicy L q vals t st)" "emits plain 4 (policies_post L q)"
proof -
  show "emits plain 1 (removePolicy L i found)"
    unfolding removePolicy_def by (auto split: sum.split list.split intro!: emits_intro emits_call simp: plain_def)
  show "emits plain 1 (changeDbusObjectState L q n a path)"
    unfolding changeDbusObjectState_def by (intro emits_intro emits_call) (simp_all add: plain_def)
  show reset: "emits plain 1 (resetStatistics path)" for path
    unfolding resetStatistics_def by (intro emits_call) (simp_all add: plain_def)
  show "emits plain (handler_weight h) (policyHandler h path)"
    unfolding policyHandler_def using reset
    by (cases h) (auto intro!: emits_intro emits_call simp: plain_def)
  show "emits plain 2 (resetDomainStatistics n path)"
    unfolding resetDomainStatistics_def
    by (rule emits_two [OF reset emits_split(1) [OF reset emits_base(1)]]) simp
  show create: "emits plain 4 (createPolicy L q vals t st)" for vals t st
    unfolding createPolicy_def by (intro emits_intro emits_call) (simp_all add: plain_def)
  show "emits plain 4 (policies_post L q)"
    unfolding policies_post_def by (intro emits_intro create)
qed

lemma emits_plain_replies:
  "emits plain 3 (onPatchPolicy L q path b)" "emits plain 2 (onPolicyUpdated L q path d)"
  "emits plain 1 (onChangePolicyState L q path n b)" "emits plain 3 (onPolicyCreated L q state e)"
  "emits plain (handler_weight h) (onPolicyObjectPath L n h ps)" "emits plain 2 (onGetPolicy L n ps)"
  "emits plain (cont_weight (K_findPolicies cb p) - 1) (onFindPolicies L cb found)"
proof -
  show "emits plain 3 (onPatchPolicy L q path b)"
    unfolding onPatchPolicy_def by (intro emits_intro emits_call) (simp_all add: plain_def)
  show "emits plain 2 (onPolicyUpdated L q path d)"
    unfolding onPolicyUpdated_def by (intro emits_split emits_silent emits_plain_page)
  show "emits plain 1 (onChangePolicyState L q path n b)"
    unfolding onChangePolicyState_def by (intro emits_split emits_base emits_plain_ops)
  have en: "emits plain 1 (if state then call kNodeManagerService path dbusProperties ''Set'' [A_string objectEnable, A_string ''Enabled'',
      A_variant (DV_bool True)] K_policyEnabled else ret ())" for path
    by (intro emits_split emits_base emits_call) (simp_all add: plain_def)
  have created: "emits plain 3 (thenE (if state then call kNodeManagerService path dbusProperties ''Set'' [A_string objectEnable,
      A_string ''Enabled'', A_variant (DV_bool True)] K_policyEnabled else ret ())
      (thenE (getAttributes path) (getStatistics path)))" for path
    by (rule emits_two [OF en emits_plain_page(2)]) simp
  show "emits plain 3 (onPolicyCreated L q state e)"
    unfolding onPolicyCreated_def
    by (rule emits_split(3) [OF emits_silent(15) emits_then_last [OF emits_base(8) created]])
  show "emits plain (handler_weight h) (onPolicyObjectPath L n h ps)"
    unfolding onPolicyObjectPath_def by (intro emits_intro emits_plain_ops)
  show "emits plain 2 (onGetPolicy L n ps)"
    unfolding onGetPolicy_def
    by (intro emits_then_last emits_bind_last emits_split emits_base emits_plain_page)
  show "emits plain (cont_weight (K_findPolicies cb p) - 1) (onFindPolicies L cb found)"
    unfolding onFindPolicies_def using emits_plain_ops(1) [of L _ found]
    by (cases cb) (auto intro: emits_silent)
qed

text \<open>Every reply but those to a domain lookup and to the update of a domain property.\<close>

lemma emits_plain_resume: "plain_cont k \<Longrightarrow> emits plain (cont_weight k - 1) (resume L k r)"
  using emits_plain_replies
  by (cases k) (auto simp: resume_def intro!: emits_silent)

section \<open>The shared callback of a domain update\<close>

fun holds_share :: "'q nm_cont \<Rightarrow> bool" where
  "holds_share (K_setProperty property v fin) = fin"
| "holds_share _ = False"

fun is_lookup :: "'q nm_cont \<Rightarrow> bool" where
  "is_lookup (K_domainObjectPath n h) = True"
| "is_lookup _ = False"

text \<open>
  While the callback exists, every pending call owns exactly one share of it; otherwise no pending call
  owns one.  A domain lookup is the only pending call, and there is no callback yet.
\<close>

definition final_inv :: "'q nm_state \<Rightarrow> bool" where
  "final_inv s \<longleftrightarrow>
     (case nm_final s of
        None \<Rightarrow> \<forall>c \<in> set (nm_calls s). \<not> holds_share (dc_cont c)
      | Some (n, d) \<Rightarrow> n = length (nm_calls s) \<and> 0 < n \<and> (\<forall>c \<in> set (nm_calls s). holds_share (dc_cont c))) \<and>
     (\<forall>c \<in> set (nm_calls s). is_lookup (dc_cont c) \<longrightarrow> nm_calls s = [c] \<and> nm_final s = None)"

text \<open>The same while a handler runs that owns a share itself.\<close>

definition final_mid :: "'q nm_state \<Rightarrow> bool" where
  "final_mid s \<longleftrightarrow> (\<exists>d. nm_final s = Some (Suc (length (nm_calls s)), d)) \<and>
     (\<forall>c \<in> set (nm_calls s). holds_share (dc_cont c))"

lemma plain_no_share: "plain c \<Longrightarrow> \<not> holds_share (dc_cont c) \<and> \<not> is_lookup (dc_cont c)"
  by (cases "dc_cont c" rule: plain_cont.cases) (auto simp: plain_def)

lemma share_no_lookup: "holds_share k \<Longrightarrow> \<not> is_lookup k"
  by (cases k) simp_all

lemma final_inv_emits:
  assumes "emits plain n m" and "m s = (x, s')" and "nm_final s = None"
    and "\<forall>c \<in> set (nm_calls s). \<not> holds_share (dc_cont c) \<and> \<not> is_lookup (dc_cont c)"
  shows "final_inv s'"
proof -
  from emitsD [OF assms(1,2)] obtain zs where z: "nm_final s' = nm_final s" "nm_calls s' = nm_calls s @ zs" "list_all plain zs"
    by blast
  have "\<forall>c \<in> set zs. \<not> holds_share (dc_cont c) \<and> \<not> is_lookup (dc_cont c)"
    using z(3) by (auto simp: list_all_iff dest: plain_no_share)
  with z assms(3,4) have "\<forall>c \<in> set (nm_calls s'). \<not> holds_share (dc_cont c) \<and> \<not> is_lookup (dc_cont c)" by auto
  then show ?thesis using z(1) assms(3) by (simp add: final_inv_def)
qed

lemma keeps_mid_set_if [keeps_intro]: "keeps final_mid (set_if path i property v)"
  by (auto simp: keeps_def final_mid_def set_if_def setProperty_def hold_final_def thenE_apply call_apply
      split: option.split)

lemma keeps_mid_with_res [keeps_intro]: "keeps final_mid (with_res f)"
  by (auto simp: keeps_def final_mid_def with_res_def split: prod.split)

lemma keeps_mid_sets [keeps_intro]:
  "keeps final_mid (setCapabilities L n j)" "keeps final_mid (setLimitBiases L n j)"
  unfolding setCapabilities_def setLimitBiases_def by (intro keeps_intro)+

lemma final_inv_release:
  assumes "final_mid s" and "release_final s = (x, s')"
  shows "final_inv s'"
proof -
  from assms(1) obtain d where f: "nm_final s = Some (Suc (length (nm_calls s)), d)"
    "\<forall>c \<in> set (nm_calls s). holds_share (dc_cont c)" by (auto simp: final_mid_def)
  obtain name path where d: "d = (name, path)" by fastforce
  show ?thesis
  proof (cases "nm_calls s = []")
    case False
    with assms(2) f d show ?thesis
      by (auto simp: release_final_def bindE_apply final_inv_def dest: share_no_lookup)
  next
    case True
    define t where "t = s\<lparr>nm_final := None\<rparr>"
    have t: "nm_final t = None" "\<forall>c \<in> set (nm_calls t). \<not> holds_share (dc_cont c) \<and> \<not> is_lookup (dc_cont c)"
      using True by (simp_all add: t_def)
    have "(x, s') = (if r_result (nm_res t) = http_ok then getDomain name path t else (Inr (), t))"
      using assms(2) f d True by (auto simp: release_final_def bindE_apply thenE_apply t_def split: if_splits)
    then show ?thesis
      using final_inv_emits [OF emits_plain_page(1) _ t, of name path x s'] t
      by (auto simp: final_inv_def split: if_splits)
  qed
qed

lemma final_inv_patchDomain:
  assumes "nm_calls s = []" and "nm_final s = None" and run: "patchDomain L q n path s = (x, s')"
  shows "final_inv s'"
proof -
  obtain vo r where rd: "readJsonAction L q [(''Capabilities'', T_json, False), (''LimitBias'', T_json, False)] (nm_res s) = (vo, r)"
    by fastforce
  show ?thesis
  proof (cases vo)
    case None
    with assms rd show ?thesis by (auto simp: patchDomain_def bindE_apply with_res_def final_inv_def)
  next
    case (Some vals)
    define m where "m = thenE (case as_json (vals ''Capabilities'') of Some j \<Rightarrow> setCapabilities L n j | None \<Rightarrow> ret ())
      (case as_json (vals ''LimitBias'') of Some j \<Rightarrow> setLimitBiases L n j | None \<Rightarrow> ret ())"
    define t where "t = s\<lparr>nm_res := r, nm_final := Some (1, n, path)\<rparr>"
    obtain y u where u: "m t = (y, u)" by fastforce
    have "final_mid t" using assms(1) by (simp add: t_def final_mid_def)
    moreover have "keeps final_mid m" unfolding m_def by (intro keeps_intro)
    ultimately have "final_mid u" using u keepsD by metis
    have "nothrow m" unfolding m_def setCapabilities_def setLimitBiases_def set_if_def setProperty_def hold_final_def
      by (intro nothrow_intro)
    then obtain z where y: "y = Inr z" using u nothrowD [of m t] by auto
    have "release_final u = (x, s')"
      using run rd Some u y unfolding m_def t_def
      by (simp add: patchDomain_def bindE_apply with_res_def new_final_def thenE_apply split: prod.splits sum.splits)
         (auto simp: thenE_apply split: prod.splits sum.splits)
    with \<open>final_mid u\<close> show ?thesis by (rule final_inv_release)
  qed
qed

lemma emits_plain_domain:
  assumes "\<And>q n. h \<noteq> PH_patchDomain q n"
  shows "emits plain (handler_weight h) (domainHandler L h path)"
  using assms unfolding domainHandler_def
  by (cases h) (auto intro!: emits_base emits_plain_page emits_plain_ops [THEN emits_weaken])

lemma final_inv_domain_lookup:
  assumes "nm_calls s = []" and "nm_final s = None" and run: "onDomainObjectPath L n h reply s = (x, s')"
  shows "final_inv s'"
proof -
  have inv: "final_inv t" if "nm_calls t = []" "nm_final t = None" for t :: "'a nm_state"
    using that by (simp add: final_inv_def)
  have hd: "final_inv t'" if "nm_calls t = []" "nm_final t = None" "domainHandler L h p t = (y, t')" for p t y t'
  proof (cases "\<exists>q n. h = PH_patchDomain q n")
    case True
    with that show ?thesis by (auto simp: domainHandler_def intro: final_inv_patchDomain)
  next
    case False
    with that show ?thesis by (intro final_inv_emits [OF emits_plain_domain that(3)]) auto
  qed
  obtain y t where t: "(if isl reply then send L M_internalError else ret ()) s = (Inr y, t)" "nm_calls t = []"
    "nm_final t = None"
    using assms(1,2) by (cases "isl reply") (auto simp: send_apply)
  have "(x, s') = bindE (lift_sum (find_path L (getDomainDbusPath n @ ''$'') (reply_list reply))) (\<lambda>po. case po of
      None \<Rightarrow> send L (M_resourceNotFound ''Domains'' n) | Some p \<Rightarrow> domainHandler L h p) t"
    using run t(1) by (simp add: onDomainObjectPath_def thenE_value)
  then show ?thesis
    using t(2,3) hd [OF t(2,3)] inv
    by (cases "find_path L (getDomainDbusPath n @ ''$'') (reply_list reply)")
      (auto simp: bindE_lift_sum send_apply dest: sym [of "(x, s')"] split: option.splits)
qed

lemma final_inv_setProperty:
  assumes "final_mid s" and "onSetProperty L property v True reply s = (x, s')"
  shows "final_inv s'"
proof -
  obtain t where t: "(case reply of Inl ec \<Rightarrow> send L (M_propertyValueIncorrect property (double_to_string L v))
      | Inr _ \<Rightarrow> ret ()) s = (Inr (), t)" "final_mid t"
    using assms(1) by (cases reply) (auto simp: send_apply final_mid_def)
  then have "release_final t = (x, s')"
    using assms(2) by (simp add: onSetProperty_def thenE_value)
  with t(2) show ?thesis by (rule final_inv_release)
qed

lemma final_inv_step:
  assumes inv: "final_inv s" and step: "nm_step L s s'"
  shows "final_inv s'"
  using step
proof cases
  case (reply xs c ys r x)
  define t where "t = s\<lparr>nm_calls := xs @ ys\<rparr>"
  have c: "c \<in> set (nm_calls s)" using reply(1) by simp
  have run: "resume L (dc_cont c) r t = (x, s')" using reply(2) by (simp add: t_def)
  show ?thesis
  proof (cases "plain_cont (dc_cont c)")
    case True
    have "\<not> holds_share (dc_cont c)" using True by (cases "dc_cont c") simp_all
    then have f: "nm_final s = None" using inv c by (auto simp: final_inv_def split: option.splits)
    have "\<not> is_lookup (dc_cont d)" if "d \<in> set (nm_calls s)" for d
    proof
      assume l: "is_lookup (dc_cont d)"
      with inv that have "nm_calls s = [d]" by (auto simp: final_inv_def)
      with c l True show False by (cases "dc_cont c") simp_all
    qed
    then have "\<forall>d \<in> set (nm_calls t). \<not> holds_share (dc_cont d) \<and> \<not> is_lookup (dc_cont d)"
      using inv f reply(1) by (auto simp: t_def final_inv_def)
    with f show ?thesis by (intro final_inv_emits [OF emits_plain_resume [OF True] run]) (simp_all add: t_def)
  next
    case False
    then consider (lookup) n h where "dc_cont c = K_domainObjectPath n h"
      | (set) property v fin where "dc_cont c = K_setProperty property v fin"
      by (cases "dc_cont c") auto
    then show ?thesis
    proof cases
      case lookup
      then have "nm_calls s = [c]" "nm_final s = None" using inv c by (auto simp: final_inv_def)
      then have "nm_calls t = []" "nm_final t = None" using reply(1) by (simp_all add: t_def append_eq_Cons_conv)
      then show ?thesis using run lookup by (auto simp: resume_def intro: final_inv_domain_lookup)
    next
      case set
      show ?thesis
      proof (cases fin)
        case True
        then have "holds_share (dc_cont c)" using set by simp
        then obtain d where "nm_final s = Some (length (nm_calls s), d)" "\<forall>c \<in> set (nm_calls s). holds_share (dc_cont c)"
          using inv c by (auto simp: final_inv_def split: option.splits)
        then have "final_mid t" using reply(1) by (auto simp: final_mid_def t_def)
        with run set True show ?thesis by (auto simp: resume_def intro: final_inv_setProperty)
      next
        case no: False
        then have f: "nm_final s = None" using inv c set by (auto simp: final_inv_def split: option.splits)
        have e: "emits plain 0 (onSetProperty L property v False (reply_void r))"
          unfolding onSetProperty_def by (simp, intro emits_intro)
        have "\<not> is_lookup (dc_cont d)" if "d \<in> set (nm_calls s)" for d
        proof
          assume l: "is_lookup (dc_cont d)"
          with inv that have "nm_calls s = [d]" by (auto simp: final_inv_def)
          with c l set show False by simp
        qed
        then have "\<forall>d \<in> set (nm_calls t). \<not> holds_share (dc_cont d) \<and> \<not> is_lookup (dc_cont d)"
          using inv f reply(1) by (auto simp: t_def final_inv_def)
        with f run set no show ?thesis
          by (intro final_inv_emits [OF e, of t x s']) (simp_all add: t_def resume_def)
      qed
    qed
  qed
qed

lemma emits_plain_route:
  assumes "run_route L rq = m" and "\<And>n. rq \<noteq> GET_domain n" and "\<And>q n. rq \<noteq> PATCH_domain q n"
    and "\<And>n. rq \<noteq> POST_domain_resetStatistics n" and "\<And>q n. rq \<noteq> POST_domain_changeState q n"
  shows "emits plain 5 m"
  using assms unfolding run_route_def
  by (cases rq) (auto simp: policies_get_def policy_get_def policy_delete_def deletePolicy_def policy_patch_def
      policy_changeState_def policy_resetStatistics_def getPolicyObjectPath_def asyncFindPolicies_def plain_def
      intro!: emits_then_last emits_base emits_split emits_call emits_plain_ops(7) [THEN emits_weaken])

lemma final_inv_start:
  assumes "run_route L rq nm_init = (x, s)"
  shows "final_inv s"
proof (cases "\<exists>n h. run_route L rq = getDomainObjectPath n h")
  case True
  with assms show ?thesis
    by (auto simp: getDomainObjectPath_def call_apply nm_init_def final_inv_def)
next
  case False
  then have "emits plain 5 (run_route L rq)"
    by (intro emits_plain_route [OF refl] notI; simp add: run_route_def domain_get_def domain_patch_def
        domain_resetStatistics_def domain_changeState_def; blast)
  from final_inv_emits [OF this assms] show ?thesis by (simp add: nm_init_def)
qed

lemma final_inv_reach: "nm_reach L rq s \<Longrightarrow> final_inv s"
  by (induction rule: nm_reach.induct) (auto intro: final_inv_start final_inv_step)

section \<open>Every request ends\<close>

text \<open>The replies that can still follow in a state; a callback stands for the page it may render.\<close>

definition nm_weight :: "'q nm_state \<Rightarrow> nat" where
  "nm_weight s = calls_weight (nm_calls s) + (case nm_final s of None \<Rightarrow> 0 | Some f \<Rightarrow> page_weight)"

definition grows :: "nat \<Rightarrow> ('q nm_state, 'a) exm \<Rightarrow> bool" where
  "grows n m \<longleftrightarrow> (\<forall>s. nm_weight (snd (m s)) \<le> nm_weight s + n)"

lemma growsD: "grows n m \<Longrightarrow> m s = (x, s') \<Longrightarrow> nm_weight s' \<le> nm_weight s + n"
  by (metis grows_def snd_conv)

lemma grows_emits: "emits Q n m \<Longrightarrow> grows n m"
proof -
  assume e: "emits Q n m"
  show ?thesis
    unfolding grows_def
  proof
    fix s
    obtain x t where "m s = (x, t)" by fastforce
    with emitsD [OF e this] show "nm_weight (snd (m s)) \<le> nm_weight s + n"
      by (auto simp: nm_weight_def)
  qed
qed

lemma grows_bindE:
  assumes "grows a m" and "\<And>x. grows b (f x)"
  shows "grows (a + b) (bindE m f)"
  unfolding grows_def
proof
  fix s
  obtain r t where m: "m s = (r, t)" by fastforce
  obtain r' t' where f: "bindE m f s = (r', t')" by fastforce
  have "nm_weight t \<le> nm_weight s + a" using growsD [OF assms(1) m] .
  moreover have "nm_weight t' \<le> nm_weight t + b"
    using m f growsD [OF assms(2)] by (cases r) (auto simp: bindE_def)
  ultimately show "nm_weight (snd (bindE m f s)) \<le> nm_weight s + (a + b)" using f by simp
qed

lemma grows_thenE: "grows a m \<Longrightarrow> grows b k \<Longrightarrow> grows (a + b) (thenE m k)"
  unfolding thenE_def by (rule grows_bindE)

lemma grows_weaken: "grows a m \<Longrightarrow> a \<le> b \<Longrightarrow> grows b m"
  unfolding grows_def by (meson add_left_mono order_trans)

lemma grows_release: "grows 0 release_final"
  unfolding grows_def
proof
  fix s :: "'a nm_state"
  show "nm_weight (snd (release_final s)) \<le> nm_weight s + 0"
  proof (cases "nm_final s")
    case None
    then show ?thesis by (simp add: release_final_def bindE_apply)
  next
    case (Some d)
    obtain n name path where d: "d = (n, name, path)" by (cases d) auto
    obtain x t where g: "getDomain name path (s\<lparr>nm_final := None\<rparr>) = (x, t)" by fastforce
    have "nm_weight t \<le> nm_weight (s\<lparr>nm_final := None\<rparr>) + page_weight"
      by (rule growsD [OF grows_emits [OF emits_getDomain] g])
    also have "\<dots> = nm_weight s" using Some by (simp add: nm_weight_def)
    finally show ?thesis
      using Some d g by (simp add: release_final_def bindE_apply thenE_apply nm_weight_def)
  qed
qed

lemma grows_set_if: "grows 1 (set_if path i property v)"
  by (cases v) (simp_all add: grows_def set_if_def setProperty_def hold_final_def thenE_apply call_apply
      nm_weight_def split: option.splits)

lemma grows_sets: "grows 2 (setCapabilities L n j)" "grows 2 (setLimitBiases L n j)"
proof -
  have two: "grows 2 (thenE (set_if a b c d) (set_if a' b' c' d'))" for a b c d a' b' c' d'
    using grows_thenE [OF grows_set_if grows_set_if] by (simp add: numeral_2_eq_2)
  have none: "grows 2 (ret ())"
    by (simp add: grows_def)
  have "grows (0 + 2) (setCapabilities L n j)" "grows (0 + 2) (setLimitBiases L n j)"
    unfolding setCapabilities_def setLimitBiases_def
    by (rule grows_bindE [OF grows_emits [OF emits_base(10)]]; simp add: two none split: option.split)+
  then show "grows 2 (setCapabilities L n j)" "grows 2 (setLimitBiases L n j)" by (simp_all only: add_0)
qed

lemma grows_patchDomain: "grows (page_weight + 4) (patchDomain L q n path)"
proof -
  have new: "grows page_weight (new_final n path)"
    by (simp add: grows_def new_final_def nm_weight_def split: option.split)
  have a: "grows 2 (case x of Some j \<Rightarrow> setCapabilities L n j | None \<Rightarrow> ret ())" for x
    using grows_sets(1) [of L n] by (cases x) (simp_all add: grows_def)
  have b: "grows 2 (case x of Some j \<Rightarrow> setLimitBiases L n j | None \<Rightarrow> ret ())" for x
    using grows_sets(2) [of L n] by (cases x) (simp_all add: grows_def)
  have end0: "grows 0 (seqE [release_final])"
    unfolding seqE.simps using grows_thenE [OF grows_release, of 0 "ret ()"] by (simp add: grows_def)
  have all: "grows (page_weight + (2 + (2 + 0))) (seqE [new_final n path,
      (case x of Some j \<Rightarrow> setCapabilities L n j | None \<Rightarrow> ret ()),
      (case y of Some j \<Rightarrow> setLimitBiases L n j | None \<Rightarrow> ret ()), release_final])" for x y
    unfolding seqE.simps(2) [of _ "_ # _"] by (intro grows_thenE new a b end0)
  have "grows (0 + (page_weight + (2 + (2 + 0)))) (patchDomain L q n path)"
    unfolding patchDomain_def
    by (rule grows_bindE [OF grows_emits [OF emits_base(10)]])
      (use all in \<open>simp add: grows_def split: option.split\<close>)
  then show ?thesis by simp
qed

lemma grows_domainHandler: "grows (handler_weight h) (domainHandler L h path)"
proof (cases "\<exists>q n. h = PH_patchDomain q n")
  case True
  then show ?thesis using grows_patchDomain by (auto simp: domainHandler_def)
next
  case False
  then show ?thesis by (intro grows_emits [OF emits_plain_domain]) auto
qed

lemma resume_weight: "grows (cont_weight k - 1) (resume L k r)"
proof (cases "plain_cont k")
  case True
  then show ?thesis by (intro grows_emits [OF emits_plain_resume])
next
  case False
  then consider (lookup) n h where "k = K_domainObjectPath n h"
    | (set) property v fin where "k = K_setProperty property v fin"
    by (cases k) auto
  then show ?thesis
  proof cases
    case lookup
    have a: "grows 0 (if isl reply then send L M_internalError else ret ())" for reply :: "int + string list"
      by (rule grows_emits, intro emits_intro)
    have b: "grows (handler_weight h) (case po of None \<Rightarrow> send L (M_resourceNotFound ''Domains'' n)
        | Some p \<Rightarrow> domainHandler L h p)" for po
      using grows_domainHandler grows_emits [OF emits_base(8)] by (auto split: option.split)
    have "grows (0 + (0 + handler_weight h)) (onDomainObjectPath L n h (reply_paths r))"
      unfolding onDomainObjectPath_def by (intro grows_thenE grows_bindE a b grows_emits [OF emits_base(4)])
    then show ?thesis using lookup by (simp add: resume_def)
  next
    case set
    have s: "grows 0 (case reply of Inl ec \<Rightarrow> send L m | Inr y \<Rightarrow> (ret () :: ('a nm_state, unit) exm))" for reply :: "int + unit" and m
      by (rule grows_emits, intro emits_intro)
    have "grows 0 (if fin then release_final else ret ())"
      using grows_release by (auto simp: grows_def)
    with grows_thenE [OF s this] set show ?thesis by (simp add: resume_def onSetProperty_def)
  qed
qed

lemma step_weight:
  assumes "nm_step L s s'"
  shows "nm_weight s' < nm_weight s"
  using assms
proof cases
  case (reply xs c ys r x)
  have "nm_weight s' \<le> nm_weight (s\<lparr>nm_calls := xs @ ys\<rparr>) + (cont_weight (dc_cont c) - 1)"
    by (rule growsD [OF resume_weight reply(2)])
  also have "\<dots> < nm_weight s"
    using reply(1) cont_weight_pos [of "dc_cont c"] by (simp add: nm_weight_def)
  finally show ?thesis .
qed

lemma start_weight:
  assumes "run_route L rq nm_init = (x, s)"
  shows "nm_weight s \<le> 15"
proof -
  have lookup: "handler_weight h \<le> 14" for h :: "'a path_handler"
    by (cases h) (simp_all add: page_weight_def)
  show ?thesis
  proof (cases "\<exists>n h. run_route L rq = getDomainObjectPath n h")
    case True
    with assms lookup show ?thesis
      by (auto simp: getDomainObjectPath_def call_apply nm_init_def nm_weight_def)
  next
    case False
    then have "emits plain 5 (run_route L rq)"
      by (intro emits_plain_route [OF refl] notI; simp add: run_route_def domain_get_def domain_patch_def
          domain_resetStatistics_def domain_changeState_def; blast)
    from growsD [OF grows_emits [OF this] assms] show ?thesis by (simp add: nm_init_def nm_weight_def)
  qed
qed

lemma steps_weight: "(nm_step L ^^ n) s s' \<Longrightarrow> nm_weight s' + n \<le> nm_weight s"
proof (induction n arbitrary: s')
  case 0
  then show ?case by simp
next
  case (Suc n)
  then obtain t where "(nm_step L ^^ n) s t" "nm_step L t s'" by auto
  with Suc.IH [OF this(1)] step_weight [OF this(2)] show ?case by simp
qed

lemma step_enabled: "nm_calls s \<noteq> [] \<longleftrightarrow> (\<exists>s'. nm_step L s s')"
proof
  assume "nm_calls s \<noteq> []"
  then obtain c cs where c: "nm_calls s = [] @ c # cs" by (cases "nm_calls s") auto
  obtain x s' where "resume L (dc_cont c) R_void (s\<lparr>nm_calls := [] @ cs\<rparr>) = (x, s')" by fastforce
  with c show "\<exists>s'. nm_step L s s'" by (blast intro: nm_step.reply)
qed (auto elim: nm_stepE)

section \<open>Reading requests only read\<close>

fun read_cont :: "'q nm_cont \<Rightarrow> bool" where
  "read_cont (K_getPolicy n) = True"
| "read_cont (K_domainObjectPath n (PH_getDomain m)) = True"
| "read_cont k = page_cont k"

definition reads :: "'q nm_cont dbus_call \<Rightarrow> bool" where
  "reads c \<longleftrightarrow> dc_method c \<in> set read_methods \<and> read_cont (dc_cont c)"

lemma page_reads: "page_call c \<Longrightarrow> reads c"
  by (cases "dc_cont c" rule: page_cont.cases) (auto simp: page_call_def reads_def)

lemma emits_read_pages:
  "emits reads page_weight (getDomain name path)" "emits reads 2 (thenE (getAttributes path) (getStatistics path))"
  by (rule emits_mono [OF emits_getDomain], erule page_reads) (rule emits_mono [OF emits_show_policy], erule page_reads)

lemma emits_reads_resume:
  assumes "read_cont k"
  shows "emits reads page_weight (resume L k r)"
proof -
  have dm: "emits reads page_weight (onDomainObjectPath L n (PH_getDomain m) ps)" for n m ps
    unfolding onDomainObjectPath_def domainHandler_def path_handler.case
    by (intro emits_then_last emits_bind_last emits_split emits_base emits_read_pages)
  have pl: "emits reads page_weight (onGetPolicy L n ps)" for n ps
    unfolding onGetPolicy_def
    by (intro emits_then_last emits_bind_last emits_split emits_base emits_read_pages [THEN emits_weaken])
      (simp add: page_weight_def)
  have fd: "emits reads page_weight (onFindPolicies L cb found)" if "page_cont (K_findPolicies cb p)" for cb p found
    using that unfolding onFindPolicies_def by (cases cb) (auto intro: emits_silent)
  show ?thesis
    using assms dm pl fd by (cases k rule: read_cont.cases) (auto simp: resume_def intro!: emits_silent)
qed

definition read_state :: "'q nm_state \<Rightarrow> bool" where
  "read_state s \<longleftrightarrow> (\<forall>c \<in> set (nm_calls s). reads c)"

lemma read_state_start:
  assumes "run_route L rq nm_init = (x, s)" and "rq \<in> {GET_policies, GET_policy n, GET_domain n}"
  shows "read_state s"
proof -
  have e: "emits reads 11 (run_route L rq)"
    using assms(2) by (auto simp: run_route_def policies_get_def policy_get_def domain_get_def getDomainObjectPath_def
        asyncFindPolicies_def reads_def read_methods_def page_weight_def intro!: emits_then_last emits_base emits_call)
  from emitsD [OF e assms(1)] show ?thesis by (auto simp: read_state_def nm_init_def list_all_iff)
qed

lemma read_state_step:
  assumes "read_state s" and "nm_step L s s'"
  shows "read_state s'"
  using assms(2)
proof cases
  case (reply xs c ys r x)
  then have "reads c" using assms(1) by (simp add: read_state_def)
  then have "emits reads page_weight (resume L (dc_cont c) r)"
    by (intro emits_reads_resume) (simp add: reads_def)
  from emitsD [OF this reply(2)] reply(1) assms(1) show ?thesis
    by (auto simp: read_state_def list_all_iff)
qed

section \<open>An error status stays\<close>

text \<open>
  A call that may lower the status, or whose handler issues one that may, is the only one in flight and
  nothing has failed before it.  Two calls of \<open>ResetStatistics\<close> in one request are the exception.
\<close>

fun leaf_cont :: "'q nm_cont \<Rightarrow> bool" where
  "leaf_cont K_policyEnabled = True"
| "leaf_cont (K_setProperty property v fin) = True"
| "leaf_cont k = page_cont k"

definition leafs :: "'q nm_state \<Rightarrow> bool" where
  "leafs s \<longleftrightarrow> (\<forall>c \<in> set (nm_calls s). leaf_cont (dc_cont c))"

fun resets_domain :: "'q nm_cont \<Rightarrow> bool" where
  "resets_domain (K_domainObjectPath n (PH_resetDomainStatistics m)) = True"
| "resets_domain _ = False"

definition solo_inv :: "'q nm_state \<Rightarrow> bool" where
  "solo_inv s \<longleftrightarrow> leafs s \<or>
     (\<exists>c. nm_calls s = [c] \<and> r_result (nm_res s) = http_ok \<and> \<not> resets_domain (dc_cont c))"

lemma page_leaf: "page_call c \<Longrightarrow> leaf_cont (dc_cont c)"
  by (cases "dc_cont c" rule: page_cont.cases) (auto simp: page_call_def)

lemma keeps_leafs_emits: "emits (\<lambda>c. leaf_cont (dc_cont c)) n m \<Longrightarrow> keeps leafs m"
proof (rule keepsI)
  fix s :: "'a nm_state"
  assume e: "emits (\<lambda>c. leaf_cont (dc_cont c)) n m" and l: "leafs s"
  obtain x t where "m s = (x, t)" by fastforce
  with emitsD [OF e this] l show "leafs (snd (m s))" by (auto simp: leafs_def list_all_iff)
qed

lemma emits_leaf_pages:
  "emits (\<lambda>c. leaf_cont (dc_cont c)) page_weight (getDomain name path)"
  "emits (\<lambda>c. leaf_cont (dc_cont c)) 2 (thenE (getAttributes path) (getStatistics path))"
  by (rule emits_mono [OF emits_getDomain], erule page_leaf) (rule emits_mono [OF emits_show_policy], erule page_leaf)

lemma keeps_leafs_final [keeps_intro]:
  "keeps leafs (set_if path i property v)" "keeps leafs (new_final n path)" "keeps leafs release_final"
proof -
  show "keeps leafs (set_if path i property v)"
    by (auto simp: keeps_def leafs_def set_if_def setProperty_def hold_final_def thenE_apply call_apply split: option.split)
  show "keeps leafs (new_final n path)"
    by (auto simp: keeps_def leafs_def new_final_def)
  show "keeps leafs release_final"
    unfolding release_final_def
    by (intro keeps_intro keeps_leafs_emits [OF emits_leaf_pages(1)]) (simp_all add: leafs_def)
qed

lemma keeps_leafs_base [keeps_intro]: "keeps leafs (with_res f)" "keeps leafs (send L m)"
  by (rule keeps_leafs_emits, rule emits_base)+

lemma keeps_leafs_patch: "keeps leafs (patchDomain L q n path)"
  unfolding patchDomain_def seqE.simps setCapabilities_def setLimitBiases_def by (intro keeps_intro)

lemma keeps_leafs_resume: "leaf_cont k \<Longrightarrow> keeps leafs (resume L k r)"
proof -
  assume l: "leaf_cont k"
  have fd: "emits (\<lambda>c. leaf_cont (dc_cont c)) 0 (onFindPolicies L cb found)" if "page_cont (K_findPolicies cb p)" for cb p found
    using that unfolding onFindPolicies_def by (cases cb) (auto intro: emits_silent)
  have sp: "keeps leafs (onSetProperty L property v fin reply)" for property v fin reply
    unfolding onSetProperty_def by (intro keeps_intro)
  show ?thesis
    using l fd sp
    by (cases k rule: leaf_cont.cases)
      (auto simp: resume_def intro: keeps_leafs_emits emits_silent [where n = 0])
qed

text \<open>The registered messages of an error set a status of 400 or more.\<close>

definition failures_ok :: "'q redfish_lib \<Rightarrow> bool" where
  "failures_ok L \<longleftrightarrow> (\<forall>m n. m \<noteq> M_created \<longrightarrow> 400 \<le> msg_result L m n)"

definition failed :: "'q nm_state \<Rightarrow> bool" where
  "failed s \<longleftrightarrow> 400 \<le> r_result (nm_res s)"

lemma keeps_failed_base [keeps_intro]:
  "keeps failed (put p v)" "keeps failed (push p v)" "keeps failed (call sv path i m args k)"
  "keeps failed (set_if path i property d)"
  by (auto simp: keeps_def failed_def put_def push_def upd_json_def call_apply set_if_def setProperty_def
      hold_final_def thenE_apply split: sum.split option.split)

lemma keeps_failed_send: "failures_ok L \<Longrightarrow> m \<noteq> M_created \<Longrightarrow> keeps failed (send L m)"
  by (auto simp: keeps_def failed_def failures_ok_def send_apply add_message_def)

lemma keeps_failed_getDomain [keeps_intro]: "keeps failed (getDomain name path)"
  unfolding getDomain_def seqE.simps getAttributes_def getStatistics_def getEnabled_def getCapabilities_def
    getComponentCapabilities_def getDomainTriggers_def getLimitingPolicies_def asyncFindPolicies_def getLimitBias_def
  by (intro keeps_intro)

lemma keeps_failed_release [keeps_intro]: "keeps failed release_final"
  unfolding release_final_def by (intro keeps_intro) (simp_all add: failed_def)

lemma keeps_failed_pages:
  assumes "failures_ok L"
  shows "keeps failed (onGetEnabled L b)" "keeps failed (onGetStatistics L c)" "keeps failed (onGetAttributes L b)"
    "keeps failed (onPolicyEnabled L d)" "keeps failed (onGetComponentCapabilities L e)"
    "keeps failed (onGetCapabilities L b)" "keeps failed (onGetDomainTriggers L v)"
    "keeps failed (onGetLimitBias L name w)" "keeps failed (onGetLimitingPolicies L ps)"
    "keeps failed (addPolicies L ps)" "keeps failed (addDomainPolicies L ps)"
    "keeps failed (onSetProperty L property x fin d)"
  unfolding onGetEnabled_def onGetStatistics_def onGetAttributes_def onPolicyEnabled_def
    onGetComponentCapabilities_def onGetCapabilities_def onGetDomainTriggers_def onGetLimitBias_def
    onGetLimitingPolicies_def addPolicies_def addDomainPolicies_def onSetProperty_def parseProperty_process_def
    parseProperty_def parseProperty_map_process_def parseProperty_map_def policyTypeAttributes_def Let_def seqE.simps
  by (intro keeps_intro keeps_failed_send [OF assms]; simp)+

lemma keeps_failed_resume:
  assumes "failures_ok L" and "leaf_cont k"
  shows "keeps failed (resume L k r)"
proof -
  have fd: "keeps failed (onFindPolicies L cb found)" if "page_cont (K_findPolicies cb p)" for cb p found
    using that keeps_failed_pages [OF assms(1)] unfolding onFindPolicies_def by (cases cb) auto
  show ?thesis
    using assms(2) fd keeps_failed_pages [OF assms(1)]
    by (cases k rule: leaf_cont.cases) (auto simp: resume_def)
qed

subsection \<open>Handlers of a call that is alone\<close>

definition single :: "('q nm_state, 'a) exm \<Rightarrow> bool" where
  "single m \<longleftrightarrow> (\<forall>s. nm_calls s = [] \<longrightarrow> r_result (nm_res s) = http_ok \<longrightarrow> solo_inv (snd (m s)))"

lemma single_leafs: "keeps leafs m \<Longrightarrow> single m"
  unfolding single_def solo_inv_def
proof (intro allI impI disjI1)
  fix s :: "'a nm_state"
  assume k: "keeps leafs m" and c: "nm_calls s = []"
  have "leafs s" using c by (simp add: leafs_def)
  with k show "leafs (snd (m s))" by (simp add: keeps_def)
qed

lemma single_call: "\<not> resets_domain k \<Longrightarrow> single (call sv path i m args k)"
  by (simp add: single_def solo_inv_def call_apply)

lemma single_silent: "emits (\<lambda>c. leaf_cont (dc_cont c)) n m \<Longrightarrow> single m"
  by (intro single_leafs keeps_leafs_emits)

lemma single_split:
  "single m \<Longrightarrow> single k \<Longrightarrow> single (if b then m else k)"
  "single m \<Longrightarrow> (\<And>a. single (f a)) \<Longrightarrow> single (case x of None \<Rightarrow> m | Some a \<Rightarrow> f a)"
  by (auto split: option.split)

lemma single_changeState:
  assumes "readers_ok L"
  shows "single (changeDbusObjectState L q n a path)"
  unfolding single_def
proof (intro allI impI)
  fix s :: "'a nm_state"
  assume s: "nm_calls s = []" "r_result (nm_res s) = http_ok"
  obtain vo r where rd: "readJsonAction L q [(''State'', T_string, True)] (nm_res s) = (vo, r)" by fastforce
  show "solo_inv (snd (changeDbusObjectState L q n a path s))"
  proof (cases vo)
    case None
    with rd s show ?thesis
      by (simp add: changeDbusObjectState_def bindE_apply with_res_def send_apply solo_inv_def leafs_def)
  next
    case (Some vals)
    then have "r = nm_res s" using reader_done [OF readers_action [OF assms]] rd by blast
    with Some rd s show ?thesis
      by (simp add: changeDbusObjectState_def bindE_apply with_res_def send_apply solo_inv_def leafs_def need_def
          call_apply split: option.split)
  qed
qed

lemma single_policy_replies:
  assumes "readers_ok L"
  shows "single (removePolicy L i found)" "single (onPatchPolicy L q path b)"
    "single (onChangePolicyState L q path n b)" "single (policyHandler h path)"
proof -
  show "single (removePolicy L i found)"
    by (auto simp: single_def removePolicy_def solo_inv_def leafs_def send_apply call_apply split: sum.split list.split)
  show "single (policyHandler h path)"
    by (auto simp: single_def policyHandler_def solo_inv_def leafs_def resetStatistics_def call_apply split: path_handler.split)
  show "single (onChangePolicyState L q path n b)"
    using single_changeState [OF assms]
    by (auto simp: single_def onChangePolicyState_def solo_inv_def leafs_def send_apply split: sum.split)
  have u: "nm_calls t = nm_calls s" if "updatePolicyParamsWithJsonValues L q p s = (x, t)" for p s x t
    using keepsD [OF keeps_update_calls, of "nm_calls s" s] that by (auto simp: same_calls_def)
  show "single (onPatchPolicy L q path b)"
    by (auto simp: single_def onPatchPolicy_def solo_inv_def leafs_def send_apply call_apply bindE_apply dest: u
        split: sum.split option.split prod.split)
qed

lemma single_lookup:
  fixes h :: "string \<Rightarrow> ('q nm_state, unit) exm"
  assumes "\<And>p. single (h p)"
  shows "single (thenE (if isl reply then send L M_internalError else ret ())
    (bindE (lift_sum (find_path L pat (reply_list reply))) (\<lambda>po. case po of
       None \<Rightarrow> send L m | Some p \<Rightarrow> h p)))"
proof (cases reply)
  case (Inl e)
  then show ?thesis
    by (simp add: single_def thenE_apply send_apply reply_list_def bindE_lift_sum solo_inv_def leafs_def)
next
  case (Inr objects)
  show ?thesis
  proof (cases "find_path L pat objects")
    case (Inl e)
    with Inr show ?thesis
      by (simp add: single_def thenE_ret reply_list_def bindE_lift_sum solo_inv_def leafs_def)
  next
    case ok: (Inr po)
    have "single (send L m :: ('q nm_state, unit) exm)"
      by (simp add: single_def send_apply solo_inv_def leafs_def)
    with assms Inr ok show ?thesis
      by (simp add: thenE_ret reply_list_def bindE_lift_sum split: option.split)
  qed
qed

lemma single_domainHandler:
  assumes "readers_ok L" and "\<And>n. h \<noteq> PH_resetDomainStatistics n"
  shows "single (domainHandler L h path)"
  using assms(2) single_changeState [OF assms(1)] single_leafs [OF keeps_leafs_patch]
    single_leafs [OF keeps_leafs_emits [OF emits_leaf_pages(1)]] single_leafs [OF keeps_leafs_emits [OF emits_base(1)]]
  by (cases h) (auto simp: domainHandler_def)

lemma single_resume:
  assumes R: "readers_ok L" and "\<not> resets_domain k"
  shows "single (resume L k r)"
proof -
  have pages: "single (thenE (getAttributes p) (getStatistics p))" for p
    by (rule single_leafs [OF keeps_leafs_emits [OF emits_leaf_pages(2)]])
  have quiet: "single (resume L k r)" if "emits (\<lambda>c. leaf_cont (dc_cont c)) n (resume L k r)" for n
    by (rule single_leafs [OF keeps_leafs_emits [OF that]])
  have en: "emits (\<lambda>c. leaf_cont (dc_cont c)) 1 (if state then call kNodeManagerService p dbusProperties ''Set''
      [A_string objectEnable, A_string ''Enabled'', A_variant (DV_bool True)] K_policyEnabled else ret ())" for state p
    by (intro emits_split emits_base emits_call) simp_all
  have created: "emits (\<lambda>c. leaf_cont (dc_cont c)) 3 (onPolicyCreated L q state e)" for q state e
    unfolding onPolicyCreated_def
    by (intro emits_split(3) emits_silent emits_then_last [OF emits_base(8)]
        emits_two [OF en emits_leaf_pages(2)]) simp
  have updated: "emits (\<lambda>c. leaf_cont (dc_cont c)) 2 (onPolicyUpdated L q p d)" for q p d
    unfolding onPolicyUpdated_def by (intro emits_split emits_silent emits_leaf_pages)
  have find: "single (onFindPolicies L cb found)" for cb found
    using single_policy_replies(1) [OF R] emits_silent(13,14) [where n = 0] single_silent
    unfolding onFindPolicies_def by (cases cb) (auto, blast+)
  show ?thesis
  proof (cases "leaf_cont k")
    case True
    then show ?thesis by (rule single_leafs [OF keeps_leafs_resume])
  next
    case False
    note quiets = single_silent [OF emits_silent(3) [where n = 0]] single_silent [OF emits_silent(4) [where n = 0]]
      single_silent [OF emits_silent(6) [where n = 0]]
    show ?thesis
    proof (cases k)
      case (K_policyObjectPath n h)
      then show ?thesis
        by (simp add: resume_def onPolicyObjectPath_def single_lookup single_policy_replies(4) [OF R])
    next
      case (K_domainObjectPath n h)
      with assms(2) have "\<And>m. h \<noteq> PH_resetDomainStatistics m" by auto
      with K_domainObjectPath show ?thesis
        by (simp add: resume_def onDomainObjectPath_def single_lookup single_domainHandler [OF R])
    next
      case (K_getPolicy n)
      then show ?thesis by (simp add: resume_def onGetPolicy_def single_lookup pages)
    qed (use False find quiets single_policy_replies [OF R] single_silent [OF created] single_silent [OF updated]
        in \<open>auto simp: resume_def\<close>)
  qed
qed

lemma solo_inv_step:
  assumes "readers_ok L" and "solo_inv s" and "nm_step L s s'"
  shows "solo_inv s'"
  using assms(3)
proof cases
  case (reply xs c ys r x)
  define t where "t = s\<lparr>nm_calls := xs @ ys\<rparr>"
  have run: "resume L (dc_cont c) r t = (x, s')" using reply(2) by (simp add: t_def)
  from assms(2) consider "leafs s"
    | "nm_calls s = [c]" "r_result (nm_res s) = http_ok" "\<not> resets_domain (dc_cont c)"
    using reply(1) by (auto simp: solo_inv_def append_eq_Cons_conv)
  then show ?thesis
  proof cases
    case 1
    then have "leafs t" "leaf_cont (dc_cont c)" using reply(1) by (simp_all add: leafs_def t_def)
    then have "leafs s'" using keepsD [OF keeps_leafs_resume _ run] by blast
    then show ?thesis by (simp add: solo_inv_def)
  next
    case 2
    then have "nm_calls t = []" "r_result (nm_res t) = http_ok"
      using reply(1) by (simp_all add: t_def append_eq_Cons_conv)
    with single_resume [OF assms(1) 2(3), of r] run show ?thesis unfolding single_def by (metis snd_conv)
  qed
qed

text \<open>A failed request stays failed.\<close>

lemma failed_step:
  assumes "failures_ok L" and "solo_inv s" and "failed s" and "nm_step L s s'"
  shows "failed s'"
  using assms(4)
proof cases
  case (reply xs c ys r x)
  have "leafs s" using assms(2,3) by (auto simp: solo_inv_def failed_def http_ok_def)
  then have "leaf_cont (dc_cont c)" using reply(1) by (simp add: leafs_def)
  from keepsD [OF keeps_failed_resume [OF assms(1) this] _ reply(2)] assms(3) show ?thesis
    by (simp add: failed_def)
qed

lemma single_need: "(\<And>a. single (f a)) \<Longrightarrow> single (bindE (need x) f)"
  by (cases x) (auto simp: single_def need_def bindE_apply solo_inv_def leafs_def)

text \<open>The same from any status.\<close>

definition alone :: "('q nm_state, 'a) exm \<Rightarrow> bool" where
  "alone m \<longleftrightarrow> (\<forall>s. nm_calls s = [] \<longrightarrow> solo_inv (snd (m s)))"

lemma alone_bindE:
  assumes "keeps (same_calls []) m" and "\<And>a. alone (f a)"
  shows "alone (bindE m f)"
  unfolding alone_def
proof (intro allI impI)
  fix s :: "'a nm_state"
  assume "nm_calls s = []"
  moreover obtain r t where m: "m s = (r, t)" by fastforce
  ultimately have "nm_calls t = []" using keepsD [OF assms(1) _ m] by (simp add: same_calls_def)
  then show "solo_inv (snd (bindE m f s))"
    using m assms(2) by (cases r) (simp_all add: alone_def bindE_apply solo_inv_def leafs_def)
qed

lemma alone_checked: "single m \<Longrightarrow> alone (bindE (gets (\<lambda>s. r_result (nm_res s))) (\<lambda>result.
    if result \<noteq> http_ok then ret () else m))"
  by (auto simp: alone_def single_def bindE_apply solo_inv_def leafs_def)

lemma keeps_enum_calls: "keeps (same_calls c) (convertStringToEnum L z str name m)"
  unfolding convertStringToEnum_def by (intro keeps_intro)

lemma alone_post: "alone (policies_post L q)"
proof -
  have "alone (createPolicy L q vals t st)" for vals t st
    unfolding createPolicy_def
    by (intro alone_bindE keeps_need keeps_convertTime_calls keeps_enum_calls alone_checked single_need single_call) simp
  moreover have "alone (ret ())" by (simp add: alone_def solo_inv_def leafs_def)
  ultimately show ?thesis
    unfolding policies_post_def
    by (intro alone_bindE keeps_with_res_calls keeps_need) (auto intro!: alone_bindE keeps_with_res_calls keeps_need
        split: option.split)
qed

lemma solo_inv_start:
  assumes "run_route L rq nm_init = (x, s)" and "\<And>n. rq \<noteq> POST_domain_resetStatistics n"
  shows "solo_inv s"
proof -
  have post: "solo_inv s" if "policies_post L q nm_init = (x, s)" for q :: 'a
  proof -
    have "solo_inv (snd (policies_post L q nm_init))"
      using alone_post [of L q] unfolding alone_def by (simp add: nm_init_def)
    with that show ?thesis by simp
  qed
  show ?thesis
    using assms post
    by (cases rq) (auto simp: run_route_def policies_get_def policy_get_def policy_delete_def deletePolicy_def
        policy_patch_def policy_changeState_def policy_resetStatistics_def domain_get_def domain_patch_def
        domain_changeState_def getPolicyObjectPath_def getDomainObjectPath_def asyncFindPolicies_def solo_inv_def
        leafs_def call_apply send_apply nm_init_def thenE_apply put_apply response_new_def json_put_def
        split: if_splits)
qed

lemma solo_inv_reach:
  "nm_reach L rq s \<Longrightarrow> readers_ok L \<Longrightarrow> (\<And>n. rq \<noteq> POST_domain_resetStatistics n) \<Longrightarrow> solo_inv s"
  by (induction rule: nm_reach.induct) (auto intro: solo_inv_start solo_inv_step)

section \<open>Properties\<close>


definition demo_patch :: json where
  "demo_patch = J_object [(''Capabilities'', J_object [(''Max'', J_double 7)])]"

lemma demo_patch_run:
  "\<exists>s. nm_reach demo_redfish (PATCH_domain demo_patch ''D1'') s \<and> nm_final s \<noteq> None"
proof -
  define p where "p = ''/xyz/openbmc_project/NodeManager/Domain/D1''"
  obtain x and s1 :: "json nm_state" where 1: "run_route demo_redfish (PATCH_domain demo_patch ''D1'') nm_init = (x, s1)"
    by fastforce
  then have c1: "nm_calls s1 = [] @ \<lparr>dc_service = kObjectMapperService, dc_path = kObjectMapperObjectPath, dc_interface = kObjectMapperService,
      dc_method = ''GetSubTreePaths'', dc_args = [A_string kNodeManagerObjectPath, A_int 0,
      A_strings [kDomainAttributesInterface]], dc_cont = K_domainObjectPath ''D1'' (PH_patchDomain demo_patch ''D1'')\<rparr> # []"
    and f1: "nm_final s1 = None" "nm_res s1 = response_new"
    by (auto simp: run_route_def domain_patch_def getDomainObjectPath_def call_apply nm_init_def)
  obtain y s2 where 2: "resume demo_redfish (K_domainObjectPath ''D1'' (PH_patchDomain demo_patch ''D1'')) (R_paths [p])
      (s1\<lparr>nm_calls := [] @ []\<rparr>) = (y, s2)" by fastforce
  have ru: "readJsonAction demo_redfish = demo_read" "readJson demo_redfish = demo_read"
    by (simp_all add: demo_redfish_def)
  have lk: "regex_search demo_redfish (getDomainDbusPath ''D1'' @ ''$'') p = Inr True"
    by (simp add: demo_redfish_def getDomainDbusPath_def p_def)
  have "nm_final s2 \<noteq> None"
    using 2 f1 by (auto simp: resume_def reply_paths_def onDomainObjectPath_def thenE_apply bindE_apply reply_list_def lk
        domainHandler_def patchDomain_def with_res_def ru demo_patch_def demo_read_def new_final_def setCapabilities_def
        set_if_def setProperty_def hold_final_def call_apply release_final_def)
  moreover have "nm_reach demo_redfish (PATCH_domain demo_patch ''D1'') s2"
    by (rule nm_reach.step [OF nm_reach.start [OF 1]], rule nm_step.reply [OF c1]) (use 2 in simp)
  ultimately show ?thesis by blast
qed


text \<open>C9: Every request is answered: in any order of replies at most 15 replies follow the request, and as
  long as a call is pending some reply can be handled; so every execution ends with no call pending.\<close>

theorem every_request_ends:
  assumes "run_route L rq nm_init = (x, s)"
  shows "((nm_step L ^^ n) s s' \<longrightarrow> n \<le> 15) \<and> ((\<nexists>t. nm_step L s' t) \<longleftrightarrow> nm_calls s' = [])"
  using steps_weight [where s = s and s' = s' and n = n and L = L] start_weight [OF assms]
    step_enabled [where s = s' and L = L] by auto

theorem every_request_ends_witness:
  "\<exists>s t. run_route demo_redfish GET_policies nm_init = (Inr (), s) \<and> nm_step demo_redfish s t"
proof -
  obtain x and s :: "json nm_state" where run: "run_route demo_redfish GET_policies nm_init = (x, s)" by fastforce
  then have "nm_calls s \<noteq> []" "x = Inr ()"
    by (auto simp: run_route_def policies_get_def asyncFindPolicies_def thenE_apply put_apply json_put_def call_apply)
  with every_request_ends [OF run, of 0 s] run show ?thesis by blast
qed

text \<open>C11: The GET requests are safe: whatever the replies are and in whatever order they come, a GET of the
  collection, of a policy or of a domain only ever issues calls of reading methods.\<close>

theorem get_requests_only_read:
  assumes "nm_reach L rq s" and "rq \<in> {GET_policies, GET_policy n, GET_domain n}" and "c \<in> set (nm_calls s)"
  shows "dc_method c \<in> set read_methods"
proof -
  have "read_state s"
    using assms(1,2) by (induction rule: nm_reach.induct) (auto intro: read_state_start read_state_step)
  with assms(3) show ?thesis by (simp add: read_state_def reads_def)
qed

theorem get_requests_only_read_witness:
  "\<exists>s c. nm_reach demo_redfish (GET_policy ''P1'') s \<and> c \<in> set (nm_calls s) \<and> dc_method c \<in> set read_methods"
proof -
  obtain x and s :: "json nm_state" where run: "run_route demo_redfish (GET_policy ''P1'') nm_init = (x, s)" by fastforce
  then obtain c where c: "c \<in> set (nm_calls s)"
    by (auto simp: run_route_def policy_get_def call_apply nm_init_def)
  have "GET_policy ''P1'' \<in> {GET_policies, GET_policy ''P1'', GET_domain ''P1''}" by simp
  from get_requests_only_read [OF nm_reach.start [OF run] this c] c nm_reach.start [OF run] show ?thesis by blast
qed


lemma demo_failures_ok: "failures_ok demo_redfish"
  by (simp add: failures_ok_def demo_redfish_def)


text \<open>The reset of the statistics of the total power domain is the exception: when the first of its two
  calls fails and the second succeeds, the response has the error's message and yet the status 204.\<close>

theorem domain_reset_hides_error:
  "\<exists>s1 s2 s3. resetDomainStatistics acTotalPlatformPowerDomainId path s = (Inr (), s1) \<and>
     nm_calls s1 = nm_calls s @ map (\<lambda>p. \<lparr>dc_service = kNodeManagerService, dc_path = p, dc_interface = nmStatistics, dc_method = ''ResetStatistics'',
       dc_args = [], dc_cont = K_resetStatistics\<rparr>) [path, kNodeManagerObjectPath] \<and>
     resume L K_resetStatistics (R_error ec) (s1\<lparr>nm_calls := tl (nm_calls s1)\<rparr>) = (Inr (), s2) \<and>
     resume L K_resetStatistics R_void (s2\<lparr>nm_calls := tl (nm_calls s2)\<rparr>) = (Inr (), s3) \<and>
     r_msgs (nm_res s3) = r_msgs (nm_res s) @ [M_internalError] \<and> r_result (nm_res s3) = http_no_content"
  by (simp add: resetDomainStatistics_def resetStatistics_def thenE_apply call_apply resume_def onResetStatistics_def
      reply_void_def send_apply add_message_def set_result_apply)

end
