(* ===== verification/Nm_Power.thy ===== *)
theory Nm_Power
  imports Nm_Domains
begin

text \<open>
  \<open>power_utility.hpp\<close>: the nodes of the Redfish \<open>PowerControl\<close> array, each shown from and written to one
  DMTF power policy of Node Manager.  The state is the shared response, the calls in flight and, for the
  page of a single node, the callback that makes the node the whole page.
\<close>

section \<open>Names\<close>

definition dmtfPowerPolicyId :: string where "dmtfPowerPolicyId = ''DmtfPower''"
definition powerRootNode :: nat where "powerRootNode = 0"
definition tempNode :: nat where "tempNode = 1"
definition kTriggerType :: string where "kTriggerType = ''AlwaysOn''"
definition cpuDomainId :: string where "cpuDomainId = ''CPUSubsystem''"
definition memoryDomainId :: string where "memoryDomainId = ''MemorySubsystem''"
definition pcieDomainId :: string where "pcieDomainId = ''PCIe''"
definition dcTotalPowerDomainId :: string where "dcTotalPowerDomainId = ''DCTotalPlatformPower''"
definition allDevices :: u8 where "allDevices = 255"

definition selectNmService :: "string list \<Rightarrow> string" where
  "selectNmService getObjectType = (case getObjectType of
     [] \<Rightarrow> []
   | first # _ \<Rightarrow> (if list_ex (\<lambda>service. service = ''xyz.openbmc_project.NodeManager'') getObjectType
       then ''xyz.openbmc_project.NodeManager'' else first))"

definition limitExceptionMapping :: "(string \<times> int) list" where
  "limitExceptionMapping = [(''NoAction'', 0), (''HardPowerOff'', 1), (''LogEventOnly'', 2), (''Oem'', 3)]"

definition powerLimitStorageMapping :: "(string \<times> int) list" where
  "powerLimitStorageMapping = [(''Persistent'', 0), (''Volatile'', 1)]"

definition nmPath :: "string \<Rightarrow> string" where
  "nmPath domainId = ''/xyz/openbmc_project/NodeManager/Domain/'' @ domainId"

definition nmPolicyPath :: "string \<Rightarrow> string \<Rightarrow> string" where
  "nmPolicyPath domainId pId = nmPath domainId @ ''/Policy/'' @ pId"

text \<open>The two overloads of \<open>nmPolicyName\<close>; \<open>std::to_string\<close> of a device index.\<close>

definition device_string :: "u8 \<Rightarrow> string" where
  "device_string deviceIndex = to_string (unat deviceIndex)"

definition nmComponentPolicyName :: "string \<Rightarrow> u8 \<Rightarrow> string" where
  "nmComponentPolicyName type deviceIndex = dmtfPowerPolicyId @ ''_'' @ type @ device_string deviceIndex"

definition nmPolicyName :: "string \<Rightarrow> string" where
  "nmPolicyName type = (if type \<noteq> ''0'' then dmtfPowerPolicyId @ ''_'' @ type else dmtfPowerPolicyId)"

definition limitExceptionToInt :: "string \<Rightarrow> int option" where
  "limitExceptionToInt value = map_of limitExceptionMapping value"

definition limitExceptionToStr :: "int \<Rightarrow> string option" where
  "limitExceptionToStr value = map_option fst (find (\<lambda>e. snd e = value) limitExceptionMapping)"

definition powerLimitStorageToInt :: "string \<Rightarrow> int option" where
  "powerLimitStorageToInt value = map_of powerLimitStorageMapping value"

definition powerLimitStorageToStr :: "int \<Rightarrow> string option" where
  "powerLimitStorageToStr value = map_option fst (find (\<lambda>e. snd e = value) powerLimitStorageMapping)"

section \<open>Continuations\<close>

datatype 'q components_next =
    CB_collect
  | CB_member string
  | CB_patchMember 'q string
  | CB_override "json list"

datatype 'q object_next =
    GO_collect
  | GO_member string
  | GO_patchMember 'q string
  | GO_patch 'q

datatype 'q chassis_next =
    CN_collect
  | CN_member string
  | CN_patchMember 'q string

text \<open>
  One constructor for each lambda; those of a node carry the position of the node and whether they own a
  share of the callback of the page.
\<close>

datatype 'q pw_cont =
    PK_validHeader string
  | PK_chassisPaths string "'q chassis_next"
  | PK_getObject string "'q object_next"
  | PK_validOverride string string "json list"
  | PK_cpu string string "'q components_next"
  | PK_memory string string "'q components_next" "u8 list"
  | PK_pcie string string "'q components_next" "u8 list" "u8 list"
  | PK_powerLimit nat bool
  | PK_oem nat bool
  | PK_allocated nat bool
  | PK_capacity nat nat bool
  | PK_consumed nat bool
  | PK_max nat bool
  | PK_metrics nat bool
  | PK_status nat bool
  | PK_set string string "(string \<times> string \<times> string) option"
  | PK_enable string string
  | PK_ignored

type_synonym 'q pw_state = "('q pw_cont, unit) call_state"

definition pw_init :: "'q pw_state" where
  "pw_init = \<lparr>nm_res = response_new, nm_calls = [], nm_final = None\<rparr>"

section \<open>Writing a policy\<close>

definition enablePolicy :: "string \<Rightarrow> string \<Rightarrow> string \<Rightarrow> string \<Rightarrow> string \<Rightarrow> ('q pw_state, unit) exm" where
  "enablePolicy nmServiceName domainId policyId name value =
     call nmServiceName (nmPolicyPath domainId policyId) dbusProperties ''Set''
       [A_string objectEnable, A_string ''Enabled'', A_variant (DV_bool True)] (PK_enable name value)"

text \<open>The handler \<open>handleSetPropertyError\<close> reports the name and the value it was made for.\<close>

definition onEnablePolicy :: "'q redfish_lib \<Rightarrow> string \<Rightarrow> string \<Rightarrow> int + unit \<Rightarrow> ('q pw_state, unit) exm" where
  "onEnablePolicy L name value reply = (case reply of
     Inl ec \<Rightarrow> send L (M_propertyValueIncorrect name value)
   | Inr _ \<Rightarrow> ret ())"

definition defaultParams :: "u8 \<Rightarrow> PolicyParams" where
  "defaultParams deviceIndex = \<lparr>p_correctionInMs = 4000, p_limit = 0, p_statReportingPeriod = 1, p_policyStorage = 1,
     p_powerCorrectionType = 2, p_limitException = 0, p_suspendPeriods = [], p_thresholds = [],
     p_componentId = deviceIndex, p_triggerLimit = 0, p_triggerType = kTriggerType\<rparr>"

definition updatePolicyToDefaults :: "string \<Rightarrow> string \<Rightarrow> string \<Rightarrow> u8 \<Rightarrow> ('q pw_state, unit) exm" where
  "updatePolicyToDefaults domainId policyId nmServiceName deviceIndex = thenE
     (call nmServiceName (nmPolicyPath domainId policyId) nmPolicyAttributes ''Update''
        [A_params (defaultParams deviceIndex)] PK_ignored)
     (call nmServiceName (nmPolicyPath domainId policyId) dbusProperties ''Set''
        [A_string objectEnable, A_string ''Enabled'', A_variant (DV_bool False)] PK_ignored)"

definition set_attribute :: "string \<Rightarrow> string \<Rightarrow> string \<Rightarrow> string \<Rightarrow> variant \<Rightarrow> string \<Rightarrow> string \<Rightarrow> bool \<Rightarrow>
    ('q pw_state, unit) exm" where
  "set_attribute nmServiceName domainId policyId property v name value enable =
     call nmServiceName (nmPolicyPath domainId policyId) dbusProperties ''Set''
       [A_string nmPolicyAttributes, A_string property, A_variant v]
       (PK_set name value (if enable then Some (nmServiceName, domainId, policyId) else None))"

definition onSetAttribute :: "'q redfish_lib \<Rightarrow> string \<Rightarrow> string \<Rightarrow> (string \<times> string \<times> string) option \<Rightarrow> int + unit \<Rightarrow>
    ('q pw_state, unit) exm" where
  "onSetAttribute L name value enable reply = (case reply of
     Inl ec \<Rightarrow> send L (M_propertyValueIncorrect name value)
   | Inr _ \<Rightarrow> (case enable of
       Some (nmServiceName, domainId, policyId) \<Rightarrow> enablePolicy nmServiceName domainId policyId name value
     | None \<Rightarrow> ret ()))"

definition patchCorrectionInMs :: "string \<Rightarrow> string \<Rightarrow> string \<Rightarrow> u32 \<Rightarrow> ('q pw_state, unit) exm" where
  "patchCorrectionInMs domainId policyId nmServiceName correctionInMs =
     set_attribute nmServiceName domainId policyId ''CorrectionInMs'' (DV_u32 correctionInMs) ''CorrectionInMs''
       (to_string (unat correctionInMs)) True"

definition patchLimitInWatts :: "string \<Rightarrow> string \<Rightarrow> string \<Rightarrow> u16 \<Rightarrow> ('q pw_state, unit) exm" where
  "patchLimitInWatts domainId policyId nmServiceName limitInWatts =
     set_attribute nmServiceName domainId policyId ''Limit'' (DV_u16 limitInWatts) ''LimitInWatts''
       (to_string (unat limitInWatts)) True"

definition patchLimitException :: "'q redfish_lib \<Rightarrow> string \<Rightarrow> string \<Rightarrow> string \<Rightarrow> string \<Rightarrow> ('q pw_state, unit) exm" where
  "patchLimitException L domainId policyId nmServiceName limitExceptionStr =
     (case limitExceptionToInt limitExceptionStr of
        None \<Rightarrow> send L (M_propertyValueIncorrect ''LimitException'' limitExceptionStr)
      | Some limitException \<Rightarrow> set_attribute nmServiceName domainId policyId ''LimitException'' (DV_i32 limitException)
          ''LimitException'' (to_string (nat limitException)) True)"

definition patchPowerLimitStorage :: "'q redfish_lib \<Rightarrow> string \<Rightarrow> string \<Rightarrow> string \<Rightarrow> string \<Rightarrow> ('q pw_state, unit) exm" where
  "patchPowerLimitStorage L domainId policyId nmServiceName powerLimitStorageStr =
     (case powerLimitStorageToInt powerLimitStorageStr of
        None \<Rightarrow> send L (M_propertyValueIncorrect ''PowerLimitStorage'' powerLimitStorageStr)
      | Some powerLimitStorage \<Rightarrow> set_attribute nmServiceName domainId policyId ''PolicyStorage''
          (DV_i32 powerLimitStorage) ''PowerLimitStorage'' (to_string (nat powerLimitStorage)) False)"

text \<open>A member that is present and null.\<close>

definition null_member :: "string \<Rightarrow> json \<Rightarrow> bool" where
  "null_member k j \<longleftrightarrow> json_contains k j \<and> member k j = Some J_null"

text \<open>
  The three blocks that reset the policy for a null member and erase it; \<open>None\<close> is their early return.
\<close>

fun reset_nulls :: "string \<Rightarrow> string \<Rightarrow> string \<Rightarrow> u8 \<Rightarrow> string list \<Rightarrow> json \<Rightarrow> ('q pw_state, json option) exm" where
  "reset_nulls domainId policyId nmServiceName deviceIndex [] json = ret (Some json)"
| "reset_nulls domainId policyId nmServiceName deviceIndex (k # ks) json =
     (if null_member k json
      then thenE (updatePolicyToDefaults domainId policyId nmServiceName deviceIndex)
        (if json_empty (json_erase k json) then ret None
         else reset_nulls domainId policyId nmServiceName deviceIndex ks (json_erase k json))
      else reset_nulls domainId policyId nmServiceName deviceIndex ks json)"

definition powerLimitFields :: "jfield list" where
  "powerLimitFields = [(''LimitInWatts'', T_u16, False), (''LimitException'', T_string, False),
     (''CorrectionInMs'', T_u32, False)]"

definition patchPowerLimit ::
    "'q redfish_lib \<Rightarrow> string \<Rightarrow> string \<Rightarrow> u8 \<Rightarrow> string \<Rightarrow> json \<Rightarrow> ('q pw_state, unit) exm" where
  "patchPowerLimit L domainId policyId deviceIndex nmServiceName json =
     bindE (reset_nulls domainId policyId nmServiceName deviceIndex
         [''LimitInWatts'', ''LimitException'', ''CorrectionInMs''] json) (\<lambda>jo. case jo of
       None \<Rightarrow> ret ()
     | Some json' \<Rightarrow> bindE (with_res (readJson L json' powerLimitFields)) (\<lambda>vo. case vo of
         None \<Rightarrow> ret ()
       | Some vals \<Rightarrow> seqE [
           (case as_u16 (vals ''LimitInWatts'') of
              Some limitInWatts \<Rightarrow> patchLimitInWatts domainId policyId nmServiceName limitInWatts | None \<Rightarrow> ret ()),
           (case as_string (vals ''LimitException'') of
              Some limitException \<Rightarrow> patchLimitException L domainId policyId nmServiceName limitException
            | None \<Rightarrow> ret ()),
           (case as_u32 (vals ''CorrectionInMs'') of
              Some correctionInMs \<Rightarrow> patchCorrectionInMs domainId policyId nmServiceName correctionInMs
            | None \<Rightarrow> ret ())]))"

definition patchOemOpenBmc :: "'q redfish_lib \<Rightarrow> string \<Rightarrow> string \<Rightarrow> string \<Rightarrow> json \<Rightarrow> ('q pw_state, unit) exm" where
  "patchOemOpenBmc L domainId policyId nmServiceName json =
     (let json' = (if null_member ''PowerLimitStorage'' json then json_erase ''PowerLimitStorage'' json else json) in
      if null_member ''PowerLimitStorage'' json \<and> json_empty json' then ret ()
      else bindE (with_res (readJson L json' [(''PowerLimitStorage'', T_string, False)])) (\<lambda>vo. case vo of
        None \<Rightarrow> ret ()
      | Some vals \<Rightarrow> (case as_string (vals ''PowerLimitStorage'') of
          Some powerLimitStorage \<Rightarrow> patchPowerLimitStorage L domainId policyId nmServiceName powerLimitStorage
        | None \<Rightarrow> ret ())))"

text \<open>The object is taken by reference; the result is what is left of it.\<close>

definition patchOem :: "'q redfish_lib \<Rightarrow> string \<Rightarrow> string \<Rightarrow> string \<Rightarrow> json \<Rightarrow> ('q pw_state, json) exm" where
  "patchOem L domainId policyId nmServiceName json =
     (let json' = (if null_member ''OpenBmc'' json then json_erase ''OpenBmc'' json else json);
          fields = [(''OpenBmc'', T_json, False)] in
      if null_member ''OpenBmc'' json \<and> json_empty json' then ret json'
      else bindE (with_res (readJson L json' fields)) (\<lambda>vo. case vo of
        None \<Rightarrow> ret (readJson_rest L json' fields)
      | Some vals \<Rightarrow> thenE (case as_json (vals ''OpenBmc'') of
            Some openBmc \<Rightarrow> patchOemOpenBmc L domainId policyId nmServiceName openBmc
          | None \<Rightarrow> ret ())
         (ret (readJson_rest L json' fields))))"

section \<open>The parts of a node\<close>

text \<open>Writing below \<open>json["PowerControl"][idx]\<close>.\<close>

definition pc_upd :: "nat \<Rightarrow> string list \<Rightarrow> (json \<Rightarrow> exn + json) \<Rightarrow> ('q pw_state, unit) exm" where
  "pc_upd idx ks f = upd_json (json_upd [''PowerControl''] (json_at idx (json_upd ks f)))"

definition pc_put :: "nat \<Rightarrow> string list \<Rightarrow> json \<Rightarrow> ('q pw_state, unit) exm" where
  "pc_put idx ks v = pc_upd idx ks (\<lambda>_. Inr v)"

definition pc_push :: "nat \<Rightarrow> string list \<Rightarrow> json \<Rightarrow> ('q pw_state, unit) exm" where
  "pc_push idx ks v = pc_upd idx ks (json_append v)"

text \<open>A call whose handler captures the callback.\<close>

definition node_call :: "bool \<Rightarrow> string \<Rightarrow> string \<Rightarrow> string \<Rightarrow> string \<Rightarrow> dbus_arg list \<Rightarrow> 'q pw_cont \<Rightarrow>
    ('q pw_state, unit) exm" where
  "node_call finalCallback service path interface method args k =
     thenE (if finalCallback then hold_final else ret ()) (call service path interface method args k)"

text \<open>
  The test for a quiet NaN in \<open>setJsonPowerLimit\<close> asks \<open>std::numeric_limits\<close> of a reference type, which
  has none, so the value is stored as it is.
\<close>

definition getPowerLimit :: "string \<Rightarrow> string \<Rightarrow> nat \<Rightarrow> string \<Rightarrow> bool \<Rightarrow> ('q pw_state, unit) exm" where
  "getPowerLimit domainId policyId idx nmServiceName finalCallback = seqE [
     pc_put idx [''PowerLimit'', ''LimitException''] (J_double quiet_NaN),
     pc_put idx [''PowerLimit'', ''LimitInWatts''] (J_double quiet_NaN),
     pc_put idx [''PowerLimit'', ''CorrectionInMs''] (J_double quiet_NaN),
     node_call finalCallback nmServiceName (nmPolicyPath domainId policyId) dbusProperties ''GetAll''
       [A_string nmPolicyAttributes] (PK_powerLimit idx finalCallback)]"

text \<open>\<open>sdbusplus::unpackProperties\<close> throws unless every property is there with its type.\<close>

definition onPowerLimit :: "'q redfish_lib \<Rightarrow> nat \<Rightarrow> int + dbus_props \<Rightarrow> ('q pw_state, unit) exm" where
  "onPowerLimit L idx reply = (case reply of
     Inl ec \<Rightarrow> ret ()
   | Inr properties \<Rightarrow>
      (case (getPropertyValue v_u16 properties ''Limit'', getPropertyValue v_i32 properties ''LimitException'',
             getPropertyValue v_u32 properties ''CorrectionInMs'', getPropertyValue v_i32 properties ''PolicyState'') of
         (Some limit, Some limitException, Some correctionTimeMs, Some policyState) \<Rightarrow>
           (if isPolicyStateEnabled policyState then seqE [
              pc_put idx [''PowerLimit'', ''LimitInWatts''] (uint_json limit),
              pc_put idx [''PowerLimit'', ''CorrectionInMs''] (uint_json correctionTimeMs),
              (case limitExceptionToStr limitException of
                 Some limitExStr \<Rightarrow> pc_put idx [''PowerLimit'', ''LimitException''] (J_string limitExStr)
               | None \<Rightarrow> ret ())]
            else ret ())
       | _ \<Rightarrow> send L M_internalError))"

definition setOemPowerLimitStorage :: "nat \<Rightarrow> string option \<Rightarrow> ('q pw_state, unit) exm" where
  "setOemPowerLimitStorage idx value = thenE
     (pc_put idx [''Oem'', ''OpenBmc'', ''@odata.type''] (J_string ''#OemPower.PowerControl''))
     (pc_put idx [''Oem'', ''OpenBmc'', ''PowerLimitStorage''] (case value of Some v \<Rightarrow> J_string v | None \<Rightarrow> J_null))"

definition getOem :: "string \<Rightarrow> string \<Rightarrow> nat \<Rightarrow> string \<Rightarrow> bool \<Rightarrow> ('q pw_state, unit) exm" where
  "getOem domainId policyId idx nmServiceName finalCallback = thenE (setOemPowerLimitStorage idx None)
     (node_call finalCallback nmServiceName (nmPolicyPath domainId policyId) dbusProperties ''GetAll''
       [A_string nmPolicyAttributes] (PK_oem idx finalCallback))"

definition onOem :: "'q redfish_lib \<Rightarrow> nat \<Rightarrow> int + dbus_props \<Rightarrow> ('q pw_state, unit) exm" where
  "onOem L idx reply = (case reply of
     Inl ec \<Rightarrow> ret ()
   | Inr properties \<Rightarrow> (case getPropertyValue v_i32 properties ''PolicyStorage'' of
       Some policyStorage \<Rightarrow> setOemPowerLimitStorage idx (powerLimitStorageToStr policyStorage)
     | None \<Rightarrow> send L M_internalError))"

definition getAllocatedAndRequestedWatts :: "string \<Rightarrow> string \<Rightarrow> nat \<Rightarrow> string \<Rightarrow> bool \<Rightarrow> ('q pw_state, unit) exm" where
  "getAllocatedAndRequestedWatts domainId policyId powerControlIdx nmServiceName finalCallback = seqE [
     pc_put powerControlIdx [''PowerRequestedWatts''] J_null,
     pc_put powerControlIdx [''PowerAllocatedWatts''] J_null,
     node_call finalCallback nmServiceName (nmPolicyPath domainId policyId) dbusProperties ''Get''
       [A_string nmPolicyAttributes, A_string ''Limit''] (PK_allocated powerControlIdx finalCallback)]"

definition onAllocated :: "nat \<Rightarrow> int + u16 \<Rightarrow> ('q pw_state, unit) exm" where
  "onAllocated powerControlIdx reply = (case reply of
     Inl ec \<Rightarrow> ret ()
   | Inr limit \<Rightarrow> thenE (pc_put powerControlIdx [''PowerRequestedWatts''] (uint_json limit))
       (pc_put powerControlIdx [''PowerAllocatedWatts''] (uint_json limit)))"

definition double_json :: "dbl \<Rightarrow> json" where
  "double_json d = (if isnan d then J_null else J_double d)"

text \<open>The two overloads of \<open>getCapacityConsumedWattsInputRange\<close>: of a component and of a domain.\<close>

definition getComponentCapacity :: "string \<Rightarrow> string \<Rightarrow> nat \<Rightarrow> nat \<Rightarrow> string \<Rightarrow> bool \<Rightarrow> ('q pw_state, unit) exm" where
  "getComponentCapacity domainId policyId componentId powerControlIdx nmServiceName finalCallback = seqE [
     pc_put powerControlIdx [''PowerCapacityWatts''] (double_json quiet_NaN),
     pc_put powerControlIdx [''PowerConsumedWatts''] (double_json quiet_NaN),
     node_call finalCallback nmServiceName (nmPath domainId) kCapabilitiesInterface ''GetAllLimitsCapabilities'' []
       (PK_capacity componentId powerControlIdx finalCallback),
     node_call finalCallback nmServiceName (nmPolicyPath domainId policyId) nmStatistics ''GetStatistics'' []
       (PK_consumed powerControlIdx finalCallback)]"

definition logException :: "'q redfish_lib \<Rightarrow> ('q pw_state, unit) exm" where
  "logException L = send L M_internalError"

definition onComponentCapacity :: "'q redfish_lib \<Rightarrow> nat \<Rightarrow> nat \<Rightarrow> int + (string \<times> (string \<times> dbl) list) list \<Rightarrow>
    ('q pw_state, unit) exm" where
  "onComponentCapacity L componentId powerControlIdx reply = (case reply of
     Inl ec \<Rightarrow> ret ()
   | Inr response \<Rightarrow> (case map_of response (''Component_'' @ to_string componentId) of
       None \<Rightarrow> ret ()
     | Some caps \<Rightarrow> (case map_of caps ''Max'' of
         Some mx \<Rightarrow> pc_put powerControlIdx [''PowerCapacityWatts''] (double_json mx)
       | None \<Rightarrow> logException L)))"

definition onConsumed :: "'q redfish_lib \<Rightarrow> nat \<Rightarrow> int + (string \<times> dbus_props) list \<Rightarrow> ('q pw_state, unit) exm" where
  "onConsumed L powerControlIdx reply = (case reply of
     Inl ec \<Rightarrow> ret ()
   | Inr response \<Rightarrow> (case map_of response ''Power'' of
       None \<Rightarrow> ret ()
     | Some stats \<Rightarrow> (case getPropertyValue v_double stats ''Current'' of
         Some current \<Rightarrow> pc_put powerControlIdx [''PowerConsumedWatts''] (double_json current)
       | None \<Rightarrow> send L M_internalError)))"

definition getDomainCapacity :: "string \<Rightarrow> nat \<Rightarrow> string \<Rightarrow> bool \<Rightarrow> ('q pw_state, unit) exm" where
  "getDomainCapacity domainId powerControlIdx nmServiceName finalCallback = seqE [
     pc_put powerControlIdx [''PowerCapacityWatts''] (double_json quiet_NaN),
     pc_put powerControlIdx [''PowerConsumedWatts''] (double_json quiet_NaN),
     node_call finalCallback nmServiceName (nmPath domainId) dbusProperties ''Get''
       [A_string kCapabilitiesInterface, A_string ''Max''] (PK_max powerControlIdx finalCallback),
     node_call finalCallback nmServiceName (nmPath domainId) nmStatistics ''GetStatistics'' []
       (PK_consumed powerControlIdx finalCallback)]"

definition onDomainMax :: "nat \<Rightarrow> int + dbl \<Rightarrow> ('q pw_state, unit) exm" where
  "onDomainMax powerControlIdx reply = (case reply of
     Inl ec \<Rightarrow> ret ()
   | Inr mx \<Rightarrow> (if \<not> isnan mx then pc_put powerControlIdx [''PowerCapacityWatts''] (double_json mx) else ret ()))"

text \<open>A metric is null when it is not a number; the unsigned type has no quiet NaN, its initial value is 0.\<close>

definition metric_json :: "variant \<Rightarrow> json" where
  "metric_json v = (case v of DV_double d \<Rightarrow> double_json d | _ \<Rightarrow> variant_json v)"

definition put_metric :: "nat \<Rightarrow> string \<Rightarrow> variant \<Rightarrow> ('q pw_state, unit) exm" where
  "put_metric powerControlIdx key v = pc_put powerControlIdx [''PowerMetrics'', key] (metric_json v)"

definition put_interval :: "nat \<Rightarrow> variant \<Rightarrow> ('q pw_state, unit) exm" where
  "put_interval powerControlIdx v = (case v_u32 v of
     Some seconds \<Rightarrow> pc_put powerControlIdx [''PowerMetrics'', ''IntervalInMin''] (J_int (uint seconds div 60))
   | None \<Rightarrow> ret ())"

definition getPowerMetrics :: "string \<Rightarrow> string \<Rightarrow> nat \<Rightarrow> string \<Rightarrow> bool \<Rightarrow> ('q pw_state, unit) exm" where
  "getPowerMetrics domainId policyId powerControlIdx nmServiceName finalCallback = seqE [
     put_metric powerControlIdx ''AverageConsumedWatts'' (DV_u32 0),
     put_metric powerControlIdx ''IntervalInMin'' (DV_double quiet_NaN),
     put_metric powerControlIdx ''MaxConsumedWatts'' (DV_double quiet_NaN),
     put_metric powerControlIdx ''MinConsumedWatts'' (DV_double quiet_NaN),
     node_call finalCallback nmServiceName (nmPolicyPath domainId policyId) nmStatistics ''GetStatistics'' []
       (PK_metrics powerControlIdx finalCallback)]"

definition if_some :: "'a option \<Rightarrow> ('a \<Rightarrow> ('s, unit) exm) \<Rightarrow> ('s, unit) exm" where
  "if_some x f = (case x of Some a \<Rightarrow> f a | None \<Rightarrow> ret ())"

definition onMetrics :: "nat \<Rightarrow> int + (string \<times> dbus_props) list \<Rightarrow> ('q pw_state, unit) exm" where
  "onMetrics powerControlIdx reply = (case reply of
     Inl ec \<Rightarrow> ret ()
   | Inr response \<Rightarrow> if_some (map_of response ''Power'') (\<lambda>stats. seqE [
       if_some (map_of stats ''Max'') (put_metric powerControlIdx ''MaxConsumedWatts''),
       if_some (map_of stats ''Min'') (put_metric powerControlIdx ''MinConsumedWatts''),
       if_some (map_of stats ''Average'') (put_metric powerControlIdx ''AverageConsumedWatts''),
       if_some (map_of stats ''StatisticsReportingPeriod'') (put_interval powerControlIdx)]))"

text \<open>\<open>State\<close> and \<open>Health\<close> of a policy state; other values are ignored.\<close>

definition status_of :: "int \<Rightarrow> (string \<times> string) option" where
  "status_of policyState =
     (case to_PolicyState policyState of
        None \<Rightarrow> None
      | Some PS_disabled \<Rightarrow> Some (''Disabled'', ''OK'')
      | Some PS_suspended \<Rightarrow> Some (''StandbyOffline'', ''Warning'')
      | Some PS_pending \<Rightarrow> Some (''StandbyOffline'', ''OK'')
      | Some _ \<Rightarrow> Some (''Enabled'', ''OK''))"

definition getStatus :: "string \<Rightarrow> string \<Rightarrow> nat \<Rightarrow> string \<Rightarrow> bool \<Rightarrow> ('q pw_state, unit) exm" where
  "getStatus domainId policyId powerControlIdx nmServiceName finalCallback =
     node_call finalCallback nmServiceName (nmPolicyPath domainId policyId) dbusProperties ''GetAll''
       [A_string nmPolicyAttributes] (PK_status powerControlIdx finalCallback)"

definition onStatus :: "'q redfish_lib \<Rightarrow> nat \<Rightarrow> int + dbus_props \<Rightarrow> ('q pw_state, unit) exm" where
  "onStatus L powerControlIdx reply = (case reply of
     Inl ec \<Rightarrow> ret ()
   | Inr properties \<Rightarrow> (case getPropertyValue v_i32 properties ''PolicyState'' of
       Some policyState \<Rightarrow> if_some (status_of policyState) (\<lambda>(state, health).
         thenE (pc_put powerControlIdx [''Status'', ''State''] (J_string state))
           (pc_put powerControlIdx [''Status'', ''Health''] (J_string health)))
     | None \<Rightarrow> send L M_internalError))"

section \<open>Nodes\<close>

text \<open>
  The callback of a single node's page makes the node the whole response; with no callback the shares of
  the \<open>FinalCallback\<close> have no effect and are left out.
\<close>

definition json_index_at :: "nat \<Rightarrow> json \<Rightarrow> exn + json" where
  "json_index_at i j = (case j of
     J_null \<Rightarrow> Inr J_null
   | J_array vs \<Rightarrow> Inr (if i < length vs then vs ! i else J_null)
   | _ \<Rightarrow> Inl (Json_Error ''type_error.305''))"

definition show_node :: "('q pw_state, unit) exm" where
  "show_node = upd_json (\<lambda>j. sum_bind (json_index ''PowerControl'' j) (json_index_at tempNode))"

definition begin_page :: "bool \<Rightarrow> ('q pw_state, unit) exm" where
  "begin_page callback = (if callback then modify (\<lambda>s. s\<lparr>nm_final := Some (1, ())\<rparr>) else ret ())"

definition release_page :: "bool \<Rightarrow> ('q pw_state, unit) exm" where
  "release_page finalCallback = (if finalCallback then bindE (gets nm_final) (\<lambda>f. case f of
       None \<Rightarrow> ret ()
     | Some (n, u) \<Rightarrow> (if n \<le> 1 then thenE (modify (\<lambda>s. s\<lparr>nm_final := None\<rparr>)) show_node
         else modify (\<lambda>s. s\<lparr>nm_final := Some (n - 1, u)\<rparr>)))
     else ret ())"

definition powerControlUrl :: "string \<Rightarrow> string \<Rightarrow> string" where
  "powerControlUrl chassisId nameId = ''/redfish/v1/Chassis/'' @ chassisId @ ''/Power/PowerControl/'' @ nameId"

definition getPowerControlComponentNode ::
    "string \<Rightarrow> string \<Rightarrow> string \<Rightarrow> u8 \<Rightarrow> nat \<Rightarrow> string \<Rightarrow> nat \<Rightarrow> bool \<Rightarrow> ('q pw_state, unit) exm" where
  "getPowerControlComponentNode chassisId nmServiceName domainId deviceIndex powerControlIdx name aggregatorIdx callback =
     (let nameId = name @ device_string deviceIndex;
          link = J_object [(''@odata.id'', J_string (powerControlUrl chassisId nameId))];
          policyId = nmComponentPolicyName name deviceIndex in
      seqE [
        pc_put powerControlIdx [''RelatedItem@odata.count''] (J_int 0),
        pc_put powerControlIdx [''MemberId''] (J_string nameId),
        pc_put powerControlIdx [''Name''] (J_string (nameId @ '' Power Control'')),
        pc_put powerControlIdx [''@odata.id''] (J_string (powerControlUrl chassisId nameId)),
        pc_push powerRootNode [''RelatedItem''] link,
        pc_push aggregatorIdx [''RelatedItem''] link,
        pc_put powerControlIdx [''RelatedItem''] (J_array []),
        pc_put powerControlIdx [''@odata.type''] (J_string ''#Power.v1_1_0.PowerControl''),
        begin_page callback,
        getAllocatedAndRequestedWatts domainId policyId powerControlIdx nmServiceName callback,
        getComponentCapacity domainId policyId (unat deviceIndex) powerControlIdx nmServiceName callback,
        getPowerLimit domainId policyId powerControlIdx nmServiceName callback,
        getOem domainId policyId powerControlIdx nmServiceName callback,
        getPowerMetrics domainId policyId powerControlIdx nmServiceName callback,
        getStatus domainId policyId powerControlIdx nmServiceName callback,
        release_page callback])"

definition getPowerControlAggregateNode ::
    "string \<Rightarrow> string \<Rightarrow> string \<Rightarrow> nat \<Rightarrow> string \<Rightarrow> bool \<Rightarrow> ('q pw_state, unit) exm" where
  "getPowerControlAggregateNode chassisId nmServiceName aggregatorName powerControlIdx domainId callback =
     (let policyId = nmPolicyName aggregatorName in
      seqE [
        pc_put powerControlIdx [''MemberId''] (J_string aggregatorName),
        pc_put powerControlIdx [''Name''] (J_string (if aggregatorName = ''0'' then ''System Power Control''
          else aggregatorName @ '' Power Control'')),
        pc_put powerControlIdx [''@odata.id''] (J_string (powerControlUrl chassisId aggregatorName)),
        pc_put powerControlIdx [''@odata.type''] (J_string ''#Power.v1_1_0.PowerControl''),
        pc_push powerRootNode [''RelatedItem'']
          (J_object [(''@odata.id'', J_string (powerControlUrl chassisId aggregatorName))]),
        begin_page callback,
        getAllocatedAndRequestedWatts domainId policyId powerControlIdx nmServiceName callback,
        getDomainCapacity domainId powerControlIdx nmServiceName callback,
        getPowerLimit domainId policyId powerControlIdx nmServiceName callback,
        getOem domainId policyId powerControlIdx nmServiceName callback,
        getPowerMetrics domainId policyId powerControlIdx nmServiceName callback,
        getStatus domainId policyId powerControlIdx nmServiceName callback,
        release_page callback])"

section \<open>All nodes\<close>

definition getNmDmtfGroup ::
    "string \<Rightarrow> string \<Rightarrow> nat \<Rightarrow> u8 list \<Rightarrow> string \<Rightarrow> string \<Rightarrow> string \<Rightarrow> ('q pw_state, unit) exm" where
  "getNmDmtfGroup chassisId nmServiceName offsetIdx components aggregatorName nodePrefixName domainId = seqE [
     pc_put (offsetIdx + length components) [''RelatedItem@odata.count''] (J_int (int (length components))),
     pc_put (offsetIdx + length components) [''RelatedItem''] (J_array []),
     getPowerControlAggregateNode chassisId nmServiceName aggregatorName (offsetIdx + length components) domainId False,
     forE [0..<length components] (\<lambda>idx. getPowerControlComponentNode chassisId nmServiceName domainId
       (components ! idx) (offsetIdx + idx) nodePrefixName (offsetIdx + length components) False)]"

definition collectNmDmtfData ::
    "string \<Rightarrow> string \<Rightarrow> u8 list \<Rightarrow> u8 list \<Rightarrow> u8 list \<Rightarrow> ('q pw_state, unit) exm" where
  "collectNmDmtfData chassisId nmServiceName processors memories accelerators = seqE [
     pc_put powerRootNode [''RelatedItem@odata.count'']
       (J_int (int (length processors + length memories + length accelerators + 3))),
     pc_put powerRootNode [''MemberId''] (J_string ''0''),
     pc_put powerRootNode [''Name''] (J_string ''System Power Control''),
     pc_put powerRootNode [''@odata.id''] (J_string (powerControlUrl chassisId ''0'')),
     pc_put powerRootNode [''@odata.type''] (J_string ''#Power.v1_1_0.PowerControl''),
     getAllocatedAndRequestedWatts dcTotalPowerDomainId dmtfPowerPolicyId powerRootNode nmServiceName False,
     getDomainCapacity dcTotalPowerDomainId powerRootNode nmServiceName False,
     getPowerLimit dcTotalPowerDomainId dmtfPowerPolicyId powerRootNode nmServiceName False,
     getOem dcTotalPowerDomainId dmtfPowerPolicyId powerRootNode nmServiceName False,
     getPowerMetrics dcTotalPowerDomainId dmtfPowerPolicyId powerRootNode nmServiceName False,
     getStatus dcTotalPowerDomainId dmtfPowerPolicyId powerRootNode nmServiceName False,
     getNmDmtfGroup chassisId nmServiceName 1 accelerators ''Accelerators'' ''Accelerator'' pcieDomainId,
     getNmDmtfGroup chassisId nmServiceName (2 + length accelerators) processors ''Processors'' ''Processor''
       cpuDomainId,
     getNmDmtfGroup chassisId nmServiceName (3 + length accelerators + length processors) memories ''Memories''
       ''Memory'' memoryDomainId]"

type_synonym node_entry = "string \<times> string \<times> u8 \<times> string"

definition component_entry :: "string \<Rightarrow> string \<Rightarrow> u8 \<Rightarrow> node_entry" where
  "component_entry domainId prefix deviceIndex =
     (domainId, dmtfPowerPolicyId @ ''_'' @ prefix @ device_string deviceIndex, deviceIndex,
      prefix @ device_string deviceIndex)"

definition buildDomainPolicyMap :: "u8 list \<Rightarrow> u8 list \<Rightarrow> u8 list \<Rightarrow> node_entry list" where
  "buildDomainPolicyMap processors memories accelerators =
     [(dcTotalPowerDomainId, dmtfPowerPolicyId, allDevices, ''0'')] @
     map (component_entry pcieDomainId ''Accelerator'') accelerators @
     [(pcieDomainId, dmtfPowerPolicyId @ ''_Accelerators'', allDevices, ''Accelerators'')] @
     map (component_entry cpuDomainId ''Processor'') processors @
     [(cpuDomainId, dmtfPowerPolicyId @ ''_Processors'', allDevices, ''Processors'')] @
     map (component_entry memoryDomainId ''Memory'') memories @
     [(memoryDomainId, dmtfPowerPolicyId @ ''_Memories'', allDevices, ''Memories'')]"

definition find_member :: "string \<Rightarrow> node_entry list \<Rightarrow> node_entry option" where
  "find_member name entries = find (\<lambda>(domain, policy, index, memberId). memberId = name) entries"

section \<open>What is done with the components\<close>

definition getMember :: "'q redfish_lib \<Rightarrow> string \<Rightarrow> string \<Rightarrow> string \<Rightarrow> node_entry list \<Rightarrow> ('q pw_state, unit) exm" where
  "getMember L chassisId nmServiceName name entries = (case find_member name entries of
     None \<Rightarrow> send L (M_resourceNotFound ''PowerControl'' name)
   | Some (domain, policy, index, memberId) \<Rightarrow>
      (if index = allDevices
       then getPowerControlAggregateNode chassisId nmServiceName name tempNode domain True
       else getPowerControlComponentNode chassisId nmServiceName domain index tempNode (filter isalpha name)
         powerRootNode True))"

definition patchMember :: "'q redfish_lib \<Rightarrow> 'q \<Rightarrow> string \<Rightarrow> string \<Rightarrow> node_entry list \<Rightarrow> ('q pw_state, unit) exm" where
  "patchMember L req nmServiceName name entries =
     bindE (with_res (readJsonAction L req [(''Oem'', T_json, False), (''PowerLimit'', T_json, False)])) (\<lambda>vo. case vo of
       None \<Rightarrow> ret ()
     | Some vals \<Rightarrow> (case find_member name entries of
         None \<Rightarrow> send L (M_resourceNotFound ''PowerControl'' name)
       | Some (domain, policy, index, memberId) \<Rightarrow> thenE
          (case as_json (vals ''PowerLimit'') of
             Some powerLimit \<Rightarrow> patchPowerLimit L domain policy index nmServiceName powerLimit | None \<Rightarrow> ret ())
          (case as_json (vals ''Oem'') of
             Some oem \<Rightarrow> bindE (patchOem L domain policy nmServiceName oem) (\<lambda>_. ret ()) | None \<Rightarrow> ret ())))"

text \<open>
  The loop of \<open>setPowerCapOverride\<close>: \<open>list.at(i)\<close> throws behind the end of the list, and an object that
  cannot be read ends the loop.
\<close>

definition overrideFields :: "jfield list" where
  "overrideFields = [(''Oem'', T_json, False), (''PowerLimit'', T_json, False)]"

definition override_one :: "'q redfish_lib \<Rightarrow> string \<Rightarrow> node_entry \<Rightarrow> (string \<Rightarrow> jval option) \<Rightarrow> ('q pw_state, unit) exm" where
  "override_one L nmServiceName entry vals = (case entry of (domain, policy, deviceIndex, memberId) \<Rightarrow>
     bindE (case as_json (vals ''Oem'') of
         Some oem \<Rightarrow> patchOem L domain policy nmServiceName oem | None \<Rightarrow> ret J_null) (\<lambda>oem_left.
       thenE (case as_json (vals ''PowerLimit'') of
           Some powerLimit \<Rightarrow> patchPowerLimit L domain policy deviceIndex nmServiceName powerLimit | None \<Rightarrow> ret ())
         (case as_json (vals ''Oem'') of
           Some oem \<Rightarrow> bindE (patchOem L domain policy nmServiceName oem_left) (\<lambda>_. ret ()) | None \<Rightarrow> ret ())))"

fun override_from :: "'q redfish_lib \<Rightarrow> string \<Rightarrow> node_entry list \<Rightarrow> nat \<Rightarrow> json list \<Rightarrow> ('q pw_state, unit) exm" where
  "override_from L nmServiceName entries i [] = ret ()"
| "override_from L nmServiceName entries i (collection # rest) =
     (if length entries \<le> i then throw (Out_Of_Range ''vector::at'')
      else bindE (with_res (readJson L collection overrideFields)) (\<lambda>vo. case vo of
        None \<Rightarrow> ret ()
      | Some vals \<Rightarrow> thenE (override_one L nmServiceName (entries ! i) vals)
          (override_from L nmServiceName entries (Suc i) rest)))"

definition onComponents :: "'q redfish_lib \<Rightarrow> string \<Rightarrow> string \<Rightarrow> 'q components_next \<Rightarrow> u8 list \<Rightarrow> u8 list \<Rightarrow> u8 list \<Rightarrow>
    ('q pw_state, unit) exm" where
  "onComponents L chassisId nmServiceName callback processors memories accelerators = (case callback of
     CB_collect \<Rightarrow> collectNmDmtfData chassisId nmServiceName processors memories accelerators
   | CB_member name \<Rightarrow> getMember L chassisId nmServiceName name (buildDomainPolicyMap processors memories accelerators)
   | CB_patchMember req name \<Rightarrow>
       patchMember L req nmServiceName name (buildDomainPolicyMap processors memories accelerators)
   | CB_override powerControlCollections \<Rightarrow>
       override_from L nmServiceName (buildDomainPolicyMap processors memories accelerators) 0 powerControlCollections)"

section \<open>Asking for the components\<close>

definition get_available :: "string \<Rightarrow> string \<Rightarrow> 'q pw_cont \<Rightarrow> ('q pw_state, unit) exm" where
  "get_available nmServiceName domainId k = call nmServiceName (nmPath domainId) dbusProperties ''Get''
     [A_string kDomainAttributesInterface, A_string ''AvailableComponents''] k"

definition getComponents :: "string \<Rightarrow> string \<Rightarrow> 'q components_next \<Rightarrow> ('q pw_state, unit) exm" where
  "getComponents chassisId nmServiceName callback =
     get_available nmServiceName cpuDomainId (PK_cpu chassisId nmServiceName callback)"

text \<open>Only the page of a single node passes an \<open>onError\<close>.\<close>

definition onComponentsError :: "'q redfish_lib \<Rightarrow> 'q components_next \<Rightarrow> ('q pw_state, unit) exm" where
  "onComponentsError L callback = (case callback of
     CB_member name \<Rightarrow> send L M_serviceInUnknownState
   | _ \<Rightarrow> ret ())"

definition onCpu :: "'q redfish_lib \<Rightarrow> string \<Rightarrow> string \<Rightarrow> 'q components_next \<Rightarrow> int + u8 list \<Rightarrow>
    ('q pw_state, unit) exm" where
  "onCpu L chassisId nmServiceName callback reply = (case reply of
     Inl ec \<Rightarrow> onComponentsError L callback
   | Inr processors \<Rightarrow> get_available nmServiceName memoryDomainId
       (PK_memory chassisId nmServiceName callback processors))"

definition onMemory :: "'q redfish_lib \<Rightarrow> string \<Rightarrow> string \<Rightarrow> 'q components_next \<Rightarrow> u8 list \<Rightarrow> int + u8 list \<Rightarrow>
    ('q pw_state, unit) exm" where
  "onMemory L chassisId nmServiceName callback processors reply = (case reply of
     Inl ec \<Rightarrow> onComponentsError L callback
   | Inr memories \<Rightarrow> get_available nmServiceName pcieDomainId
       (PK_pcie chassisId nmServiceName callback processors memories))"

definition onPcie :: "'q redfish_lib \<Rightarrow> string \<Rightarrow> string \<Rightarrow> 'q components_next \<Rightarrow> u8 list \<Rightarrow> u8 list \<Rightarrow> int + u8 list \<Rightarrow>
    ('q pw_state, unit) exm" where
  "onPcie L chassisId nmServiceName callback processors memories reply = (case reply of
     Inl ec \<Rightarrow> onComponentsError L callback
   | Inr accelerators \<Rightarrow> onComponents L chassisId nmServiceName callback processors memories accelerators)"

definition getNmObject :: "string \<Rightarrow> 'q object_next \<Rightarrow> ('q pw_state, unit) exm" where
  "getNmObject chassisId k = call kObjectMapperService kObjectMapperObjectPath kObjectMapperService ''GetObject''
     [A_string kNodeManagerObjectPath, A_strings []] (PK_getObject chassisId k)"

definition getNmDmtfComponentByMemberId :: "string \<Rightarrow> string \<Rightarrow> ('q pw_state, unit) exm" where
  "getNmDmtfComponentByMemberId chassisId name = getNmObject chassisId (GO_member name)"

definition patchNmDmtfComponentByMemberId :: "'q \<Rightarrow> string \<Rightarrow> string \<Rightarrow> ('q pw_state, unit) exm" where
  "patchNmDmtfComponentByMemberId req chassisId name = thenE (set_result http_no_content)
     (getNmObject chassisId (GO_patchMember req name))"

end
