(* ===== verification/Nm_Chassis.thy ===== *)
theory Nm_Chassis
  imports Nm_Power
begin

text \<open>
  \<open>power.hpp\<close>: the routes of \<open>/redfish/v1/Chassis/<str>/Power\<close> and what they do with the replies, and the
  power pages as a whole: a request leaves calls in flight, and every reply resumes one of them.
\<close>

section \<open>The chassis of a request\<close>

text \<open>\<open>rfind('/')\<close>, also with an upper bound for the position.\<close>

fun rfind_slash :: "string \<Rightarrow> nat option" where
  "rfind_slash [] = None"
| "rfind_slash (c # cs) = (case rfind_slash cs of
     Some n \<Rightarrow> Some (Suc n)
   | None \<Rightarrow> if c = CHR ''/'' then Some 0 else None)"

definition rfind_slash_upto :: "string \<Rightarrow> nat \<Rightarrow> nat option" where
  "rfind_slash_upto s pos = rfind_slash (take (Suc pos) s)"

text \<open>
  The name of a chassis path: what follows the last slash, or, when that ends the path, what stands
  between the last two.  For the path of one slash, \<open>lastPos - 1\<close> wraps around, the same slash is found
  again, and the name is empty.
\<close>

definition interfaceChassisName :: "string \<Rightarrow> string option" where
  "interfaceChassisName chassis = (case rfind_slash chassis of
     None \<Rightarrow> None
   | Some lastPos \<Rightarrow>
      (if lastPos = length chassis - 1
       then if lastPos = 0 then Some []
         else (case rfind_slash_upto chassis (lastPos - 1) of
             None \<Rightarrow> None
           | Some pos \<Rightarrow> Some (take (lastPos - (pos + 1)) (drop (pos + 1) chassis)))
       else Some (drop (lastPos + 1) chassis)))"

definition chassisHandler :: "string \<Rightarrow> int + string list \<Rightarrow> bool" where
  "chassisHandler chassisId reply = (case reply of
     Inl e \<Rightarrow> False
   | Inr chassisPaths \<Rightarrow> list_ex (\<lambda>chassis. interfaceChassisName chassis = Some chassisId) chassisPaths)"

text \<open>The page with its header field, or an error when there is no such chassis.\<close>

definition doPowerHeader :: "'q redfish_lib \<Rightarrow> string \<Rightarrow> string option \<Rightarrow> ('q pw_state, unit) exm" where
  "doPowerHeader L chassisId validChassisPath = (case validChassisPath of
     None \<Rightarrow> send L (M_resourceNotFound ''Chassis'' chassisId)
   | Some path \<Rightarrow> seqE [
       addHeader ''Link'' ''</redfish/v1/JsonSchemas/Power/Power.json>; rel=describedby'',
       upd_json (json_put [''@odata.type''] (J_string ''#Power.v1_5_2.Power'')),
       upd_json (json_put [''Name''] (J_string ''Power'')),
       upd_json (json_put [''Id''] (J_string ''Power'')),
       upd_json (json_put [''@odata.id''] (J_string (''/redfish/v1/Chassis/'' @ chassisId @ ''/Power'')))])"

section \<open>Calls\<close>

text \<open>
  \<open>chassis_utils::getValidChassisPath\<close> is an asynchronous function of \<open>bmcweb\<close>; it is in flight like a
  call until it hands over a path or none.
\<close>

definition getValidChassisPath :: "string \<Rightarrow> 'q pw_cont \<Rightarrow> ('q pw_state, unit) exm" where
  "getValidChassisPath chassisId k = call [] [] ''chassis_utils'' ''getValidChassisPath'' [A_string chassisId] k"

definition reply_optional :: "dbus_reply \<Rightarrow> string option" where
  "reply_optional r = (case r of R_optional p \<Rightarrow> p | _ \<Rightarrow> None)"

definition getChassisPaths :: "string \<Rightarrow> 'q chassis_next \<Rightarrow> ('q pw_state, unit) exm" where
  "getChassisPaths chassisId k = call kObjectMapperService kObjectMapperObjectPath kObjectMapperService
     ''GetSubTreePaths'' [A_string ''/xyz/openbmc_project/inventory'', A_int 0,
       A_strings [''xyz.openbmc_project.Inventory.Item.Board'', ''xyz.openbmc_project.Inventory.Item.Chassis'']]
     (PK_chassisPaths chassisId k)"

definition getNodeManagerData :: "string \<Rightarrow> ('q pw_state, unit) exm" where
  "getNodeManagerData chassisId = getNmObject chassisId GO_collect"

definition onChassisPaths :: "string \<Rightarrow> 'q chassis_next \<Rightarrow> int + string list \<Rightarrow> ('q pw_state, unit) exm" where
  "onChassisPaths chassisId k reply =
     (if chassisHandler chassisId reply then (case k of
         CN_collect \<Rightarrow> getNodeManagerData chassisId
       | CN_member node \<Rightarrow> getNmDmtfComponentByMemberId chassisId node
       | CN_patchMember req node \<Rightarrow> patchNmDmtfComponentByMemberId req chassisId node)
      else ret ())"

text \<open>A failed lookup is only logged on the pages of the nodes: they go on with the empty service name.\<close>

definition setPowerCapOverride :: "string \<Rightarrow> string \<Rightarrow> json list \<Rightarrow> ('q pw_state, unit) exm" where
  "setPowerCapOverride chassisId nmServiceName powerControlCollections =
     getValidChassisPath chassisId (PK_validOverride chassisId nmServiceName powerControlCollections)"

definition onValidOverride :: "'q redfish_lib \<Rightarrow> string \<Rightarrow> string \<Rightarrow> json list \<Rightarrow> string option \<Rightarrow> ('q pw_state, unit) exm" where
  "onValidOverride L chassisId nmServiceName powerControlCollections chassisPath = (case chassisPath of
     None \<Rightarrow> send L (M_resourceNotFound ''Chassis'' chassisId)
   | Some path \<Rightarrow>
      (if powerControlCollections = [] then ret ()
       else getComponents chassisId nmServiceName (CB_override powerControlCollections)))"

definition patchPowerFields :: "jfield list" where
  "patchPowerFields = [(''PowerControl'', T_array, False)]"

definition onNmObject :: "'q redfish_lib \<Rightarrow> string \<Rightarrow> 'q object_next \<Rightarrow> int + string list \<Rightarrow> ('q pw_state, unit) exm" where
  "onNmObject L chassisId k reply =
     (let nmServiceName = selectNmService (reply_list reply) in
      case k of
        GO_collect \<Rightarrow> getComponents chassisId nmServiceName CB_collect
      | GO_member name \<Rightarrow> getComponents chassisId nmServiceName (CB_member name)
      | GO_patchMember req name \<Rightarrow> getComponents chassisId nmServiceName (CB_patchMember req name)
      | GO_patch req \<Rightarrow>
         (if isl reply then send L M_internalError
          else bindE (with_res (readJsonAction L req patchPowerFields)) (\<lambda>vo. case vo of
              None \<Rightarrow> ret ()
            | Some vals \<Rightarrow> (case as_array (vals ''PowerControl'') of
                Some powerCtlCollections \<Rightarrow> setPowerCapOverride chassisId nmServiceName powerCtlCollections
              | None \<Rightarrow> ret ()))))"

section \<open>Routes\<close>

definition power_get :: "string \<Rightarrow> ('q pw_state, unit) exm" where
  "power_get chassisName = seqE [
     getValidChassisPath chassisName (PK_validHeader chassisName),
     upd_json (json_put [''PowerControl''] (J_array [])),
     getChassisPaths chassisName CN_collect]"

definition powerControl_get :: "string \<Rightarrow> string \<Rightarrow> ('q pw_state, unit) exm" where
  "powerControl_get chassisName node = getChassisPaths chassisName (CN_member node)"

definition powerControl_patch :: "'q \<Rightarrow> string \<Rightarrow> string \<Rightarrow> ('q pw_state, unit) exm" where
  "powerControl_patch req chassisName node = getChassisPaths chassisName (CN_patchMember req node)"

definition power_patch :: "'q \<Rightarrow> string \<Rightarrow> ('q pw_state, unit) exm" where
  "power_patch req chassisName = thenE (set_result http_no_content) (getNmObject chassisName (GO_patch req))"

datatype 'q pw_request =
    GET_power string
  | GET_powerControl string string
  | PATCH_powerControl 'q string string
  | PATCH_power 'q string

definition run_power :: "'q pw_request \<Rightarrow> ('q pw_state, unit) exm" where
  "run_power rq = (case rq of
     GET_power chassisName \<Rightarrow> power_get chassisName
   | GET_powerControl chassisName node \<Rightarrow> powerControl_get chassisName node
   | PATCH_powerControl req chassisName node \<Rightarrow> powerControl_patch req chassisName node
   | PATCH_power req chassisName \<Rightarrow> power_patch req chassisName)"

section \<open>Replies\<close>

definition reply_u16 :: "dbus_reply \<Rightarrow> int + u16" where
  "reply_u16 r = (case reply_variant r of
     Inl e \<Rightarrow> Inl e | Inr v \<Rightarrow> (case v_u16 v of Some x \<Rightarrow> Inr x | None \<Rightarrow> Inl ec_decode))"

text \<open>The handler of a node is destroyed when it has run, and with it its share of the callback.\<close>

definition node_reply :: "bool \<Rightarrow> ('q pw_state, unit) exm \<Rightarrow> ('q pw_state, unit) exm" where
  "node_reply finalCallback handler = thenE handler (release_page finalCallback)"

definition pw_resume :: "'q redfish_lib \<Rightarrow> 'q pw_cont \<Rightarrow> dbus_reply \<Rightarrow> ('q pw_state, unit) exm" where
  "pw_resume L k r = (case k of
     PK_validHeader chassisId \<Rightarrow> doPowerHeader L chassisId (reply_optional r)
   | PK_chassisPaths chassisId n \<Rightarrow> onChassisPaths chassisId n (reply_paths r)
   | PK_getObject chassisId n \<Rightarrow> onNmObject L chassisId n (reply_services r)
   | PK_validOverride chassisId service collections \<Rightarrow>
       onValidOverride L chassisId service collections (reply_optional r)
   | PK_cpu chassisId service cb \<Rightarrow> onCpu L chassisId service cb (reply_bytes r)
   | PK_memory chassisId service cb processors \<Rightarrow> onMemory L chassisId service cb processors (reply_bytes r)
   | PK_pcie chassisId service cb processors memories \<Rightarrow>
       onPcie L chassisId service cb processors memories (reply_bytes r)
   | PK_powerLimit idx fin \<Rightarrow> node_reply fin (onPowerLimit L idx (reply_props r))
   | PK_oem idx fin \<Rightarrow> node_reply fin (onOem L idx (reply_props r))
   | PK_allocated idx fin \<Rightarrow> node_reply fin (onAllocated idx (reply_u16 r))
   | PK_capacity componentId idx fin \<Rightarrow> node_reply fin (onComponentCapacity L componentId idx (reply_limits r))
   | PK_consumed idx fin \<Rightarrow> node_reply fin (onConsumed L idx (reply_nested r))
   | PK_max idx fin \<Rightarrow> node_reply fin (onDomainMax idx (reply_double r))
   | PK_metrics idx fin \<Rightarrow> node_reply fin (onMetrics idx (reply_nested r))
   | PK_status idx fin \<Rightarrow> node_reply fin (onStatus L idx (reply_props r))
   | PK_set name value enable \<Rightarrow> onSetAttribute L name value enable (reply_void r)
   | PK_enable name value \<Rightarrow> onEnablePolicy L name value (reply_void r)
   | PK_ignored \<Rightarrow> ret ())"

inductive pw_step :: "'q redfish_lib \<Rightarrow> 'q pw_state \<Rightarrow> 'q pw_state \<Rightarrow> bool" for L where
  reply: "nm_calls s = xs @ c # ys \<Longrightarrow> pw_resume L (dc_cont c) r (s\<lparr>nm_calls := xs @ ys\<rparr>) = (x, s') \<Longrightarrow> pw_step L s s'"

inductive pw_reach :: "'q redfish_lib \<Rightarrow> 'q pw_request \<Rightarrow> 'q pw_state \<Rightarrow> bool" for L rq where
  start: "run_power rq pw_init = (x, s) \<Longrightarrow> pw_reach L rq s"
| step: "pw_reach L rq s \<Longrightarrow> pw_step L s s' \<Longrightarrow> pw_reach L rq s'"

end
