(* ===== verification/Nm_Nodes.thy ===== *)
theory Nm_Nodes
  imports Nm_Chassis
begin

text \<open>
  What the power pages promise: the nodes of the page and the entries of the list a PATCH goes through
  are in the same order and name the same policies, so that the position of an object in a PATCH means
  the node a GET shows at that position.
\<close>

section \<open>The shape of the page\<close>

declare json_upd.simps(2) [simp del]

definition set_member :: "string \<Rightarrow> json \<Rightarrow> json \<Rightarrow> json" where
  "set_member k x j = (case j of J_object m \<Rightarrow> J_object (obj_set k x m) | _ \<Rightarrow> J_object [(k, x)])"

definition member_or_null :: "string \<Rightarrow> json \<Rightarrow> json" where
  "member_or_null k j = (case member k j of Some v \<Rightarrow> v | None \<Rightarrow> J_null)"

lemma objectlike_null [simp]: "objectlike J_null"
  by (simp add: objectlike_def)

lemma member_null [simp]: "member k J_null = None"
  by (simp add: member_def)

lemma objectlike_set [simp]: "objectlike (set_member k x j)"
  by (auto simp: objectlike_def set_member_def split: json.split)

lemma member_set [simp]: "objectlike j \<Longrightarrow> member k' (set_member k x j) = (if k' = k then Some x else member k' j)"
  by (auto simp: objectlike_def set_member_def member_def split: json.splits)

lemma json_upd_set:
  "objectlike j \<Longrightarrow> json_upd (k # ks) f j = sum_bind (json_upd ks f (member_or_null k j)) (\<lambda>v. Inr (set_member k v j))"
  by (auto simp: json_upd.simps(2) objectlike_def set_member_def member_or_null_def member_def split: json.splits)

definition sub_ok :: "(json \<Rightarrow> bool) \<Rightarrow> string \<Rightarrow> json \<Rightarrow> bool" where
  "sub_ok P k j \<longleftrightarrow> (case member k j of None \<Rightarrow> True | Some w \<Rightarrow> P w)"

definition arraylike :: "json \<Rightarrow> bool" where
  "arraylike j \<longleftrightarrow> (case j of J_null \<Rightarrow> True | J_array vs \<Rightarrow> True | _ \<Rightarrow> False)"

lemma arraylike_simps [simp]: "arraylike J_null" "arraylike (J_array vs)"
  by (simp_all add: arraylike_def)

definition oem_ok :: "json \<Rightarrow> bool" where
  "oem_ok j \<longleftrightarrow> objectlike j \<and> sub_ok objectlike ''OpenBmc'' j"

definition node_ok :: "json \<Rightarrow> bool" where
  "node_ok j \<longleftrightarrow> objectlike j \<and> sub_ok objectlike ''PowerLimit'' j \<and> sub_ok objectlike ''PowerMetrics'' j \<and>
     sub_ok objectlike ''Status'' j \<and> sub_ok oem_ok ''Oem'' j \<and> sub_ok arraylike ''RelatedItem'' j"

text \<open>The paths below a node that the code writes.\<close>

fun node_path :: "string list \<Rightarrow> json \<Rightarrow> bool" where
  "node_path [k] x \<longleftrightarrow> (if k = ''RelatedItem'' then arraylike x
     else k \<notin> {''PowerLimit'', ''PowerMetrics'', ''Status'', ''Oem''})"
| "node_path [k, k'] x \<longleftrightarrow> k \<in> {''PowerLimit'', ''PowerMetrics'', ''Status''}"
| "node_path [k, k', k''] x \<longleftrightarrow> k = ''Oem'' \<and> k' = ''OpenBmc''"
| "node_path _ x \<longleftrightarrow> False"

lemma sub_ok_null: "P J_null \<Longrightarrow> sub_ok P k j \<Longrightarrow> P (member_or_null k j)"
  by (simp add: sub_ok_def member_or_null_def split: option.splits)

lemma sub_ok_set [simp]:
  "objectlike j \<Longrightarrow> sub_ok P k' (set_member k x j) \<longleftrightarrow> (if k' = k then P x else sub_ok P k' j)"
  by (simp add: sub_ok_def)

lemma sub_ok_empty [simp]: "sub_ok P k J_null"
  by (simp add: sub_ok_def)

lemma oem_ok_null [simp]: "oem_ok J_null"
  by (simp add: oem_ok_def)

lemma node_put:
  assumes "node_ok j" and "node_path ks x"
  shows "\<exists>w. json_upd ks (\<lambda>_. Inr x) j = Inr w \<and> node_ok w \<and>
    member ''MemberId'' w = (if ks = [''MemberId''] then Some x else member ''MemberId'' j)"
proof -
  have o: "objectlike j" using assms(1) by (simp add: node_ok_def)
  consider (one) k where "ks = [k]" | (two) k k' where "ks = [k, k']" | (three) k k' k'' where "ks = [k, k', k'']"
    using assms(2) by (induction ks x rule: node_path.induct) auto
  then show ?thesis
  proof cases
    case one
    with assms o show ?thesis by (auto simp: json_upd_set node_ok_def split: if_splits)
  next
    case two
    then have k: "k \<in> {''PowerLimit'', ''PowerMetrics'', ''Status''}" using assms(2) by simp
    then have "objectlike (member_or_null k j)"
      using assms(1) by (auto simp: node_ok_def intro: sub_ok_null)
    with assms(1) two k o show ?thesis
      by (simp add: json_upd_set node_ok_def) auto
  next
    case three
    have k: "oem_ok (member_or_null ''Oem'' j)"
      using assms(1) by (simp add: node_ok_def sub_ok_null)
    then have "objectlike (member_or_null ''Oem'' j)"
      "objectlike (member_or_null ''OpenBmc'' (member_or_null ''Oem'' j))"
      by (simp_all add: oem_ok_def sub_ok_null)
    with k assms three o show ?thesis
      by (simp add: json_upd_set node_ok_def oem_ok_def)
  qed
qed

lemma node_push:
  assumes "node_ok j"
  shows "\<exists>w. json_upd [''RelatedItem''] (json_append x) j = Inr w \<and> node_ok w \<and>
    member ''MemberId'' w = member ''MemberId'' j"
proof -
  have o: "objectlike j" using assms by (simp add: node_ok_def)
  have "arraylike (member_or_null ''RelatedItem'' j)"
    using assms by (auto simp: node_ok_def intro: sub_ok_null)
  then obtain v where "json_append x (member_or_null ''RelatedItem'' j) = Inr v" "arraylike v"
    by (auto simp: arraylike_def json_append_def split: json.splits)
  with assms o show ?thesis by (simp add: json_upd_set node_ok_def)
qed

definition nodes :: "json \<Rightarrow> json list" where
  "nodes j = (case member ''PowerControl'' j of Some (J_array vs) \<Rightarrow> vs | _ \<Rightarrow> [])"

definition page_ok :: "json \<Rightarrow> bool" where
  "page_ok j \<longleftrightarrow> objectlike j \<and> sub_ok arraylike ''PowerControl'' j \<and> (\<forall>v \<in> set (nodes j). node_ok v)"

lemma node_ok_null [simp]: "node_ok J_null"
  by (simp add: node_ok_def)

text \<open>What a client sees of the page: how many nodes there are and the member at each position.\<close>

definition node_at :: "json \<Rightarrow> nat \<Rightarrow> json" where
  "node_at j i = (if i < length (nodes j) then nodes j ! i else J_null)"

definition members :: "json \<Rightarrow> nat \<Rightarrow> json option" where
  "members j i = member ''MemberId'' (node_at j i)"

lemma page_upd:
  assumes page: "page_ok j"
    and step: "\<And>v. node_ok v \<Longrightarrow> \<exists>w. json_upd ks f v = Inr w \<and> node_ok w \<and> member ''MemberId'' w = g (member ''MemberId'' v)"
  shows "\<exists>j'. json_upd [''PowerControl''] (json_at idx (json_upd ks f)) j = Inr j' \<and> page_ok j' \<and>
    length (nodes j') = max (Suc idx) (length (nodes j)) \<and> members j' = (members j)(idx := g (members j idx))"
proof -
  define vs where "vs = nodes j"
  have o: "objectlike j" "\<forall>v \<in> set vs. node_ok v" using page by (simp_all add: page_ok_def vs_def)
  have a: "member_or_null ''PowerControl'' j = J_array vs \<or> member_or_null ''PowerControl'' j = J_null \<and> vs = []"
    using page by (auto simp: page_ok_def sub_ok_def arraylike_def member_or_null_def vs_def nodes_def
        split: option.splits json.splits)
  define ws where "ws = vs @ replicate (Suc idx - length vs) J_null"
  have ws: "\<forall>v \<in> set ws. node_ok v" "idx < length ws" "length ws = max (Suc idx) (length vs)"
    using o(2) by (auto simp: ws_def set_replicate_conv_if)
  have at: "ws ! i = node_at j i" if "i < length ws" for i
    using that by (auto simp: ws_def node_at_def nth_append vs_def)
  from step ws obtain w where w: "json_upd ks f (ws ! idx) = Inr w" "node_ok w"
    "member ''MemberId'' w = g (member ''MemberId'' (ws ! idx))" by (meson nth_mem)
  define j' where "j' = set_member ''PowerControl'' (J_array (ws[idx := w])) j"
  have run: "json_upd [''PowerControl''] (json_at idx (json_upd ks f)) j = Inr j'"
    using a w(1) by (auto simp: json_upd_set [OF o(1)] json_at_def Let_def ws_def j'_def)
  have nd: "nodes j' = ws[idx := w]" using o(1) by (simp add: j'_def nodes_def)
  have "page_ok j'"
    using o(1) nd ws(1) w(2) by (auto simp: page_ok_def j'_def arraylike_def dest!: subsetD [OF set_update_subset_insert])
  moreover have "members j' i = ((members j)(idx := g (members j idx))) i" for i
  proof (cases "i < length ws")
    case True
    then show ?thesis using w(3) ws(2) at by (auto simp: members_def node_at_def nd nth_list_update)
  next
    case False
    then have "\<not> i < length (nodes j)" "i \<noteq> idx" using ws by (auto simp: vs_def)
    with False show ?thesis by (simp add: members_def node_at_def nd)
  qed
  ultimately show ?thesis using run ws(3) nd by (auto simp: vs_def)
qed

section \<open>The effect of a computation on the page\<close>

text \<open>
  \<open>effect fin n Q f m\<close>: on a well-formed page \<open>m\<close> succeeds, the page stays well-formed and its view changes
  by \<open>f\<close>, \<open>m\<close> issues \<open>n\<close> calls which satisfy \<open>Q\<close>, and with \<open>fin\<close> each of them holds a share of the callback.
\<close>

type_synonym page_view = "nat \<times> (nat \<Rightarrow> json option)"

abbreviation page :: "('k, 'f) call_state \<Rightarrow> json" where
  "page s \<equiv> r_json (nm_res s)"

definition view :: "json \<Rightarrow> page_view" where
  "view j = (length (nodes j), members j)"

definition effect :: "bool \<Rightarrow> nat \<Rightarrow> ('q pw_cont dbus_call \<Rightarrow> bool) \<Rightarrow> (page_view \<Rightarrow> page_view) \<Rightarrow>
    ('q pw_state, unit) exm \<Rightarrow> bool" where
  "effect fin n Q f m \<longleftrightarrow> (\<forall>s. page_ok (page s) \<longrightarrow> (\<exists>s' cs. m s = (Inr (), s') \<and> page_ok (page s') \<and>
     view (page s') = f (view (page s)) \<and> nm_calls s' = nm_calls s @ cs \<and> length cs = n \<and> list_all Q cs \<and>
     nm_final s' = (if fin then map_option (\<lambda>(k, u). (k + n, u)) (nm_final s) else nm_final s)))"

lemma effectI:
  assumes "\<And>s. page_ok (page s) \<Longrightarrow> \<exists>s' cs. m s = (Inr (), s') \<and> page_ok (page s') \<and>
     view (page s') = f (view (page s)) \<and> nm_calls s' = nm_calls s @ cs \<and> length cs = n \<and> list_all Q cs \<and>
     nm_final s' = (if fin then map_option (\<lambda>(k, u). (k + n, u)) (nm_final s) else nm_final s)"
  shows "effect fin n Q f m"
  using assms unfolding effect_def by blast

lemma effectE:
  assumes "effect fin n Q f m" and "page_ok (page s)"
  obtains s' cs where "m s = (Inr (), s')" "page_ok (page s')" "view (page s') = f (view (page s))"
    "nm_calls s' = nm_calls s @ cs" "length cs = n" "list_all Q cs"
    "nm_final s' = (if fin then map_option (\<lambda>(k, u). (k + n, u)) (nm_final s) else nm_final s)"
  using assms unfolding effect_def by blast

lemma map_option_shares [simp]: "map_option (\<lambda>(k, u). (k, u)) x = x" "map_option id x = x"
  by (cases x; simp)+

lemma map_option_shares_add:
  "map_option (\<lambda>(k, u). (k + n', u)) (map_option (\<lambda>(k, u). (k + (n :: nat), u)) x) = map_option (\<lambda>(k, u). (k + (n + n'), u)) x"
  by (cases x) (auto simp: add.assoc)

lemma effect_ret: "effect fin 0 Q id (ret ())"
  by (rule effectI) simp

lemma effect_thenE:
  assumes "effect fin n Q f m" and "effect fin n' Q f' m'"
  shows "effect fin (n + n') Q (f' \<circ> f) (thenE m m')"
proof (rule effectI)
  fix s :: "'a pw_state" assume "page_ok (page s)"
  then obtain s1 cs where 1: "m s = (Inr (), s1)" "page_ok (page s1)" "view (page s1) = f (view (page s))"
    "nm_calls s1 = nm_calls s @ cs" "length cs = n" "list_all Q cs"
    "nm_final s1 = (if fin then map_option (\<lambda>(k, u). (k + n, u)) (nm_final s) else nm_final s)"
    using assms(1) by (elim effectE)
  from 1(2) obtain s2 ds where 2: "m' s1 = (Inr (), s2)" "page_ok (page s2)" "view (page s2) = f' (view (page s1))"
    "nm_calls s2 = nm_calls s1 @ ds" "length ds = n'" "list_all Q ds"
    "nm_final s2 = (if fin then map_option (\<lambda>(k, u). (k + n', u)) (nm_final s1) else nm_final s1)"
    using assms(2) by (elim effectE)
  from 1 2 show "\<exists>s' cs. thenE m m' s = (Inr (), s') \<and> page_ok (page s') \<and>
     view (page s') = (f' \<circ> f) (view (page s)) \<and> nm_calls s' = nm_calls s @ cs \<and> length cs = n + n' \<and> list_all Q cs \<and>
     nm_final s' = (if fin then map_option (\<lambda>(k, u). (k + (n + n'), u)) (nm_final s) else nm_final s)"
    by (intro exI [of _ s2] exI [of _ "cs @ ds"]) (simp add: thenE_apply map_option_shares_add)
qed

lemma effect_weaken:
  assumes "effect fin n Q f m" and "\<And>c. Q c \<Longrightarrow> Q' c"
  shows "effect fin n Q' f m"
  using assms unfolding effect_def by (metis (mono_tags, lifting) list_all_iff)

text \<open>The two changes of the view: a position is there, and its member is set.\<close>

definition touch :: "nat \<Rightarrow> page_view \<Rightarrow> page_view" where
  "touch idx v = (case v of (n, h) \<Rightarrow> (max (Suc idx) n, h))"

definition name_node :: "nat \<Rightarrow> string \<Rightarrow> page_view \<Rightarrow> page_view" where
  "name_node idx x v = (case v of (n, h) \<Rightarrow> (max (Suc idx) n, h(idx := Some (J_string x))))"

lemma effect_upd:
  assumes "\<And>v. node_ok v \<Longrightarrow> \<exists>w. json_upd ks f v = Inr w \<and> node_ok w \<and> member ''MemberId'' w = g (member ''MemberId'' v)"
  shows "effect fin 0 Q (\<lambda>(n, h). (max (Suc idx) n, h(idx := g (h idx)))) (pc_upd idx ks f)"
proof (rule effectI)
  fix s :: "'a pw_state" assume "page_ok (page s)"
  with page_upd [OF this assms, of idx] obtain j' where "json_upd [''PowerControl''] (json_at idx (json_upd ks f)) (page s) = Inr j'"
    "page_ok j'" "length (nodes j') = max (Suc idx) (length (nodes (page s)))"
    "members j' = (members (page s))(idx := g (members (page s) idx))" by blast
  then show "\<exists>s' cs. pc_upd idx ks f s = (Inr (), s') \<and> page_ok (page s') \<and>
     view (page s') = (\<lambda>(n, h). (max (Suc idx) n, h(idx := g (h idx)))) (view (page s)) \<and>
     nm_calls s' = nm_calls s @ cs \<and> length cs = 0 \<and> list_all Q cs \<and>
     nm_final s' = (if fin then map_option (\<lambda>(k, u). (k + 0, u)) (nm_final s) else nm_final s)"
    by (simp add: pc_upd_def upd_json_def view_def)
qed

lemma effect_put: "node_path ks x \<Longrightarrow> ks \<noteq> [''MemberId''] \<Longrightarrow> effect fin 0 Q (touch idx) (pc_put idx ks x)"
  using effect_upd [of ks "\<lambda>_. Inr x" "\<lambda>m. m" fin Q idx] node_put [of _ ks x]
  by (simp add: pc_put_def touch_def [abs_def] case_prod_beta')

lemma effect_name: "effect fin 0 Q (name_node idx x) (pc_put idx [''MemberId''] (J_string x))"
  using effect_upd [of "[''MemberId'']" "\<lambda>_. Inr (J_string x)" "\<lambda>_. Some (J_string x)" fin Q idx] node_put [of _ "[''MemberId'']" "J_string x"]
  by (simp add: pc_put_def name_node_def [abs_def] case_prod_beta')

lemma effect_push: "effect fin 0 Q (touch idx) (pc_push idx [''RelatedItem''] x)"
  using effect_upd [of "[''RelatedItem'']" "json_append x" "\<lambda>m. m" fin Q idx] node_push [of _ x]
  by (simp add: pc_push_def touch_def [abs_def] case_prod_beta')

lemma effect_call:
  assumes "Q \<lparr>dc_service = sv, dc_path = p, dc_interface = i, dc_method = m, dc_args = a, dc_cont = k\<rparr>"
  shows "effect fin 1 Q id (node_call fin sv p i m a k)"
  by (rule effectI) (use assms in \<open>auto simp: node_call_def thenE_apply hold_final_def call_apply intro!: exI
      split: option.splits\<close>)

section \<open>The effect of the operations\<close>

text \<open>The node a reply is written to, whether its handler owns a share, and the component it looks for.\<close>

fun cont_node :: "'q pw_cont \<Rightarrow> (nat \<times> bool) option" where
  "cont_node (PK_powerLimit idx fin) = Some (idx, fin)"
| "cont_node (PK_oem idx fin) = Some (idx, fin)"
| "cont_node (PK_allocated idx fin) = Some (idx, fin)"
| "cont_node (PK_capacity componentId idx fin) = Some (idx, fin)"
| "cont_node (PK_consumed idx fin) = Some (idx, fin)"
| "cont_node (PK_max idx fin) = Some (idx, fin)"
| "cont_node (PK_metrics idx fin) = Some (idx, fin)"
| "cont_node (PK_status idx fin) = Some (idx, fin)"
| "cont_node _ = None"

fun cont_component :: "'q pw_cont \<Rightarrow> nat option" where
  "cont_component (PK_capacity componentId idx fin) = Some componentId"
| "cont_component _ = None"

definition node_methods :: "string list" where
  "node_methods = [''Get'', ''GetAll'', ''GetStatistics'', ''GetAllLimitsCapabilities'']"

text \<open>A reading call about the domain and the policy of an entry whose reply goes to the node at \<open>idx\<close>.\<close>

definition asks :: "string \<Rightarrow> node_entry \<Rightarrow> nat \<Rightarrow> bool \<Rightarrow> 'q pw_cont dbus_call \<Rightarrow> bool" where
  "asks nmServiceName e idx fin c \<longleftrightarrow> (case e of (domain, policy, index, memberId) \<Rightarrow>
     dc_service c = nmServiceName \<and> dc_path c \<in> {nmPath domain, nmPolicyPath domain policy} \<and>
     dc_method c \<in> set node_methods \<and> cont_node (dc_cont c) = Some (idx, fin) \<and>
     (case cont_component (dc_cont c) of None \<Rightarrow> True | Some k \<Rightarrow> k = unat index))"

named_theorems effect_intro \<open>the effects of the operations\<close>

declare effect_name [effect_intro] effect_put [effect_intro] effect_push [effect_intro] effect_call [effect_intro]
  effect_thenE [effect_intro]

lemma effect_cong: "effect fin n Q f m \<Longrightarrow> n = n' \<Longrightarrow> f = f' \<Longrightarrow> effect fin n' Q f' m"
  by simp

lemma effect_number: "effect fin n Q f m \<Longrightarrow> n = n' \<Longrightarrow> effect fin n' Q f m"
  by simp

lemma effect_seq_Nil [effect_intro]: "effect fin 0 Q id (seqE [])"
  by (simp add: effect_ret)

lemma effect_seq_Cons [effect_intro]:
  "effect fin n Q f m \<Longrightarrow> effect fin n' Q f' (seqE ms) \<Longrightarrow> effect fin (n + n') Q (f' \<circ> f) (seqE (m # ms))"
  by (simp add: effect_thenE)

lemma touch_touch [simp]: "touch idx (touch idx v) = touch idx v"
  by (cases v) (simp add: touch_def)

lemma touch_comp [simp]: "touch idx \<circ> touch idx = touch idx"
  by (simp add: fun_eq_iff)

lemma effect_getPowerLimit [effect_intro]:
  "effect fin 1 (asks sv (domain, policy, i, m) idx fin) (touch idx) (getPowerLimit domain policy idx sv fin)"
  unfolding getPowerLimit_def
  by (rule effect_cong, (rule effect_intro | simp add: asks_def node_methods_def)+)

lemma effect_getOem [effect_intro]:
  "effect fin 1 (asks sv (domain, policy, i, m) idx fin) (touch idx) (getOem domain policy idx sv fin)"
  unfolding getOem_def setOemPowerLimitStorage_def
  by (rule effect_cong, (rule effect_intro | simp add: asks_def node_methods_def)+)

lemma effect_getAllocated [effect_intro]:
  "effect fin 1 (asks sv (domain, policy, i, m) idx fin) (touch idx) (getAllocatedAndRequestedWatts domain policy idx sv fin)"
  unfolding getAllocatedAndRequestedWatts_def
  by (rule effect_cong, (rule effect_intro | simp add: asks_def node_methods_def)+)

lemma effect_getComponentCapacity [effect_intro]:
  "effect fin 2 (asks sv (domain, policy, i, m) idx fin) (touch idx) (getComponentCapacity domain policy (unat i) idx sv fin)"
  unfolding getComponentCapacity_def
  by (rule effect_cong, (rule effect_intro | simp add: asks_def node_methods_def)+)

lemma effect_getDomainCapacity [effect_intro]:
  "effect fin 2 (asks sv (domain, policy, i, m) idx fin) (touch idx) (getDomainCapacity domain idx sv fin)"
  unfolding getDomainCapacity_def
  by (rule effect_cong, (rule effect_intro | simp add: asks_def node_methods_def)+)

lemma effect_getPowerMetrics [effect_intro]:
  "effect fin 1 (asks sv (domain, policy, i, m) idx fin) (touch idx) (getPowerMetrics domain policy idx sv fin)"
  unfolding getPowerMetrics_def put_metric_def
  by (rule effect_cong, (rule effect_intro | simp add: asks_def node_methods_def)+)

lemma effect_getStatus [effect_intro]:
  "effect fin 1 (asks sv (domain, policy, i, m) idx fin) id (getStatus domain policy idx sv fin)"
  unfolding getStatus_def
  by (rule effect_cong, (rule effect_intro | simp add: asks_def node_methods_def)+)

text \<open>The nodes of the page of all nodes, which has no callback.\<close>

definition put_names :: "nat \<Rightarrow> string list \<Rightarrow> page_view \<Rightarrow> page_view" where
  "put_names off ns v = (case v of (n, h) \<Rightarrow> (max (off + length ns) n,
     (\<lambda>i. if off \<le> i \<and> i < off + length ns then Some (J_string (ns ! (i - off))) else h i)))"

lemma name_node_put_names: "name_node idx x v = put_names idx [x] v"
  by (cases v) (auto simp: name_node_def put_names_def fun_eq_iff)

lemma put_names_append: "put_names (off + length ns) ms (put_names off ns v) = put_names off (ns @ ms) v"
  "put_names off ns (put_names (off + length ns) ms v) = put_names off (ns @ ms) v"
  by (cases v, auto simp: put_names_def fun_eq_iff nth_append not_less diff_diff_left)+

lemma touch_id: "Suc idx \<le> fst v \<Longrightarrow> touch idx v = v"
  by (cases v) (simp add: touch_def)

lemma fst_views [simp]: "fst (touch idx v) = max (Suc idx) (fst v)" "fst (put_names off ns v) = max (off + length ns) (fst v)"
  by (cases v, simp add: touch_def put_names_def)+

lemma touch_commute: "touch i (touch j v) = touch j (touch i v)" "touch i (put_names off ns v) = put_names off ns (touch i v)"
  by (cases v, simp add: touch_def put_names_def max.left_commute)+

lemma effect_no_page: "effect False 0 Q id (begin_page False)" "effect False 0 Q id (release_page False)"
  by (simp_all add: begin_page_def release_page_def effect_ret)

lemma effect_componentNode:
  "effect False 7 (asks sv (domain, nmComponentPolicyName name i, i, m) idx False)
     (\<lambda>v. put_names idx [name @ device_string i] (touch agg (touch powerRootNode v)))
     (getPowerControlComponentNode ch sv domain i idx name agg False)"
  unfolding getPowerControlComponentNode_def Let_def
  by (rule effect_cong, (rule effect_intro effect_no_page | simp add: asks_def node_methods_def)+)
    (auto simp: fun_eq_iff name_node_def put_names_def touch_def)

lemma effect_aggregateNode:
  "effect False 7 (asks sv (domain, nmPolicyName name, i, m) idx False)
     (\<lambda>v. put_names idx [name] (touch powerRootNode v))
     (getPowerControlAggregateNode ch sv name idx domain False)"
  unfolding getPowerControlAggregateNode_def Let_def
  by (rule effect_cong, (rule effect_intro effect_no_page | simp add: asks_def node_methods_def)+)
    (auto simp: fun_eq_iff name_node_def put_names_def touch_def)

text \<open>A call of the page asks about the entry that stands at the position of its node.\<close>

definition asks_entry :: "string \<Rightarrow> node_entry list \<Rightarrow> 'q pw_cont dbus_call \<Rightarrow> bool" where
  "asks_entry sv entries c \<longleftrightarrow> (\<exists>idx < length entries. asks sv (entries ! idx) idx False c)"

lemma effect_forE:
  assumes "\<And>i. i < k \<Longrightarrow> effect fin n Q (g i) (body i)"
  shows "effect fin (n * k) Q (fold g [0..<k]) (forE [0..<k] body)"
  using assms
proof (induction k)
  case (Suc k)
  have "effect fin (n * k) Q (fold g [0..<k]) (forE [0..<k] body)" using Suc by simp
  then have "effect fin (n * k + (n + 0)) Q ((id \<circ> g k) \<circ> fold g [0..<k]) (thenE (forE [0..<k] body) (thenE (body k) (ret ())))"
    using Suc.prems [of k] effect_thenE effect_ret by blast
  then show ?case by (simp add: forE_append algebra_simps comp_def)
qed (simp add: effect_ret)

lemma fold_put_names:
  assumes "Suc agg \<le> fst v" "agg = off + length ns" "k \<le> length ns"
  shows "fold (\<lambda>i v. put_names (off + i) [ns ! i] (touch agg (touch powerRootNode v))) [0..<k] v = put_names off (take k ns) v"
  using assms(3)
proof (induction k)
  case 0
  then show ?case by (cases v) (use assms in \<open>auto simp: put_names_def fun_eq_iff\<close>)
next
  case (Suc k)
  then show ?case
    using assms(1,2) put_names_append(1) [of off "take k ns" "[ns ! k]" v]
    by (simp add: touch_id powerRootNode_def take_Suc_conv_app_nth)
qed

lemma effect_group:
  fixes comps :: "u8 list"
  assumes comps: "\<And>i. i < length comps \<Longrightarrow> off + i < length entries \<and>
      entries ! (off + i) = component_entry domain prefix (comps ! i)"
    and agg: "off + length comps < length entries" "entries ! (off + length comps) = (domain, nmPolicyName name, allDevices, name)"
  shows "effect False (7 * Suc (length comps)) (asks_entry sv entries :: 'q pw_cont dbus_call \<Rightarrow> bool)
     (put_names off (map (\<lambda>i. prefix @ device_string i) comps @ [name]))
     (getNmDmtfGroup ch sv off comps name prefix domain)"
proof -
  let ?Q = "asks_entry sv entries :: 'q pw_cont dbus_call \<Rightarrow> bool"
  let ?ns = "map (\<lambda>i. prefix @ device_string i) comps"
  have a: "effect False 7 ?Q (\<lambda>v. put_names (off + length comps) [name] (touch powerRootNode v))
      (getPowerControlAggregateNode ch sv name (off + length comps) domain False)"
    by (rule effect_weaken [OF effect_aggregateNode [of sv domain name allDevices name]]) (use agg in \<open>auto simp: asks_entry_def\<close>)
  have c: "effect False 7 ?Q
      (\<lambda>v. put_names (off + i) [?ns ! i] (touch (off + length comps) (touch powerRootNode v)))
      (getPowerControlComponentNode ch sv domain (comps ! i) (off + i) prefix (off + length comps) False)"
    if "i < length comps" for i
  proof -
    have "entries ! (off + i) = (domain, nmComponentPolicyName prefix (comps ! i), comps ! i, prefix @ device_string (comps ! i))"
      using comps [OF that] by (simp add: component_entry_def nmComponentPolicyName_def)
    then have w: "asks sv (domain, nmComponentPolicyName prefix (comps ! i), comps ! i, prefix @ device_string (comps ! i))
        (off + i) False d \<Longrightarrow> ?Q d" for d
      using comps [OF that] by (auto simp: asks_entry_def)
    have "effect False 7 ?Q (\<lambda>v. put_names (off + i) [prefix @ device_string (comps ! i)]
          (touch (off + length comps) (touch powerRootNode v)))
        (getPowerControlComponentNode ch sv domain (comps ! i) (off + i) prefix (off + length comps) False)"
      by (rule effect_weaken [OF effect_componentNode]) (erule w)
    with that show ?thesis by simp
  qed
  have f: "fold (\<lambda>i v. put_names (off + i) [?ns ! i] (touch (off + length comps) (touch powerRootNode v))) [0..<length comps] \<circ>
      (\<lambda>v. put_names (off + length comps) [name] (touch powerRootNode v)) \<circ> touch (off + length comps) \<circ>
      touch (off + length comps) = put_names off (?ns @ [name])"
  proof (rule ext)
    fix v
    have "put_names (off + length comps) [name] (touch powerRootNode (touch (off + length comps) v)) =
        put_names (off + length comps) [name] v"
      by (cases v) (auto simp: put_names_def touch_def powerRootNode_def)
    moreover have "fold (\<lambda>i v. put_names (off + i) [?ns ! i] (touch (off + length comps) (touch powerRootNode v)))
        [0..<length comps] (put_names (off + length comps) [name] v) = put_names off (?ns @ [name]) v"
    proof -
      have "Suc (off + length comps) \<le> fst (put_names (off + length comps) [name] v)"
        "off + length comps = off + length ?ns" "length comps \<le> length ?ns" by simp_all
      from fold_put_names [OF this] show ?thesis
        using put_names_append(2) [of off ?ns "[name]" v] by (simp only: take_all length_map order_refl)
    qed
    ultimately show "(fold (\<lambda>i v. put_names (off + i) [?ns ! i] (touch (off + length comps) (touch powerRootNode v))) [0..<length comps] \<circ>
      (\<lambda>v. put_names (off + length comps) [name] (touch powerRootNode v)) \<circ> touch (off + length comps) \<circ>
      touch (off + length comps)) v = put_names off (?ns @ [name]) v"
      by (simp only: comp_apply touch_touch)
  qed
  show ?thesis
    unfolding getNmDmtfGroup_def
    by (rule effect_cong, (rule effect_intro effect_forE a c | simp)+) (rule f)
qed

lemma effect_rootNode:
  "effect False 7 (asks sv (dcTotalPowerDomainId, dmtfPowerPolicyId, i, m) powerRootNode False)
     (put_names 0 [''0'']) (seqE [
       pc_put powerRootNode [''RelatedItem@odata.count''] (J_int k),
       pc_put powerRootNode [''MemberId''] (J_string ''0''),
       pc_put powerRootNode [''Name''] (J_string ''System Power Control''),
       pc_put powerRootNode [''@odata.id''] (J_string url),
       pc_put powerRootNode [''@odata.type''] (J_string ''#Power.v1_1_0.PowerControl''),
       getAllocatedAndRequestedWatts dcTotalPowerDomainId dmtfPowerPolicyId powerRootNode sv False,
       getDomainCapacity dcTotalPowerDomainId powerRootNode sv False,
       getPowerLimit dcTotalPowerDomainId dmtfPowerPolicyId powerRootNode sv False,
       getOem dcTotalPowerDomainId dmtfPowerPolicyId powerRootNode sv False,
       getPowerMetrics dcTotalPowerDomainId dmtfPowerPolicyId powerRootNode sv False,
       getStatus dcTotalPowerDomainId dmtfPowerPolicyId powerRootNode sv False])"
  by (rule effect_cong, (rule effect_intro | simp)+)
    (auto simp: fun_eq_iff name_node_def put_names_def touch_def powerRootNode_def)

definition memberId :: "node_entry \<Rightarrow> string" where
  "memberId e = (case e of (domain, policy, index, name) \<Rightarrow> name)"

lemma component_entry_member: "memberId (component_entry domain prefix i) = prefix @ device_string i"
  by (simp add: memberId_def component_entry_def)

lemma seqE_append: "seqE (ms @ ns) s = thenE (seqE ms) (seqE ns) s"
  by (induction ms arbitrary: s) (auto simp: thenE_apply split: prod.splits sum.splits)

lemma effect_collect:
  fixes processors memories accelerators :: "u8 list"
  defines "entries \<equiv> buildDomainPolicyMap processors memories accelerators"
  shows "effect False (7 * length entries) (asks_entry sv entries :: 'q pw_cont dbus_call \<Rightarrow> bool)
    (put_names 0 (map memberId entries)) (collectNmDmtfData ch sv processors memories accelerators)"
proof -
  let ?Q = "asks_entry sv entries :: 'q pw_cont dbus_call \<Rightarrow> bool"
  let ?a = "length accelerators" and ?p = "length processors" and ?m = "length memories"
  have len: "length entries = ?a + ?p + ?m + 4" by (simp add: entries_def buildDomainPolicyMap_def)
  have root: "entries ! 0 = (dcTotalPowerDomainId, dmtfPowerPolicyId, allDevices, ''0'')"
    by (simp add: entries_def buildDomainPolicyMap_def)
  have acc: "entries ! (1 + i) = component_entry pcieDomainId ''Accelerator'' (accelerators ! i)" if "i < ?a" for i
    using that by (simp add: entries_def buildDomainPolicyMap_def nth_append)
  have accs: "entries ! (1 + ?a) = (pcieDomainId, nmPolicyName ''Accelerators'', allDevices, ''Accelerators'')"
    by (simp add: entries_def buildDomainPolicyMap_def nth_append nmPolicyName_def)
  have pro: "entries ! (2 + ?a + i) = component_entry cpuDomainId ''Processor'' (processors ! i)" if "i < ?p" for i
    using that by (simp add: entries_def buildDomainPolicyMap_def nth_append)
  have pros: "entries ! (2 + ?a + ?p) = (cpuDomainId, nmPolicyName ''Processors'', allDevices, ''Processors'')"
    by (simp add: entries_def buildDomainPolicyMap_def nth_append nmPolicyName_def)
  have mem: "entries ! (3 + ?a + ?p + i) = component_entry memoryDomainId ''Memory'' (memories ! i)" if "i < ?m" for i
    using that by (simp add: entries_def buildDomainPolicyMap_def nth_append)
  have mems: "entries ! (3 + ?a + ?p + ?m) = (memoryDomainId, nmPolicyName ''Memories'', allDevices, ''Memories'')"
    by (simp add: entries_def buildDomainPolicyMap_def nth_append nmPolicyName_def)
  have r: "asks sv (dcTotalPowerDomainId, dmtfPowerPolicyId, allDevices, ''0'') powerRootNode False c \<Longrightarrow> ?Q c" for c
    using root len by (auto simp: asks_entry_def powerRootNode_def intro!: exI [of _ 0])
  note root_effect = effect_weaken [OF effect_rootNode r]
  have g1: "effect False (7 * Suc ?a) ?Q (put_names 1 (map (\<lambda>i. ''Accelerator'' @ device_string i) accelerators @ [''Accelerators'']))
      (getNmDmtfGroup ch sv 1 accelerators ''Accelerators'' ''Accelerator'' pcieDomainId)"
    by (rule effect_group) (use len acc accs in simp_all)
  have g2: "effect False (7 * Suc ?p) ?Q (put_names (2 + ?a) (map (\<lambda>i. ''Processor'' @ device_string i) processors @ [''Processors'']))
      (getNmDmtfGroup ch sv (2 + ?a) processors ''Processors'' ''Processor'' cpuDomainId)"
    by (rule effect_group) (use len pro pros in simp_all)
  have g3: "effect False (7 * Suc ?m) ?Q (put_names (3 + ?a + ?p) (map (\<lambda>i. ''Memory'' @ device_string i) memories @ [''Memories'']))
      (getNmDmtfGroup ch sv (3 + ?a + ?p) memories ''Memories'' ''Memory'' memoryDomainId)"
    by (rule effect_group) (use len mem mems in simp_all)
  have g: "effect False (7 * Suc ?a + (7 * Suc ?p + (7 * Suc ?m + 0))) ?Q
      (((id \<circ> put_names (3 + ?a + ?p) (map (\<lambda>i. ''Memory'' @ device_string i) memories @ [''Memories''])) \<circ>
        put_names (2 + ?a) (map (\<lambda>i. ''Processor'' @ device_string i) processors @ [''Processors''])) \<circ>
        put_names 1 (map (\<lambda>i. ''Accelerator'' @ device_string i) accelerators @ [''Accelerators'']))
      (seqE [getNmDmtfGroup ch sv 1 accelerators ''Accelerators'' ''Accelerator'' pcieDomainId,
        getNmDmtfGroup ch sv (2 + ?a) processors ''Processors'' ''Processor'' cpuDomainId,
        getNmDmtfGroup ch sv (3 + ?a + ?p) memories ''Memories'' ''Memory'' memoryDomainId])"
    by (intro effect_seq_Cons effect_seq_Nil g1 g2 g3)
  have names: "map memberId entries = [''0''] @ (map (\<lambda>i. ''Accelerator'' @ device_string i) accelerators @ [''Accelerators'']) @
      (map (\<lambda>i. ''Processor'' @ device_string i) processors @ [''Processors'']) @
      (map (\<lambda>i. ''Memory'' @ device_string i) memories @ [''Memories''])"
    by (simp add: entries_def buildDomainPolicyMap_def memberId_def component_entry_def)
  have put: "put_names 0 (map memberId entries) v = put_names (3 + ?a + ?p) (map (\<lambda>i. ''Memory'' @ device_string i) memories @ [''Memories''])
      (put_names (2 + ?a) (map (\<lambda>i. ''Processor'' @ device_string i) processors @ [''Processors''])
        (put_names 1 (map (\<lambda>i. ''Accelerator'' @ device_string i) accelerators @ [''Accelerators''])
          (put_names 0 [''0''] v)))" for v
    unfolding names
    using put_names_append(1) [of 0 "[''0'']" "map (\<lambda>i. ''Accelerator'' @ device_string i) accelerators @ [''Accelerators'']"]
      put_names_append(1) [of 0 "[''0''] @ map (\<lambda>i. ''Accelerator'' @ device_string i) accelerators @ [''Accelerators'']"
        "map (\<lambda>i. ''Processor'' @ device_string i) processors @ [''Processors'']"]
      put_names_append(1) [of 0 "[''0''] @ (map (\<lambda>i. ''Accelerator'' @ device_string i) accelerators @ [''Accelerators'']) @
          map (\<lambda>i. ''Processor'' @ device_string i) processors @ [''Processors'']"
        "map (\<lambda>i. ''Memory'' @ device_string i) memories @ [''Memories'']"]
    by (simp add: numeral_3_eq_3 numeral_2_eq_2)
  have eq: "collectNmDmtfData ch sv processors memories accelerators = thenE (seqE ms) (seqE ns)"
    if "collectNmDmtfData ch sv processors memories accelerators = seqE (ms @ ns)" for ms ns
    unfolding that by (rule ext) (rule seqE_append)
  have "(collectNmDmtfData ch sv processors memories accelerators :: ('q pw_state, unit) exm) = thenE (seqE [
       pc_put powerRootNode [''RelatedItem@odata.count''] (J_int (int (?p + ?m + ?a + 3))),
       pc_put powerRootNode [''MemberId''] (J_string ''0''),
       pc_put powerRootNode [''Name''] (J_string ''System Power Control''),
       pc_put powerRootNode [''@odata.id''] (J_string (powerControlUrl ch ''0'')),
       pc_put powerRootNode [''@odata.type''] (J_string ''#Power.v1_1_0.PowerControl''),
       getAllocatedAndRequestedWatts dcTotalPowerDomainId dmtfPowerPolicyId powerRootNode sv False,
       getDomainCapacity dcTotalPowerDomainId powerRootNode sv False,
       getPowerLimit dcTotalPowerDomainId dmtfPowerPolicyId powerRootNode sv False,
       getOem dcTotalPowerDomainId dmtfPowerPolicyId powerRootNode sv False,
       getPowerMetrics dcTotalPowerDomainId dmtfPowerPolicyId powerRootNode sv False,
       getStatus dcTotalPowerDomainId dmtfPowerPolicyId powerRootNode sv False])
     (seqE [getNmDmtfGroup ch sv 1 accelerators ''Accelerators'' ''Accelerator'' pcieDomainId,
        getNmDmtfGroup ch sv (2 + ?a) processors ''Processors'' ''Processor'' cpuDomainId,
        getNmDmtfGroup ch sv (3 + ?a + ?p) memories ''Memories'' ''Memory'' memoryDomainId])"
    by (rule eq) (simp only: collectNmDmtfData_def append.simps)
  then show ?thesis
    by (simp only:) (rule effect_cong [OF effect_thenE [OF root_effect g]], simp_all add: len put fun_eq_iff)
qed

section \<open>The page of a single node\<close>

text \<open>The callback is made after the node has been named; the reading operations take shares of it.\<close>

lemma page_callback:
  assumes "effect False 0 Q f (seqE pre)" and "effect True n Q g (seqE mid)" and "0 < n" and "page_ok (page s)"
  shows "\<exists>s' cs. seqE (pre @ begin_page True # mid @ [release_page True]) s = (Inr (), s') \<and> page_ok (page s') \<and>
    view (page s') = g (f (view (page s))) \<and> nm_calls s' = nm_calls s @ cs \<and> length cs = n \<and> list_all Q cs \<and>
    nm_final s' = Some (n, ())"
proof -
  from assms(1,4) obtain s1 where 1: "seqE pre s = (Inr (), s1)" "page_ok (page s1)" "view (page s1) = f (view (page s))"
    "nm_calls s1 = nm_calls s" by (auto elim!: effectE)
  define s2 where "s2 = s1\<lparr>nm_final := Some (1, ())\<rparr>"
  have "page_ok (page s2)" using 1 by (simp add: s2_def)
  with assms(2) obtain s3 cs where 3: "seqE mid s2 = (Inr (), s3)" "page_ok (page s3)" "view (page s3) = g (view (page s2))"
    "nm_calls s3 = nm_calls s2 @ cs" "length cs = n" "list_all Q cs" "nm_final s3 = Some (1 + n, ())"
    by (rule effectE) (simp add: s2_def)
  have "seqE (pre @ begin_page True # mid @ [release_page True]) s = (Inr (), s3\<lparr>nm_final := Some (n, ())\<rparr>)"
    using 1 3 assms(3) by (simp add: seqE_append thenE_apply begin_page_def s2_def release_page_def bindE_apply)
  with 1 3 show ?thesis
    by (intro exI [of _ "s3\<lparr>nm_final := Some (n, ())\<rparr>"] exI [of _ cs]) (simp add: s2_def)
qed

text \<open>The computation shows the entry \<open>e\<close> as the node at \<open>idx\<close> under its name.\<close>

definition shows_node :: "string \<Rightarrow> node_entry \<Rightarrow> nat \<Rightarrow> ('q pw_state, unit) exm \<Rightarrow> bool" where
  "shows_node sv e idx m \<longleftrightarrow> (\<forall>s. page_ok (page s) \<longrightarrow> (\<exists>s' cs. m s = (Inr (), s') \<and> page_ok (page s') \<and>
     idx < length (nodes (page s')) \<and> members (page s') idx = Some (J_string (memberId e)) \<and>
     nm_calls s' = nm_calls s @ cs \<and> length cs = 7 \<and> list_all (asks sv e idx True) cs \<and> nm_final s' = Some (7, ())))"

lemma shows_nodeI:
  assumes "effect False 0 (asks sv e idx True) f (seqE pre)" and "effect True 7 (asks sv e idx True) g (seqE mid)"
    and "m = seqE (pre @ begin_page True # mid @ [release_page True])"
    and "\<And>v. idx < fst (g (f v)) \<and> snd (g (f v)) idx = Some (J_string (memberId e))"
  shows "shows_node sv e idx m"
  unfolding shows_node_def assms(3)
proof (intro allI impI)
  fix s :: "'a pw_state" assume "page_ok (page s)"
  from page_callback [OF assms(1,2) _ this]
  obtain s' cs where r: "seqE (pre @ begin_page True # mid @ [release_page True]) s = (Inr (), s')" "page_ok (page s')"
    "view (page s') = g (f (view (page s)))" "nm_calls s' = nm_calls s @ cs" "length cs = 7" "list_all (asks sv e idx True) cs"
    "nm_final s' = Some (7, ())" by auto
  have "idx < length (nodes (page s'))" "members (page s') idx = Some (J_string (memberId e))"
    using assms(4) [of "view (page s)"] r(3) [symmetric] by (simp_all add: view_def)
  with r show "\<exists>s' cs. seqE (pre @ begin_page True # mid @ [release_page True]) s = (Inr (), s') \<and> page_ok (page s') \<and>
     idx < length (nodes (page s')) \<and> members (page s') idx = Some (J_string (memberId e)) \<and>
     nm_calls s' = nm_calls s @ cs \<and> length cs = 7 \<and> list_all (asks sv e idx True) cs \<and> nm_final s' = Some (7, ())"
    by blast
qed

lemma shows_componentNode:
  "shows_node sv (domain, nmComponentPolicyName name i, i, name @ device_string i) idx
     (getPowerControlComponentNode ch sv domain i idx name agg True)"
  unfolding getPowerControlComponentNode_def Let_def
  apply (rule shows_nodeI [where pre = "[_, _, _, _, _, _, _, _]" and mid = "[_, _, _, _, _, _]"])
     prefer 3
     apply (simp only: append.simps)
    apply ((rule effect_number, (rule effect_intro | simp)+)[1])
   apply ((rule effect_number, (rule effect_intro | simp)+)[1])
  apply (auto simp: touch_def name_node_def memberId_def less_max_iff_disj split: prod.split)
  done

lemma shows_aggregateNode:
  "shows_node sv (domain, nmPolicyName name, i, name) idx (getPowerControlAggregateNode ch sv name idx domain True)"
  unfolding getPowerControlAggregateNode_def Let_def
  apply (rule shows_nodeI [where pre = "[_, _, _, _, _]" and mid = "[_, _, _, _, _, _]"])
     prefer 3
     apply (simp only: append.simps)
    apply ((rule effect_number, (rule effect_intro | simp)+)[1])
   apply ((rule effect_number, (rule effect_intro | simp)+)[1])
  apply (auto simp: touch_def name_node_def memberId_def less_max_iff_disj split: prod.split)
  done

section \<open>Writing the nodes\<close>

text \<open>A writing call to the policy of an entry.\<close>

definition writes :: "string \<Rightarrow> node_entry \<Rightarrow> 'q pw_cont dbus_call \<Rightarrow> bool" where
  "writes sv e c \<longleftrightarrow> (case e of (domain, policy, index, name) \<Rightarrow>
     dc_service c = sv \<and> dc_path c = nmPolicyPath domain policy \<and> dc_method c \<in> {''Set'', ''Update''})"

definition appended :: "('k dbus_call \<Rightarrow> bool) \<Rightarrow> 'k dbus_call list \<Rightarrow> ('k, 'f) call_state \<Rightarrow> bool" where
  "appended Q c0 s \<longleftrightarrow> (\<exists>cs. nm_calls s = c0 @ cs \<and> list_all Q cs)"

lemma keeps_call_appended:
  "Q \<lparr>dc_service = sv, dc_path = p, dc_interface = i, dc_method = m, dc_args = a, dc_cont = k\<rparr> \<Longrightarrow>
   keeps (appended Q c0) (call sv p i m a k)"
  unfolding call_def by (rule keeps_modify) (auto simp: appended_def)

lemma keeps_send_appended: "keeps (appended Q c0) (send L m)"
  unfolding send_def by (rule keeps_modify) (simp add: appended_def)

lemma keeps_with_res_appended: "keeps (appended Q c0) (with_res f)"
  by (auto simp: keeps_def appended_def with_res_def split: prod.splits)

lemmas appended_intro = keeps_intro keeps_call_appended keeps_send_appended keeps_with_res_appended

lemma reset_nulls_writes: "keeps (appended (writes sv (domain, policy, i, m)) c0) (reset_nulls domain policy sv i ks j)"
proof (induction ks arbitrary: j)
  case Nil
  then show ?case unfolding reset_nulls.simps by (rule keeps_ret)
next
  case (Cons k ks)
  have "keeps (appended (writes sv (domain, policy, i, m)) c0) (updatePolicyToDefaults domain policy sv i)"
    unfolding updatePolicyToDefaults_def by (intro appended_intro) (simp_all add: writes_def)
  with Cons show ?case unfolding reset_nulls.simps by (intro keeps_if keeps_thenE keeps_ret)
qed

lemma set_attribute_writes: "keeps (appended (writes sv (domain, policy, i, m)) c0) (set_attribute sv domain policy pr v n x b)"
  unfolding set_attribute_def by (rule keeps_call_appended) (simp add: writes_def)

lemma patchPowerLimit_writes: "keeps (appended (writes sv (domain, policy, i, m)) c0) (patchPowerLimit L domain policy i sv j)"
  unfolding patchPowerLimit_def patchLimitInWatts_def patchLimitException_def patchCorrectionInMs_def seqE.simps
  by (intro appended_intro reset_nulls_writes set_attribute_writes)

lemma patchOem_writes: "keeps (appended (writes sv (domain, policy, i, m)) c0) (patchOem L domain policy sv j)"
  unfolding patchOem_def Let_def patchOemOpenBmc_def patchPowerLimitStorage_def
  by (intro appended_intro set_attribute_writes)

lemma override_one_writes: "keeps (appended (writes sv e) c0) (override_one L sv e vals)"
  by (cases e) (auto simp: override_one_def intro!: appended_intro patchPowerLimit_writes patchOem_writes)

lemma nothrow_Let [nothrow_intro]: "nothrow (f a) \<Longrightarrow> nothrow (Let a f)"
  by simp

lemma nothrow_set_attribute [nothrow_intro]: "nothrow (set_attribute sv domain policy pr v n x b)"
  unfolding set_attribute_def by (rule nothrow_intro)

lemma nothrow_reset_nulls [nothrow_intro]: "nothrow (reset_nulls domain policy sv i ks j)"
  by (induction ks arbitrary: j) (auto simp: updatePolicyToDefaults_def intro!: nothrow_intro)

lemma nothrow_override_one: "nothrow (override_one L sv e vals)"
  unfolding override_one_def patchPowerLimit_def patchLimitInWatts_def patchLimitException_def patchCorrectionInMs_def
    seqE.simps patchOem_def Let_def patchOemOpenBmc_def patchPowerLimitStorage_def
  by (cases e) (auto intro!: nothrow_intro)

text \<open>Every object of the request can be read.\<close>

definition readable :: "'q redfish_lib \<Rightarrow> json \<Rightarrow> bool" where
  "readable L c \<longleftrightarrow> (\<forall>r. \<exists>vals. readJson L c overrideFields r = (Some vals, r))"

lemma override_run:
  assumes "\<forall>c \<in> set cs. readable L c" and "i \<le> length entries" and "override_from L sv entries i cs s = (x, s')"
  shows "x = (if length cs \<le> length entries - i then Inr () else Inl (Out_Of_Range ''vector::at'')) \<and>
    (\<exists>css. length css = min (length cs) (length entries - i) \<and> nm_calls s' = nm_calls s @ concat css \<and>
      (\<forall>k < length css. list_all (writes sv (entries ! (i + k))) (css ! k)))"
  using assms
proof (induction cs arbitrary: i s)
  case Nil
  then show ?case by simp
next
  case (Cons c cs)
  show ?case
  proof (cases "length entries \<le> i")
    case True
    with Cons.prems show ?thesis by auto
  next
    case False
    obtain vals where v: "readJson L c overrideFields (nm_res s) = (Some vals, nm_res s)"
      using Cons.prems(1) by (force simp: readable_def)
    obtain s1 where 1: "override_one L sv (entries ! i) vals s = (Inr (), s1)"
      using nothrowD [OF nothrow_override_one, of L sv "entries ! i" vals s] by auto
    have "appended (writes sv (entries ! i)) (nm_calls s) s1"
      using keepsD [OF override_one_writes _ 1] by (simp add: appended_def)
    then obtain ds where d: "nm_calls s1 = nm_calls s @ ds" "list_all (writes sv (entries ! i)) ds"
      by (auto simp: appended_def)
    have 2: "override_from L sv entries (Suc i) cs s1 = (x, s')"
      using Cons.prems(3) False v 1 by (simp add: bindE_apply thenE_apply with_res_def)
    from Cons.IH [OF _ _ 2] Cons.prems(1) False obtain css where
      x: "x = (if length cs \<le> length entries - Suc i then Inr () else Inl (Out_Of_Range ''vector::at''))" and
      css: "length css = min (length cs) (length entries - Suc i)" "nm_calls s' = nm_calls s1 @ concat css"
        "\<forall>k < length css. list_all (writes sv (entries ! (Suc i + k))) (css ! k)" by auto
    have "\<forall>k < length (ds # css). list_all (writes sv (entries ! (i + k))) ((ds # css) ! k)"
      using css(3) d(2) by (auto simp: nth_Cons' gr0_conv_Suc)
    with x css(1,2) d(1) False show ?thesis
      by (intro conjI exI [of _ "ds # css"]) auto
  qed
qed

section \<open>Properties of the page of all nodes\<close>

text \<open>C12: The positions of the page agree with the list a PATCH goes through: when all nodes are collected into
  an empty \<open>PowerControl\<close> array, nothing is thrown, the page has exactly one node for every entry of
  \<open>buildDomainPolicyMap\<close>, in its order and with its member name, and each of the seven calls per node is a
  reading call that asks the selected service about the domain or the policy of the entry at the position the
  reply is written to.\<close>

theorem page_positions:
  assumes "page_ok (r_json (nm_res s))" and "nodes (r_json (nm_res s)) = []"
    and "collectNmDmtfData chassisId nmServiceName processors memories accelerators s = (x, s')"
    and "entries = buildDomainPolicyMap processors memories accelerators"
  shows "x = Inr () \<and>
    map (member ''MemberId'') (nodes (r_json (nm_res s'))) = map (\<lambda>e. Some (J_string (memberId e))) entries \<and>
    (\<exists>cs. nm_calls s' = nm_calls s @ cs \<and> length cs = 7 * length entries \<and>
      list_all (asks_entry nmServiceName entries) cs)"
proof -
  obtain cs where run: "collectNmDmtfData chassisId nmServiceName processors memories accelerators s = (Inr (), s')"
    and v: "view (page s') = put_names 0 (map memberId entries) (view (page s))"
    and cs: "nm_calls s' = nm_calls s @ cs" "length cs = 7 * length entries" "list_all (asks_entry nmServiceName entries) cs"
    using effectE [OF effect_collect assms(1)] assms(3,4) by (metis prod.inject)
  have len: "length (nodes (page s')) = length entries" and m: "members (page s') i = Some (J_string (memberId (entries ! i)))"
    if "i < length entries" for i
    using v assms(2) that by (auto simp: view_def put_names_def fun_eq_iff)
  have "length (nodes (page s')) = length entries"
    using v assms(2) by (simp add: view_def put_names_def)
  moreover from this m have "map (member ''MemberId'') (nodes (page s')) = map (\<lambda>e. Some (J_string (memberId e))) entries"
    by (intro nth_equalityI) (simp_all add: members_def node_at_def)
  ultimately show ?thesis using run assms(3) cs by auto
qed

theorem page_positions_witness:
  "\<exists>x s'. collectNmDmtfData ''chassis'' ''nm'' [0, 1] [2] [] (pw_init :: json pw_state) = (x, s') \<and>
    map (member ''MemberId'') (nodes (r_json (nm_res s'))) = map (\<lambda>m. Some (J_string m))
      [''0'', ''Accelerators'', ''Processor0'', ''Processor1'', ''Processors'', ''Memory2'', ''Memories'']"
proof -
  obtain x and s' :: "json pw_state" where run: "collectNmDmtfData ''chassis'' ''nm'' [0, 1] [2] [] pw_init = (x, s')"
    by fastforce
  have e: "map memberId (buildDomainPolicyMap [0, 1] [2] []) =
      [''0'', ''Accelerators'', ''Processor0'', ''Processor1'', ''Processors'', ''Memory2'', ''Memories'']" by code_simp
  have ok: "page_ok (r_json (nm_res (pw_init :: json pw_state)))" "nodes (r_json (nm_res (pw_init :: json pw_state))) = []"
    by (simp_all add: pw_init_def response_new_def page_ok_def nodes_def)
  from page_positions [OF ok run refl] e run show ?thesis
    by (metis (no_types, lifting) list.map_comp comp_def map_eq_conv)
qed

lemma filter_alpha_device: "list_all isalpha pre \<Longrightarrow> filter isalpha (pre @ device_string i) = pre"
proof -
  assume "list_all isalpha pre"
  then have "filter isalpha pre = pre" by (simp add: list_all_iff filter_id_conv)
  moreover have "filter isalpha (device_string i) = []"
    by (auto simp: device_string_def filter_empty_conv dest: to_string_digits isdigit_not_alpha)
  ultimately show ?thesis by simp
qed

lemma component_entry_shape:
  assumes "(d, p, i, m) = component_entry domain pre i'" and "list_all isalpha pre" and "pre \<noteq> []"
  shows "p = nmPolicyName m \<and> m = filter isalpha m @ device_string i \<and> p = nmComponentPolicyName (filter isalpha m) i"
proof -
  have m: "m = pre @ device_string i" "i = i'" "p = dmtfPowerPolicyId @ ''_'' @ m" using assms(1) by (simp_all add: component_entry_def)
  have f: "filter isalpha m = pre" unfolding m(1) by (rule filter_alpha_device [OF assms(2)])
  have "m \<noteq> ''0''"
  proof
    assume "m = ''0''"
    with f have "pre = []" by (simp add: isalpha_def char_code_def)
    with assms(3) show False by simp
  qed
  with m f show ?thesis by (simp add: nmPolicyName_def nmComponentPolicyName_def)
qed

lemma entry_shape:
  assumes "(d, p, i, m) \<in> set (buildDomainPolicyMap processors memories accelerators)"
  shows "p = nmPolicyName m \<and> (i \<noteq> allDevices \<longrightarrow>
    m = filter isalpha m @ device_string i \<and> p = nmComponentPolicyName (filter isalpha m) i)"
proof -
  have alpha: "list_all isalpha ''Accelerator''" "list_all isalpha ''Processor''" "list_all isalpha ''Memory''"
    by (simp_all add: isalpha_def char_code_def)
  consider (agg) "i = allDevices" "p = nmPolicyName m"
    | (comp) domain pre i' where "(d, p, i, m) = component_entry domain pre i'" "pre \<in> {''Accelerator'', ''Processor'', ''Memory''}"
    using assms by (auto simp: buildDomainPolicyMap_def nmPolicyName_def)
  then show ?thesis
  proof cases
    case comp
    with alpha have "list_all isalpha pre" "pre \<noteq> []" by auto
    from component_entry_shape [OF comp(1) this] show ?thesis by blast
  qed simp
qed

lemma find_member_eq: "find_member name entries = find (\<lambda>e. memberId e = name) entries"
  by (simp add: find_member_def memberId_def case_prod_beta')

lemma find_member_SomeD: "find_member name entries = Some e \<Longrightarrow> e \<in> set entries \<and> memberId e = name"
  by (auto simp: find_member_eq find_Some_iff)

lemma find_member_None_iff: "find_member name entries = None \<longleftrightarrow> name \<notin> memberId ` set entries"
  by (auto simp: find_member_eq find_None_iff)

lemma shows_member:
  assumes "find_member name (buildDomainPolicyMap processors memories accelerators) = Some e"
  shows "shows_node sv e tempNode (getMember L ch sv name (buildDomainPolicyMap processors memories accelerators))"
proof -
  obtain d p i m where e: "e = (d, p, i, m)" by (cases e) auto
  from find_member_SomeD [OF assms] have m: "m = name" and s: "(d, p, i, m) \<in> set (buildDomainPolicyMap processors memories accelerators)"
    by (auto simp: e memberId_def)
  from entry_shape [OF s] have p: "p = nmPolicyName name"
    and c: "i \<noteq> allDevices \<Longrightarrow> filter isalpha name @ device_string i = name \<and> nmComponentPolicyName (filter isalpha name) i = p"
    by (auto simp: m)
  show ?thesis
  proof (cases "i = allDevices")
    case True
    with assms show ?thesis
      using shows_aggregateNode [of sv d name i tempNode ch] by (simp add: getMember_def e m p)
  next
    case False
    with assms c [OF False] show ?thesis
      using shows_componentNode [of sv d "filter isalpha name" i tempNode ch powerRootNode] by (simp add: getMember_def e m)
  qed
qed

text \<open>C15: The page of a single node shows the node of that name: for a name of the list, the node kept for
  the page gets exactly that member name, and its seven calls ask about the domain and the policy the list has
  for the name, each owning a share of the callback that turns the node into the page; for any other name no call
  is made and the response says that the resource does not exist.\<close>

theorem member_page_exact:
  assumes "page_ok (r_json (nm_res s))" and "entries = buildDomainPolicyMap processors memories accelerators"
    and "getMember L chassisId nmServiceName name entries s = (x, s')"
  shows "x = Inr () \<and> (case find_member name entries of
     None \<Rightarrow> name \<notin> memberId ` set entries \<and> nm_calls s' = nm_calls s \<and>
       r_msgs (nm_res s') = r_msgs (nm_res s) @ [M_resourceNotFound ''PowerControl'' name]
   | Some e \<Rightarrow> memberId e = name \<and> members (r_json (nm_res s')) tempNode = Some (J_string name) \<and>
       (\<exists>cs. nm_calls s' = nm_calls s @ cs \<and> length cs = 7 \<and> list_all (asks nmServiceName e tempNode True) cs) \<and>
       nm_final s' = Some (7, ()))"
proof (cases "find_member name entries")
  case None
  with assms(3) show ?thesis
    by (auto simp: getMember_def send_apply add_message_def find_member_None_iff [symmetric])
next
  case (Some e)
  then have "memberId e = name" by (simp add: find_member_SomeD)
  with Some shows_member [of name processors memories accelerators e nmServiceName L chassisId] assms
  show ?thesis by (auto simp: shows_node_def)
qed

theorem member_page_exact_witness:
  "\<exists>s'. getMember demo_redfish ''chassis'' ''nm'' ''Processor1'' (buildDomainPolicyMap [0, 1] [2] []) pw_init = (Inr (), s') \<and>
    members (r_json (nm_res s')) tempNode = Some (J_string ''Processor1'') \<and> length (nm_calls s') = 7"
proof -
  obtain x and s' :: "json pw_state" where
    run: "getMember demo_redfish ''chassis'' ''nm'' ''Processor1'' (buildDomainPolicyMap [0, 1] [2] []) pw_init = (x, s')" by fastforce
  have ok: "page_ok (r_json (nm_res (pw_init :: json pw_state)))"
    by (simp add: pw_init_def response_new_def page_ok_def nodes_def)
  have "find_member ''Processor1'' (buildDomainPolicyMap [0, 1] [2] []) = Some (component_entry cpuDomainId ''Processor'' 1)"
    by code_simp
  with member_page_exact [OF ok refl run] run show ?thesis by (auto simp: pw_init_def)
qed

text \<open>C13: A PATCH of all nodes writes by position: when every object of its array can be read, the object at
  position \<open>k\<close> causes writing calls to the policy of entry \<open>k\<close> only, which is the policy of the node a GET
  shows at position \<open>k\<close>, in the order of the array; the handler returns when there are at most as many objects
  as nodes, and otherwise the bounds check of the list throws after every node has been written.\<close>

theorem override_by_position:
  assumes "\<forall>c \<in> set collections. readable L c"
    and "override_from L nmServiceName entries 0 collections s = (x, s')"
  shows "x = (if length collections \<le> length entries then Inr () else Inl (Out_Of_Range ''vector::at'')) \<and>
    (\<exists>css. length css = min (length collections) (length entries) \<and> nm_calls s' = nm_calls s @ concat css \<and>
      (\<forall>k < length css. list_all (writes nmServiceName (entries ! k)) (css ! k)))"
  using override_run [OF assms(1) _ assms(2)] by simp

theorem override_by_position_witness:
  "\<exists>s'. override_from demo_redfish ''nm'' (buildDomainPolicyMap [] [] []) 0
     (replicate 5 (J_object [(''PowerLimit'', J_object [(''LimitInWatts'', J_int 7)])])) (pw_init :: json pw_state) =
     (Inl (Out_Of_Range ''vector::at''), s') \<and> length (nm_calls s') = 4"
proof -
  define c where "c = J_object [(''PowerLimit'', J_object [(''LimitInWatts'', J_int 7)])]"
  obtain x and s' :: "json pw_state" where
    run: "override_from demo_redfish ''nm'' (buildDomainPolicyMap [] [] []) 0 (replicate 5 c) pw_init = (x, s')" by fastforce
  have "\<forall>c \<in> set (replicate 5 c). readable demo_redfish c"
    by (auto simp: readable_def demo_redfish_def demo_read_def overrideFields_def c_def)
  from override_by_position [OF this run] have x: "x = Inl (Out_Of_Range ''vector::at'')"
    by (simp add: buildDomainPolicyMap_def)
  have "length (nm_calls (snd (override_from demo_redfish ''nm'' (buildDomainPolicyMap [] [] []) 0
      (replicate 5 (J_object [(''PowerLimit'', J_object [(''LimitInWatts'', J_int 7)])])) (pw_init :: json pw_state)))) = 4"
    by code_simp
  with x run show ?thesis by (auto simp: c_def)
qed

text \<open>The words and numbers of the power pages agree with those of the policies: both directions of the
  limit exception and of the power limit storage invert each other on the words the pages accept, and every such
  word denotes the same number as in the tables of the policies.\<close>

theorem power_tables_agree:
  "(\<forall>w k. limitExceptionToInt w = Some k \<longleftrightarrow> limitExceptionToStr k = Some w) \<and>
   (\<forall>w k. powerLimitStorageToInt w = Some k \<longleftrightarrow> powerLimitStorageToStr k = Some w) \<and>
   limitExceptionMapping = map prod.swap kLimitExceptionMap \<and>
   powerLimitStorageMapping = map prod.swap kPolicyStorageMap"
  by (auto simp: limitExceptionToInt_def limitExceptionToStr_def powerLimitStorageToInt_def powerLimitStorageToStr_def
      limitExceptionMapping_def powerLimitStorageMapping_def kLimitExceptionMap_def kPolicyStorageMap_def
      split: if_splits)

end
