(* ===== verification/Nm_Pages.thy ===== *)
theory Nm_Pages
  imports Nm_Nodes
begin

text \<open>
  The power pages under every order of replies: which calls a GET issues, when the page of a single node is
  complete, and that it always gets complete.
\<close>

section \<open>The replies of a node\<close>

text \<open>Messages are added beside the nodes of a page.\<close>

definition messages_keep_page :: "'q redfish_lib \<Rightarrow> bool" where
  "messages_keep_page L \<longleftrightarrow> (\<forall>m j. page_ok j \<longrightarrow> page_ok (msg_json L m j) \<and> view (msg_json L m j) = view j)"

lemma demo_messages_keep_page: "messages_keep_page demo_redfish"
  by (simp add: messages_keep_page_def demo_redfish_def)

text \<open>On a page that has the node, \<open>m\<close> succeeds and changes neither the positions nor the calls.\<close>

definition stays :: "nat \<Rightarrow> ('q pw_state, unit) exm \<Rightarrow> bool" where
  "stays idx m \<longleftrightarrow> (\<forall>s. page_ok (page s) \<and> idx < length (nodes (page s)) \<longrightarrow> (\<exists>s'. m s = (Inr (), s') \<and>
     page_ok (page s') \<and> view (page s') = view (page s) \<and> nm_calls s' = nm_calls s \<and> nm_final s' = nm_final s))"

lemma staysE:
  assumes "stays idx m" "page_ok (page s)" "idx < length (nodes (page s))"
  obtains s' where "m s = (Inr (), s')" "page_ok (page s')" "view (page s') = view (page s)"
    "nm_calls s' = nm_calls s" "nm_final s' = nm_final s"
  using assms unfolding stays_def by blast

named_theorems stays_intro \<open>what leaves the positions of a page alone\<close>

lemma stays_ret [stays_intro]: "stays idx (ret ())"
  by (simp add: stays_def)

lemma stays_thenE [stays_intro]: "stays idx m \<Longrightarrow> stays idx k \<Longrightarrow> stays idx (thenE m k)"
  unfolding stays_def thenE_apply view_def by (metis (no_types, lifting) prod.inject case_prod_conv sum.case(2))

lemma stays_put [stays_intro]: "node_path ks x \<Longrightarrow> ks \<noteq> [''MemberId''] \<Longrightarrow> stays idx (pc_put idx ks x)"
proof (unfold stays_def, intro allI impI)
  fix s :: "'a pw_state"
  assume p: "node_path ks x" "ks \<noteq> [''MemberId'']" and s: "page_ok (page s) \<and> idx < length (nodes (page s))"
  obtain s' where "pc_put idx ks x s = (Inr (), s')" "page_ok (page s')" "view (page s') = touch idx (view (page s))"
    "nm_calls s' = nm_calls s" "nm_final s' = nm_final s"
    using effectE [OF effect_put [OF p, of False "\<lambda>_. True" idx], of s] s by auto
  with s show "\<exists>s'. pc_put idx ks x s = (Inr (), s') \<and> page_ok (page s') \<and> view (page s') = view (page s) \<and>
      nm_calls s' = nm_calls s \<and> nm_final s' = nm_final s"
    by (auto simp: touch_id view_def)
qed

lemma stays_send [stays_intro]: "messages_keep_page L \<Longrightarrow> stays idx (send L m)"
  by (auto simp: stays_def send_apply add_message_def messages_keep_page_def)

lemma stays_if [stays_intro]: "stays idx m \<Longrightarrow> stays idx k \<Longrightarrow> stays idx (if b then m else k)"
  by simp

lemma stays_option [stays_intro]:
  "(\<And>a. stays idx (f a)) \<Longrightarrow> stays idx m \<Longrightarrow> stays idx (case x of Some a \<Rightarrow> f a | None \<Rightarrow> m)"
  by (cases x) auto

lemma stays_sum [stays_intro]:
  "(\<And>a. stays idx (f a)) \<Longrightarrow> (\<And>b. stays idx (g b)) \<Longrightarrow> stays idx (case x of Inl a \<Rightarrow> f a | Inr b \<Rightarrow> g b)"
  by (cases x) auto

lemma stays_prod [stays_intro]: "(\<And>a b. stays idx (f a b)) \<Longrightarrow> stays idx (case x of (a, b) \<Rightarrow> f a b)"
  by (cases x) auto

lemma stays_if_some [stays_intro]: "(\<And>a. stays idx (f a)) \<Longrightarrow> stays idx (if_some x f)"
  unfolding if_some_def by (intro stays_intro)

lemma stays_seqE [stays_intro]: "stays idx (seqE [])" "stays idx m \<Longrightarrow> stays idx (seqE ms) \<Longrightarrow> stays idx (seqE (m # ms))"
  by (simp_all add: stays_ret stays_thenE)

text \<open>A reply to a call of a node runs a handler that leaves the positions alone, and then gives up its share.\<close>

lemma node_resume:
  assumes "messages_keep_page L" and "cont_node k = Some (idx, fin)"
  obtains h where "pw_resume L k r = node_reply fin h" and "stays idx h"
proof -
  note d = onPowerLimit_def onOem_def setOemPowerLimitStorage_def onAllocated_def onComponentCapacity_def logException_def onConsumed_def
    onDomainMax_def onMetrics_def put_metric_def put_interval_def onStatus_def
  have "\<exists>h. pw_resume L k r = node_reply fin h \<and> stays idx h"
    using assms
    by (cases k)
      (auto simp: pw_resume_def d intro!: exI stays_intro)
  then show thesis using that by blast
qed

section \<open>The page of a single node\<close>

text \<open>The chain of calls that leads to the components, and how many replies it still takes.\<close>

fun chain_rank :: "string \<Rightarrow> string \<Rightarrow> 'q pw_cont \<Rightarrow> nat option" where
  "chain_rank ch node (PK_chassisPaths ch' (CN_member node')) = (if ch' = ch \<and> node' = node then Some 12 else None)"
| "chain_rank ch node (PK_getObject ch' (GO_member node')) = (if ch' = ch \<and> node' = node then Some 11 else None)"
| "chain_rank ch node (PK_cpu ch' sv (CB_member node')) = (if ch' = ch \<and> node' = node then Some 10 else None)"
| "chain_rank ch node (PK_memory ch' sv (CB_member node') ps) = (if ch' = ch \<and> node' = node then Some 9 else None)"
| "chain_rank ch node (PK_pcie ch' sv (CB_member node') ps ms) = (if ch' = ch \<and> node' = node then Some 8 else None)"
| "chain_rank ch node k = None"

fun_cases chain_rankE: "chain_rank ch node k = Some n"

text \<open>The three phases of the page: looking for the node, asking about it, done.\<close>

definition looking :: "string \<Rightarrow> string \<Rightarrow> nat \<Rightarrow> 'q pw_state \<Rightarrow> bool" where
  "looking ch node n s \<longleftrightarrow> nm_final s = None \<and> page s = J_null \<and>
     (\<exists>c. nm_calls s = [c] \<and> chain_rank ch node (dc_cont c) = Some n)"

definition asking :: "string \<Rightarrow> nat \<Rightarrow> 'q pw_state \<Rightarrow> bool" where
  "asking node n s \<longleftrightarrow> nm_final s = Some (n, ()) \<and> length (nm_calls s) = n \<and> 0 < n \<and> n \<le> 7 \<and> page_ok (page s) \<and>
     tempNode < length (nodes (page s)) \<and> members (page s) tempNode = Some (J_string node) \<and>
     list_all (\<lambda>c. cont_node (dc_cont c) = Some (tempNode, True)) (nm_calls s)"

definition finished :: "string \<Rightarrow> 'q pw_state \<Rightarrow> bool" where
  "finished node s \<longleftrightarrow> nm_final s = None \<and> nm_calls s = [] \<and>
     (member ''MemberId'' (page s) = Some (J_string node) \<or> r_msgs (nm_res s) \<noteq> [] \<or> page s = J_null)"

definition member_inv :: "string \<Rightarrow> string \<Rightarrow> nat \<Rightarrow> 'q pw_state \<Rightarrow> bool" where
  "member_inv ch node n s \<longleftrightarrow> looking ch node n s \<or> asking node n s \<or> n = 0 \<and> finished node s"

lemma page_ok_null [simp]: "page_ok J_null"
  by (simp add: page_ok_def nodes_def)

lemma member_inv_start: "run_power (GET_powerControl ch node) pw_init = (x, s) \<Longrightarrow> member_inv ch node 12 s"
  by (auto simp: run_power_def powerControl_get_def getChassisPaths_def call_apply pw_init_def member_inv_def
      looking_def response_new_def)

text \<open>The last owner of the callback makes the node the page.\<close>

lemma show_node_run:
  assumes "page_ok (page s)" and "tempNode < length (nodes (page s))"
  shows "show_node s = (Inr (), s\<lparr>nm_res := (nm_res s)\<lparr>r_json := node_at (page s) tempNode\<rparr>\<rparr>)"
proof -
  obtain vs where m: "member ''PowerControl'' (page s) = Some (J_array vs)" "nodes (page s) = vs"
    using assms(2) by (auto simp: nodes_def split: option.splits json.splits)
  then have "json_index ''PowerControl'' (page s) = Inr (J_array vs)"
    by (auto simp: member_def json_index_def split: json.splits)
  with m assms(2) show ?thesis
    by (simp add: show_node_def upd_json_def json_index_at_def node_at_def)
qed

lemma asking_step:
  assumes "messages_keep_page L" and "asking node n s" and "nm_calls s = xs @ c # ys"
    and "pw_resume L (dc_cont c) r (s\<lparr>nm_calls := xs @ ys\<rparr>) = (x, s')"
  shows "x = Inr () \<and> member_inv ch node (n - 1) s'"
proof -
  let ?s = "s\<lparr>nm_calls := xs @ ys\<rparr>"
  have a: "nm_final s = Some (n, ())" "Suc (length (xs @ ys)) = n" "n \<le> 7" "page_ok (page s)"
    "tempNode < length (nodes (page s))" "members (page s) tempNode = Some (J_string node)"
    "list_all (\<lambda>c. cont_node (dc_cont c) = Some (tempNode, True)) (xs @ ys)" "cont_node (dc_cont c) = Some (tempNode, True)"
    using assms(2,3) by (auto simp: asking_def)
  obtain h where h: "pw_resume L (dc_cont c) r = node_reply True h" "stays tempNode h"
    using node_resume [OF assms(1) a(8)] by blast
  obtain s1 where 1: "h ?s = (Inr (), s1)" "page_ok (page s1)" "view (page s1) = view (page s)"
    "nm_calls s1 = xs @ ys" "nm_final s1 = Some (n, ())"
    using staysE [OF h(2), of ?s] a by auto
  have len: "tempNode < length (nodes (page s1))" and mem: "members (page s1) tempNode = Some (J_string node)"
    using 1(3) a by (simp_all add: view_def)
  show ?thesis
  proof (cases "n \<le> 1")
    case True
    with a(2) have e: "xs = []" "ys = []" "n = 1" by auto
    have "node_reply True h ?s = (Inr (), s1\<lparr>nm_final := None, nm_res := (nm_res s1)\<lparr>r_json := node_at (page s1) tempNode\<rparr>\<rparr>)"
      using 1 e show_node_run [of "s1\<lparr>nm_final := None\<rparr>"] len
      by (simp add: node_reply_def thenE_apply release_page_def bindE_apply)
    with assms(4) h(1) mem 1 e show ?thesis
      by (auto simp: member_inv_def finished_def members_def)
  next
    case False
    with 1 have "node_reply True h ?s = (Inr (), s1\<lparr>nm_final := Some (n - 1, ())\<rparr>)"
      by (simp add: node_reply_def thenE_apply release_page_def bindE_apply)
    with assms(4) h(1) 1 a len mem False show ?thesis
      by (auto simp: member_inv_def asking_def)
  qed
qed

lemma asks_node: "list_all (asks sv e tempNode True) cs \<Longrightarrow> list_all (\<lambda>c. cont_node (dc_cont c) = Some (tempNode, True)) cs"
  by (cases e) (auto simp: asks_def list_all_iff)

lemma onComponentsError_member:
  "onComponentsError L (CB_member node) s = (Inr (), s\<lparr>nm_res := add_message L M_serviceInUnknownState (nm_res s)\<rparr>)"
  by (simp add: onComponentsError_def send_apply)

lemma components_inv:
  assumes "page s = J_null" and "nm_calls s = []" and "nm_final s = None"
    and "onComponents L ch sv (CB_member node) ps ms as s = (x, s')"
  shows "x = Inr () \<and> (asking node 7 s' \<or> finished node s')"
proof -
  have ok: "page_ok (page s)" using assms(1) by simp
  have run: "getMember L ch sv node (buildDomainPolicyMap ps ms as) s = (x, s')"
    using assms(4) by (simp add: onComponents_def)
  show ?thesis
  proof (cases "find_member node (buildDomainPolicyMap ps ms as)")
    case None
    with run assms show ?thesis
      by (auto simp: getMember_def send_apply add_message_def finished_def)
  next
    case (Some e)
    then have "memberId e = node" by (simp add: find_member_SomeD)
    moreover obtain cs where "x = Inr ()" "page_ok (page s')" "tempNode < length (nodes (page s'))"
      "members (page s') tempNode = Some (J_string (memberId e))" "nm_calls s' = cs" "length cs = 7"
      "list_all (asks sv e tempNode True) cs" "nm_final s' = Some (7, ())"
      using shows_member [OF Some, of sv L ch] ok run assms(2) unfolding shows_node_def by fastforce
    ultimately show ?thesis by (simp add: asking_def asks_node)
  qed
qed

lemma lower_inv:
  "looking ch node n' s \<Longrightarrow> n' < n \<Longrightarrow> \<exists>n' < n. member_inv ch node n' s"
  "asking node n' s \<Longrightarrow> n' < n \<Longrightarrow> \<exists>n' < n. member_inv ch node n' s"
  "finished node s \<Longrightarrow> 0 < n \<Longrightarrow> \<exists>n' < n. member_inv ch node n' s"
  by (auto simp: member_inv_def)

lemma looking_step:
  assumes "looking ch node n s" and "nm_calls s = xs @ c # ys"
    and "pw_resume L (dc_cont c) r (s\<lparr>nm_calls := xs @ ys\<rparr>) = (x, s')"
  shows "x = Inr () \<and> (\<exists>n' < n. member_inv ch node n' s')"
proof -
  have l: "xs = []" "ys = []" "chain_rank ch node (dc_cont c) = Some n" "nm_final s = None" "page s = J_null"
    using assms(1,2) by (cases xs; auto simp: looking_def)+
  let ?s = "s\<lparr>nm_calls := []\<rparr>"
  have run: "pw_resume L (dc_cont c) r ?s = (x, s')" using assms(3) l by simp
  note chain = getNmDmtfComponentByMemberId_def getNmObject_def getComponents_def get_available_def call_apply
  consider
      (paths) "dc_cont c = PK_chassisPaths ch (CN_member node)" "n = 12"
    | (object) "dc_cont c = PK_getObject ch (GO_member node)" "n = 11"
    | (cpu) sv where "dc_cont c = PK_cpu ch sv (CB_member node)" "n = 10"
    | (memory) sv ps where "dc_cont c = PK_memory ch sv (CB_member node) ps" "n = 9"
    | (pcie) sv ps ms where "dc_cont c = PK_pcie ch sv (CB_member node) ps ms" "n = 8"
    using l(3) by (elim chain_rankE) (auto split: if_splits)
  then show ?thesis
  proof cases
    case paths
    show ?thesis
    proof (cases "chassisHandler ch (reply_paths r)")
      case True
      with paths run l have "x = Inr () \<and> looking ch node 11 s'"
        by (auto simp: pw_resume_def onChassisPaths_def chain looking_def)
      with paths show ?thesis by (auto intro: lower_inv)
    next
      case False
      with paths run l have "x = Inr () \<and> finished node s'"
        by (auto simp: pw_resume_def onChassisPaths_def finished_def)
      with paths show ?thesis by (auto intro: lower_inv)
    qed
  next
    case object
    with run l have "x = Inr () \<and> looking ch node 10 s'"
      by (auto simp: pw_resume_def onNmObject_def Let_def chain looking_def)
    with object show ?thesis by (auto intro: lower_inv)
  next
    case cpu
    show ?thesis
    proof (cases "reply_bytes r")
      case (Inl ec)
      with cpu run l have "x = Inr () \<and> finished node s'"
        by (auto simp: pw_resume_def onCpu_def onComponentsError_member finished_def add_message_def)
      with cpu show ?thesis by (auto intro: lower_inv)
    next
      case (Inr bs)
      with cpu run l have "x = Inr () \<and> looking ch node 9 s'"
        by (auto simp: pw_resume_def onCpu_def chain looking_def)
      with cpu show ?thesis by (auto intro: lower_inv)
    qed
  next
    case memory
    show ?thesis
    proof (cases "reply_bytes r")
      case (Inl ec)
      with memory run l have "x = Inr () \<and> finished node s'"
        by (auto simp: pw_resume_def onMemory_def onComponentsError_member finished_def add_message_def)
      with memory show ?thesis by (auto intro: lower_inv)
    next
      case (Inr bs)
      with memory run l have "x = Inr () \<and> looking ch node 8 s'"
        by (auto simp: pw_resume_def onMemory_def chain looking_def)
      with memory show ?thesis by (auto intro: lower_inv)
    qed
  next
    case pcie
    show ?thesis
    proof (cases "reply_bytes r")
      case (Inl ec)
      with pcie run l have "x = Inr () \<and> finished node s'"
        by (auto simp: pw_resume_def onPcie_def onComponentsError_member finished_def add_message_def)
      with pcie show ?thesis by (auto intro: lower_inv)
    next
      case (Inr bs)
      with pcie run have "onComponents L ch sv (CB_member node) ps ms bs ?s = (x, s')"
        by (simp add: pw_resume_def onPcie_def)
      with components_inv [of ?s] l have "x = Inr () \<and> (asking node 7 s' \<or> finished node s')" by auto
      with pcie show ?thesis by (auto intro: lower_inv)
    qed
  qed
qed

lemma member_step:
  assumes "messages_keep_page L" and "member_inv ch node n s" and "pw_step L s s'"
  shows "\<exists>n' < n. member_inv ch node n' s'"
  using assms(3)
proof cases
  case (reply xs c ys r x)
  from assms(2) consider "looking ch node n s" | "asking node n s" | "nm_calls s = []"
    by (auto simp: member_inv_def finished_def)
  then show ?thesis
  proof cases
    case 1
    with looking_step reply show ?thesis by blast
  next
    case 2
    with asking_step [OF assms(1) 2 reply] show ?thesis
      by (intro exI [of _ "n - 1"]) (auto simp: asking_def)
  qed (use reply in simp)
qed

lemma member_steps:
  assumes "messages_keep_page L" and "member_inv ch node k s" and "(pw_step L ^^ n) s s'"
  shows "\<exists>k'. member_inv ch node k' s' \<and> n + k' \<le> k"
  using assms(3)
proof (induction n arbitrary: s')
  case 0
  with assms(2) show ?case by auto
next
  case (Suc n)
  then obtain t where t1: "(pw_step L ^^ n) s t" "pw_step L t s'" by auto
  with Suc.IH obtain k' where t: "member_inv ch node k' t" "n + k' \<le> k" "pw_step L t s'" by blast
  with member_step [OF assms(1) t(1,3)] obtain k'' where "k'' < k'" "member_inv ch node k'' s'" by blast
  with t(2) show ?case by (intro exI [of _ k'']) simp
qed

lemma pw_step_enabled: "(\<nexists>t. pw_step L s t) \<longleftrightarrow> nm_calls s = []"
proof
  assume no: "\<nexists>t. pw_step L s t"
  show "nm_calls s = []"
  proof (cases "nm_calls s")
    case (Cons c ys)
    obtain x s' where "pw_resume L (dc_cont c) R_void (s\<lparr>nm_calls := [] @ ys\<rparr>) = (x, s')" by fastforce
    with Cons have "pw_step L s s'" by (intro pw_step.reply [where xs = "[]"]) auto
    with no show ?thesis by blast
  qed
qed (auto elim: pw_step.cases)

section \<open>Reading requests\<close>

fun reading_next :: "'q components_next \<Rightarrow> bool" where
  "reading_next CB_collect = True"
| "reading_next (CB_member name) = True"
| "reading_next k = False"

fun reading_cont :: "'q pw_cont \<Rightarrow> bool" where
  "reading_cont (PK_validHeader ch) = True"
| "reading_cont (PK_chassisPaths ch k) = (case k of CN_patchMember req name \<Rightarrow> False | _ \<Rightarrow> True)"
| "reading_cont (PK_getObject ch k) = (case k of GO_collect \<Rightarrow> True | GO_member name \<Rightarrow> True | _ \<Rightarrow> False)"
| "reading_cont (PK_cpu ch sv k) = reading_next k"
| "reading_cont (PK_memory ch sv k ps) = reading_next k"
| "reading_cont (PK_pcie ch sv k ps ms) = reading_next k"
| "reading_cont (PK_validOverride ch sv cs) = False"
| "reading_cont (PK_set name v enable) = False"
| "reading_cont (PK_enable name v) = False"
| "reading_cont PK_ignored = False"
| "reading_cont k = True"

definition reading_methods :: "string list" where
  "reading_methods = [''getValidChassisPath'', ''GetSubTreePaths'', ''GetObject'', ''Get'', ''GetAll'', ''GetStatistics'',
     ''GetAllLimitsCapabilities'']"

definition reading_call :: "'q pw_cont dbus_call \<Rightarrow> bool" where
  "reading_call c \<longleftrightarrow> dc_method c \<in> set reading_methods \<and> reading_cont (dc_cont c)"

definition reading :: "'q pw_state \<Rightarrow> bool" where
  "reading s \<longleftrightarrow> list_all reading_call (nm_calls s)"

named_theorems reading_intro \<open>computations that issue reading calls only\<close>

lemma reading_call_made [reading_intro]:
  "m \<in> set reading_methods \<Longrightarrow> reading_cont k \<Longrightarrow> keeps reading (call sv p i m a k)"
  unfolding call_def by (rule keeps_modify) (simp add: reading_def reading_call_def)

lemma reading_upd_json [reading_intro]: "keeps reading (upd_json f)"
  by (auto simp: keeps_def reading_def upd_json_def split: sum.splits)

lemma reading_addHeader [reading_intro]: "keeps reading (addHeader field v)"
  unfolding addHeader_def by (rule keeps_modify) (simp add: reading_def)

lemma reading_put [reading_intro]: "keeps reading (pc_put idx ks v)" "keeps reading (pc_push idx ks v)"
  by (simp_all add: pc_put_def pc_push_def pc_upd_def reading_upd_json)

lemma reading_send [reading_intro]: "keeps reading (send L m)"
  unfolding send_def by (rule keeps_modify) (simp add: reading_def)

lemma reading_final [reading_intro]: "keeps reading hold_final" "keeps reading (begin_page b)" "keeps reading (release_page b)"
  by (auto simp: hold_final_def begin_page_def release_page_def show_node_def reading_def
      intro!: keeps_intro reading_upd_json split: option.splits)

lemma reading_node_call [reading_intro]:
  "m \<in> set reading_methods \<Longrightarrow> reading_cont k \<Longrightarrow> keeps reading (node_call fin sv p i m a k)"
  unfolding node_call_def by (intro keeps_intro reading_intro)

lemma keeps_seqE: "keeps P (seqE [])" "keeps P m \<Longrightarrow> keeps P (seqE ms) \<Longrightarrow> keeps P (seqE (m # ms))"
  by (simp_all add: keeps_ret keeps_thenE)

lemma reading_nodes [reading_intro]:
  "keeps reading (getPowerControlComponentNode ch sv domain i idx name agg b)"
  "keeps reading (getPowerControlAggregateNode ch sv name idx domain b)"
  unfolding getPowerControlComponentNode_def getPowerControlAggregateNode_def Let_def getPowerLimit_def getOem_def
    setOemPowerLimitStorage_def getAllocatedAndRequestedWatts_def getComponentCapacity_def getDomainCapacity_def
    getPowerMetrics_def put_metric_def getStatus_def
  by (intro keeps_seqE keeps_intro reading_intro; simp add: reading_methods_def)+

lemma reading_collect [reading_intro]: "keeps reading (collectNmDmtfData ch sv ps ms as)"
  unfolding collectNmDmtfData_def getNmDmtfGroup_def getPowerLimit_def getOem_def
    setOemPowerLimitStorage_def getAllocatedAndRequestedWatts_def getDomainCapacity_def
    getPowerMetrics_def put_metric_def getStatus_def
  by (intro keeps_seqE keeps_intro reading_intro; simp add: reading_methods_def)

lemma reading_components:
  "reading_next k \<Longrightarrow> keeps reading (onComponents L ch sv k ps ms as)"
  "reading_next k \<Longrightarrow> keeps reading (onComponentsError L k)"
  by (cases k; auto simp: onComponents_def onComponentsError_def getMember_def intro!: keeps_intro reading_intro)+

lemma reading_get_available [reading_intro]: "reading_cont k \<Longrightarrow> keeps reading (get_available sv domain k)"
  unfolding get_available_def by (rule reading_call_made) (simp_all add: reading_methods_def)

lemma reading_resume: "reading_cont k \<Longrightarrow> keeps reading (pw_resume L k r)"
proof (induction k rule: reading_cont.induct)
  case (1 ch)
  show ?case unfolding pw_resume_def pw_cont.case doPowerHeader_def by (intro keeps_seqE keeps_intro reading_intro)
next
  case (2 ch k)
  then show ?case
    by (cases k) (auto simp: pw_resume_def onChassisPaths_def getNodeManagerData_def getNmDmtfComponentByMemberId_def
        getNmObject_def reading_methods_def intro!: keeps_intro reading_intro)
next
  case (3 ch k)
  then show ?case
    by (cases k) (auto simp: pw_resume_def onNmObject_def Let_def getComponents_def intro!: keeps_intro reading_intro)
next
  case (4 ch sv k)
  then show ?case
    by (auto simp: pw_resume_def onCpu_def intro!: keeps_intro reading_intro reading_components)
next
  case (5 ch sv k ps)
  then show ?case
    by (auto simp: pw_resume_def onMemory_def intro!: keeps_intro reading_intro reading_components)
next
  case (6 ch sv k ps ms)
  then show ?case
    by (auto simp: pw_resume_def onPcie_def intro!: keeps_intro reading_intro reading_components)
next
qed (auto simp: pw_resume_def node_reply_def onPowerLimit_def onOem_def setOemPowerLimitStorage_def onAllocated_def
    onComponentCapacity_def logException_def onConsumed_def onDomainMax_def onMetrics_def put_metric_def put_interval_def if_some_def
    onStatus_def intro!: keeps_seqE keeps_intro reading_intro)

lemma reading_start:
  "rq \<in> {GET_power ch, GET_powerControl ch name} \<Longrightarrow> run_power rq pw_init = (x, s) \<Longrightarrow> reading s"
proof -
  assume rq: "rq \<in> {GET_power ch, GET_powerControl ch name}" and run: "run_power rq pw_init = (x, s)"
  have "keeps reading (run_power rq)"
    using rq by (auto simp: run_power_def power_get_def powerControl_get_def getValidChassisPath_def getChassisPaths_def
        reading_methods_def intro!: keeps_seqE keeps_intro reading_intro)
  from keepsD [OF this _ run] show "reading s" by (simp add: reading_def pw_init_def)
qed

lemma reading_step:
  assumes "reading s" and "pw_step L s s'"
  shows "reading s'"
  using assms(2)
proof cases
  case (reply xs c ys r x)
  from reply(1) assms(1) have "reading (s\<lparr>nm_calls := xs @ ys\<rparr>)" "reading_cont (dc_cont c)" by (simp_all add: reading_def reading_call_def)
  with keepsD [OF reading_resume _ reply(2)] show ?thesis by blast
qed

text \<open>C16: The GET requests of the power pages are safe: whatever the replies are and in whatever order they
  come, the page of a chassis and the page of a node only ever issue calls of reading methods.\<close>

theorem power_pages_only_read:
  assumes "pw_reach L rq s" and "rq \<in> {GET_power chassisId, GET_powerControl chassisId name}" and "c \<in> set (nm_calls s)"
  shows "dc_method c \<in> set reading_methods"
proof -
  have "reading s"
    using assms(1) by (induction rule: pw_reach.induct) (use assms(2) in \<open>auto intro: reading_start reading_step\<close>)
  with assms(3) show ?thesis by (auto simp: reading_def reading_call_def list_all_iff)
qed

theorem power_pages_only_read_witness:
  "\<exists>s c. pw_reach demo_redfish (GET_power ''chassis'') s \<and> c \<in> set (nm_calls s) \<and> dc_method c \<in> set reading_methods"
proof -
  obtain x and s :: "json pw_state" where run: "run_power (GET_power ''chassis'') pw_init = (x, s)" by fastforce
  then have "nm_calls s \<noteq> []"
    by (auto simp: run_power_def power_get_def getValidChassisPath_def getChassisPaths_def thenE_apply call_apply upd_json_def
        json_put_def json_upd.simps pw_init_def response_new_def)
  then obtain c where c: "c \<in> set (nm_calls s)" by (cases "nm_calls s") auto
  have "GET_power ''chassis'' \<in> {GET_power ''chassis'', GET_powerControl ''chassis'' ''0''}" by simp
  from power_pages_only_read [OF pw_reach.start [OF run] this c] c pw_reach.start [OF run] show ?thesis by blast
qed



end
