(* ===== verification/Nm_Service.thy ===== *)
theory Nm_Service
  imports Nm_Policies
begin

text \<open>
  \<open>node_manager.hpp\<close>, \<open>triggers.hpp\<close> and \<open>throttling_status.hpp\<close>: the page of the Node Manager service with
  its actions, the pages of the triggers and the log of throttling events.
\<close>

section \<open>State\<close>

datatype 'q sv_cont =
    SK_service
  | SK_getEnabled
  | SK_changeState
  | SK_diagnostics
  | SK_trigger
  | SK_gpioLines
  | SK_throttling 'q

type_synonym 'q sv_state = "('q sv_cont, unit) call_state"

definition sv_init :: "'q sv_state" where
  "sv_init = \<lparr>nm_res = response_new, nm_calls = [], nm_final = None\<rparr>"

definition redfishNodeManager :: string where
  "redfishNodeManager = ''/redfish/v1/Managers/bmc/Oem/Intel/NodeManager''"

definition odata_link :: "string \<Rightarrow> json" where
  "odata_link path = J_object [(''@odata.id'', J_string (redfishNodeManager @ path))]"

section \<open>The service\<close>

definition service_page :: json where
  "service_page = J_object [
     (''@odata.type'', J_string ''#NodeManager.v1_0_0.NodeManager''),
     (''@odata.id'', J_string redfishNodeManager),
     (''Id'', J_string ''NodeManager''),
     (''Name'', J_string ''Node Manager''),
     (''Actions'', J_object [
        (''#NodeManager.ChangeState'', J_object [
           (''State@Redfish.AllowableValues'', J_array [J_string ''Enabled'', J_string ''Disabled'']),
           (''target'', J_string (redfishNodeManager @ ''/Actions/NodeManager.ChangeState''))]),
        (''#NodeManager.GetDiagnosticInfo'', J_object [
           (''target'', J_string (redfishNodeManager @ ''/Actions/NodeManager.GetDiagnosticInfo''))])]),
     (''Domains'', odata_link ''/Domains''),
     (''Policies'', odata_link ''/Policies''),
     (''Triggers'', odata_link ''/Triggers''),
     (''ThrottlingStatus'', odata_link ''/ThrottlingStatus'')]"

definition service_get :: "('q sv_state, unit) exm" where
  "service_get = seqE [
     call ''xyz.openbmc_project.NodeManager'' ''/xyz/openbmc_project/NodeManager'' dbusProperties ''GetAll''
       [A_string ''xyz.openbmc_project.NodeManager.NodeManager''] SK_service,
     call kNodeManagerService ''/xyz/openbmc_project/NodeManager'' dbusProperties ''GetAll'' [A_string objectEnable]
       SK_getEnabled,
     put [] service_page]"

text \<open>The loop over the properties leaves, for each name, what the last property of that name holds.\<close>

definition last_property :: "(variant \<Rightarrow> 'a option) \<Rightarrow> string \<Rightarrow> dbus_props \<Rightarrow> 'a option" where
  "last_property get_if name props = foldl (\<lambda>x (key, value). if name = key then get_if value else x) None props"

definition onService :: "'q redfish_lib \<Rightarrow> int + dbus_props \<Rightarrow> ('q sv_state, unit) exm" where
  "onService L reply = (case reply of
     Inl ec \<Rightarrow> ret ()
   | Inr response \<Rightarrow>
      (case (last_property v_i32 ''Health'' response, last_property v_u8 ''MaxNumberOfPolicies'' response,
             last_property v_string ''Version'' response) of
         (Some health, Some maxNumberOfPolicies, Some version) \<Rightarrow> seqE [
           put [''Status'', ''Health''] (J_string (if health = 0 then ''OK'' else ''Warning'')),
           put [''MaxNumberOfPolicies''] (J_int (uint maxNumberOfPolicies)),
           put [''NmVersion''] (J_string version)]
       | _ \<Rightarrow> send L M_internalError))"

definition service_changeState :: "'q redfish_lib \<Rightarrow> 'q \<Rightarrow> ('q sv_state, unit) exm" where
  "service_changeState L req =
     bindE (with_res (readJsonAction L req [(''State'', T_string, True)])) (\<lambda>vo. case vo of
       None \<Rightarrow> send L (M_actionParameterMissing ''NodeManager.ChangeState'' ''State'')
     | Some vals \<Rightarrow> bindE (need (as_string (vals ''State''))) (\<lambda>state.
         if state = ''Enabled'' \<or> state = ''Disabled''
         then call kNodeManagerService ''/xyz/openbmc_project/NodeManager'' dbusProperties ''Set''
           [A_string ''xyz.openbmc_project.Object.Enable'', A_string ''Enabled'', A_variant (DV_bool (state = ''Enabled''))]
           SK_changeState
         else send L (M_actionParameterValueFormatError state ''State'' ''NodeManager.ChangeState'')))"

definition onServiceChangeState :: "'q redfish_lib \<Rightarrow> int + unit \<Rightarrow> ('q sv_state, unit) exm" where
  "onServiceChangeState L reply = (case reply of Inl ec \<Rightarrow> send L M_internalError | Inr _ \<Rightarrow> ret ())"

definition diagnosticsPath :: string where
  "diagnosticsPath = ''/xyz/openbmc_project/NodeManager/Diagnostics''"

definition service_diagnostics :: "('q sv_state, unit) exm" where
  "service_diagnostics = call kNodeManagerService diagnosticsPath ''xyz.openbmc_project.NodeManager.Status''
     ''DumpToJson'' [] SK_diagnostics"

definition write_body :: "string \<Rightarrow> ('q sv_state, unit) exm" where
  "write_body str = modify (\<lambda>s. s\<lparr>nm_res := (nm_res s)\<lparr>r_body := r_body (nm_res s) @ str\<rparr>\<rparr>)"

definition onDiagnostics :: "'q redfish_lib \<Rightarrow> int + string \<Rightarrow> ('q sv_state, unit) exm" where
  "onDiagnostics L reply = (case reply of
     Inl ec \<Rightarrow> send L M_internalError
   | Inr diagnostics \<Rightarrow> bindE (lift_sum (json_parse L diagnostics)) (\<lambda>diagsJson.
       thenE (set_result http_ok) (write_body (json_dump_indent L diagsJson 4))))"

section \<open>Triggers\<close>

definition getTriggerData :: "string \<Rightarrow> ('q sv_state, unit) exm" where
  "getTriggerData dbusPath = call kNodeManagerService dbusPath dbusProperties ''GetAll''
     [A_string ''xyz.openbmc_project.NodeManager.Trigger''] SK_trigger"

definition put_some :: "string \<Rightarrow> json option \<Rightarrow> ('q sv_state, unit) exm" where
  "put_some key x = (case x of Some v \<Rightarrow> put [key] v | None \<Rightarrow> ret ())"

definition onTrigger :: "'q redfish_lib \<Rightarrow> int + dbus_props \<Rightarrow> ('q sv_state, unit) exm" where
  "onTrigger L reply = (case reply of
     Inl ec \<Rightarrow> send L M_internalError
   | Inr params \<Rightarrow> seqE [
       put_some ''Max'' (map_option (\<lambda>x. J_int (uint x)) (last_property v_u16 ''Max'' params)),
       put_some ''Min'' (map_option (\<lambda>x. J_int (uint x)) (last_property v_u16 ''Min'' params)),
       put_some ''Unit'' (map_option J_string (last_property v_string ''Unit'' params))])"

definition getGpioLines :: "string \<Rightarrow> ('q sv_state, unit) exm" where
  "getGpioLines dbusPath = call kObjectMapperService kObjectMapperObjectPath kObjectMapperService ''GetSubTreePaths''
     [A_string ''/xyz/openbmc_project/NodeManager/Trigger/GPIO'', A_int 0,
      A_strings [''xyz.openbmc_project.NodeManager.Trigger.GPIO'']] SK_gpioLines"

definition onGpioLines :: "'q redfish_lib \<Rightarrow> int + string list \<Rightarrow> ('q sv_state, unit) exm" where
  "onGpioLines L reply = (case reply of
     Inl ec \<Rightarrow> send L M_internalError
   | Inr objects \<Rightarrow> put [''TriggerValues'']
       (J_array (map J_string (filter (\<lambda>lineName. lineName \<noteq> []) (map (path_filename L) objects)))))"

definition trigger_get :: "string \<Rightarrow> ('q sv_state, unit) exm" where
  "trigger_get triggerName =
     (let triggerDbusPath = ''/xyz/openbmc_project/NodeManager/Trigger/'' @ triggerName in seqE [
       getTriggerData triggerDbusPath,
       (if triggerName = ''GPIO'' then getGpioLines triggerDbusPath else ret ()),
       put [] (J_object [
         (''@odata.type'', J_string ''#NmTrigger.v1_0_0.NmTrigger''),
         (''@odata.id'', J_string (redfishNodeManager @ ''/Triggers/'' @ triggerName)),
         (''Id'', J_string triggerName),
         (''Name'', J_string triggerName)])])"

text \<open>The members of the collection are added by \<open>getCollectionMembers\<close> of \<open>bmcweb\<close>, a parameter.\<close>

definition triggers_get ::
    "(string \<Rightarrow> string list \<Rightarrow> string \<Rightarrow> ('q sv_state, unit) exm) \<Rightarrow> ('q sv_state, unit) exm" where
  "triggers_get getCollectionMembers =
     (let url = redfishNodeManager @ ''/Triggers'' in
      thenE (put [] (J_object [
          (''@odata.type'', J_string ''#NmTriggerCollection.NmTriggerCollection''),
          (''@odata.id'', J_string url),
          (''Name'', J_string ''NM Triggers Collection'')]))
        (getCollectionMembers url [''xyz.openbmc_project.NodeManager.Trigger''] ''/xyz/openbmc_project/NodeManager''))"

section \<open>The throttling log\<close>

text \<open>
  A log entry is rewritten in place, so the operations on one entry are computations over the entry.  The result
  \<open>False\<close> stands for the early return with an empty page.
\<close>

definition e_upd :: "(json \<Rightarrow> exn + json) \<Rightarrow> (json, unit) exm" where
  "e_upd f = (\<lambda>j. case f j of Inl e \<Rightarrow> (Inl e, j) | Inr j' \<Rightarrow> (Inr (), j'))"

definition e_put :: "string \<Rightarrow> json \<Rightarrow> (json, unit) exm" where
  "e_put k v = e_upd (json_put [k] v)"

text \<open>\<open>operator[]\<close> on an entry adds a missing member as null.\<close>

definition e_index :: "string \<Rightarrow> (json, json) exm" where
  "e_index k = thenE (e_upd (json_upd [k] Inr)) (bindE (gets (json_index k)) lift_sum)"

text \<open>The implicit conversion to an integer type; \<open>std::chrono::milliseconds\<close> counts in 64 bits.\<close>

definition json_number :: "'q redfish_lib \<Rightarrow> json \<Rightarrow> exn + int" where
  "json_number L j = (case j of
     J_int i \<Rightarrow> Inr i
   | J_bool b \<Rightarrow> Inr (if b then 1 else 0)
   | J_double d \<Rightarrow> Inr (double_to_i64 L d)
   | _ \<Rightarrow> Inl (Json_Error ''type_error.302''))"

definition milliseconds :: "'q redfish_lib \<Rightarrow> json \<Rightarrow> exn + int" where
  "milliseconds L j = sum_bind (json_number L j) (\<lambda>i. Inr (sint (word_of_int i :: 64 word)))"

definition difference :: "int \<Rightarrow> int \<Rightarrow> exn + int" where
  "difference a b = (if - (2 ^ 63) \<le> a - b \<and> a - b < 2 ^ 63 then Inr (a - b)
     else Inl (Undefined_Behaviour ''signed overflow''))"

definition has_snapshot :: "json \<Rightarrow> bool" where
  "has_snapshot entry \<longleftrightarrow> (case member ''Policy'' entry of
     None \<Rightarrow> False
   | Some policy \<Rightarrow> json_contains ''policyParams'' policy \<and> json_contains ''domainId'' policy \<and>
       (case member ''policyParams'' policy of Some params \<Rightarrow> json_contains ''triggerType'' params | None \<Rightarrow> False))"

definition no_reason :: "json \<Rightarrow> bool" where
  "no_reason reason \<longleftrightarrow> json_empty reason \<or> reason = J_string []"

definition entry_source :: "'q redfish_lib \<Rightarrow> (json, bool) exm" where
  "entry_source L = bindE (e_index ''Reason'') (\<lambda>reason.
     if no_reason reason
     then bindE (gets has_snapshot) (\<lambda>ok.
       if \<not> ok then ret False
       else bindE (e_index ''Policy'') (\<lambda>policy.
         bindE (lift_sum (json_index ''policyParams'' policy)) (\<lambda>params.
         bindE (lift_sum (json_index ''triggerType'' params)) (\<lambda>triggerType.
         bindE (lift_sum (json_index ''domainId'' policy)) (\<lambda>domainId.
           thenE (e_put ''Reason'' triggerType)
             (thenE (e_put ''Source'' domainId)
               (thenE (e_put ''Policy'' (J_string (json_dump L policy))) (ret True))))))))
     else thenE (e_put ''Source'' (J_string ''SmaRTCLST'')) (ret True))"

definition entry_duration :: "'q redfish_lib \<Rightarrow> int \<Rightarrow> (json, unit) exm" where
  "entry_duration L now = bindE (gets (json_contains ''Stop'')) (\<lambda>stopped.
     bindE (if stopped then bindE (e_index ''Stop'') (\<lambda>j. lift_sum (milliseconds L j)) else ret now) (\<lambda>stop.
     bindE (e_index ''Start'') (\<lambda>j.
     bindE (lift_sum (milliseconds L j)) (\<lambda>start.
     bindE (lift_sum (difference stop start)) (\<lambda>duration.
       thenE (e_put ''Duration'' (J_string (toDurationString L duration)))
         (thenE (e_put ''InProgress'' (J_bool (\<not> stopped)))
           (if stopped then modify (json_erase ''Stop'') else ret ())))))))"

definition throttling_entry :: "'q redfish_lib \<Rightarrow> int \<Rightarrow> (json, bool) exm" where
  "throttling_entry L now = bindE (gets (json_contains ''Start'')) (\<lambda>has_start.
     if \<not> has_start then ret False
     else bindE (e_index ''Start'') (\<lambda>start.
       bindE (lift_sum (json_number L start)) (\<lambda>ms.
         thenE (e_put ''StartTimestamp'' (J_string (getDateTimeUintMs L (word_of_int ms))))
           (bindE (entry_source L) (\<lambda>ok.
             if \<not> ok then ret False
             else thenE (entry_duration L now) (thenE (modify (json_erase ''Start'')) (ret True)))))))"

fun throttling_log :: "'q redfish_lib \<Rightarrow> int \<Rightarrow> json list \<Rightarrow> (exn + bool) \<times> json list" where
  "throttling_log L now [] = (Inr True, [])"
| "throttling_log L now (entry # log) = (case throttling_entry L now entry of
     (Inr True, entry') \<Rightarrow> (case throttling_log L now log of (r, log') \<Rightarrow> (r, entry' # log'))
   | (r, entry') \<Rightarrow> (r, entry' # log))"

text \<open>Iterating over a JSON value: the elements of an array, the values of an object, nothing for null, and any
  other value is its own only element.\<close>

definition elements :: "json \<Rightarrow> json list" where
  "elements j = (case j of J_array vs \<Rightarrow> vs | J_object m \<Rightarrow> map snd m | J_null \<Rightarrow> [] | _ \<Rightarrow> [j])"

definition with_elements :: "json \<Rightarrow> json list \<Rightarrow> json" where
  "with_elements j vs = (case j of
     J_array ws \<Rightarrow> J_array vs | J_object m \<Rightarrow> J_object (zip (map fst m) vs) | J_null \<Rightarrow> J_null | _ \<Rightarrow> hd vs)"

definition throttling_page :: json where
  "throttling_page = J_object [
     (''@odata.type'', J_string ''#NmThrottlingStatus.v1_1_1.NmThrottlingStatus''),
     (''@odata.id'', J_string (redfishNodeManager @ ''/ThrottlingStatus'')),
     (''Id'', J_string ''ThrottlingStatus''),
     (''Name'', J_string ''NM Throttling Status'')]"

definition corrupted :: "'q redfish_lib \<Rightarrow> ('q sv_state, unit) exm" where
  "corrupted L = thenE (put [] J_null) (send L M_internalError)"

definition onThrottling :: "'q redfish_lib \<Rightarrow> 'q \<Rightarrow> int \<Rightarrow> int + string \<Rightarrow> ('q sv_state, unit) exm" where
  "onThrottling L req now reply = (case reply of
     Inl ec \<Rightarrow> dbusErrorToBmcwebMessage L req ec None
   | Inr throttlingEvents \<Rightarrow> bindE (lift_sum (json_parse L throttlingEvents)) (\<lambda>dataFromDbus.
       thenE (put [] throttling_page)
         (case member ''ThrottlingEvents'' dataFromDbus of
            None \<Rightarrow> corrupted L
          | Some events \<Rightarrow>
             (case throttling_log L now (elements events) of (r, log) \<Rightarrow>
               thenE (put [''Events''] (with_elements events log))
                 (bindE (lift_sum r) (\<lambda>ok. if ok then ret () else corrupted L))))))"

definition throttling_get :: "'q \<Rightarrow> ('q sv_state, unit) exm" where
  "throttling_get req = call kNodeManagerService diagnosticsPath ''xyz.openbmc_project.NodeManager.Status''
     ''GetThrottlingLog'' [] (SK_throttling req)"

section \<open>Requests and replies\<close>

datatype 'q sv_request =
    GET_service
  | POST_service_changeState 'q
  | POST_diagnostics
  | GET_trigger string
  | GET_throttling 'q

definition run_service :: "'q redfish_lib \<Rightarrow> 'q sv_request \<Rightarrow> ('q sv_state, unit) exm" where
  "run_service L rq = (case rq of
     GET_service \<Rightarrow> service_get
   | POST_service_changeState req \<Rightarrow> service_changeState L req
   | POST_diagnostics \<Rightarrow> service_diagnostics
   | GET_trigger triggerName \<Rightarrow> trigger_get triggerName
   | GET_throttling req \<Rightarrow> throttling_get req)"

definition sv_resume :: "'q redfish_lib \<Rightarrow> int \<Rightarrow> 'q sv_cont \<Rightarrow> dbus_reply \<Rightarrow> ('q sv_state, unit) exm" where
  "sv_resume L now k r = (case k of
     SK_service \<Rightarrow> onService L (reply_props r)
   | SK_getEnabled \<Rightarrow> onGetEnabled L (reply_props r)
   | SK_changeState \<Rightarrow> onServiceChangeState L (reply_void r)
   | SK_diagnostics \<Rightarrow> onDiagnostics L (reply_path r)
   | SK_trigger \<Rightarrow> onTrigger L (reply_props r)
   | SK_gpioLines \<Rightarrow> onGpioLines L (reply_paths r)
   | SK_throttling req \<Rightarrow> onThrottling L req now (reply_path r))"

section \<open>Laws of the operations on an entry\<close>

declare json_upd.simps(2) [simp del]

lemma e_put_object [simp]: "e_put k v (J_object m) = (Inr (), J_object (obj_set k v m))"
  by (simp add: e_put_def e_upd_def json_put_def json_upd.simps)

lemma e_index_object [simp]: "e_index k (J_object m) =
    (Inr (case map_of m k of Some v \<Rightarrow> v | None \<Rightarrow> J_null),
     J_object (obj_set k (case map_of m k of Some v \<Rightarrow> v | None \<Rightarrow> J_null) m))"
  by (simp add: e_index_def thenE_apply bindE_apply e_upd_def json_upd.simps json_index_def)

lemma object_simps [simp]:
  "json_contains k (J_object m) \<longleftrightarrow> map_of m k \<noteq> None" "member k (J_object m) = map_of m k"
  "json_index k (J_object m) = Inr (case map_of m k of Some v \<Rightarrow> v | None \<Rightarrow> J_null)"
  by (simp_all add: json_contains_def member_def json_index_def)

lemma member_erase [simp]: "member k' (json_erase k j) = (if k' = k then None else member k' j)"
proof -
  have "map_of (filter (\<lambda>e. fst e \<noteq> k) m) k' = (if k' = k then None else map_of m k')" for m :: "(string \<times> json) list"
    by (induction m) auto
  then show ?thesis by (cases j) (auto simp: json_erase_def member_def)
qed

lemma contains_member: "json_contains k j \<longleftrightarrow> member k j \<noteq> None"
  by (cases j) (simp_all add: json_contains_def member_def)

section \<open>What the page of the throttling log promises\<close>

text \<open>A well-formed event: its times are 63-bit integers, and it has a reason or the snapshot of a policy.\<close>

definition event_time :: "string \<Rightarrow> json \<Rightarrow> int option" where
  "event_time k e = (case member k e of Some (J_int i) \<Rightarrow> (if 0 \<le> i \<and> i < 2 ^ 63 then Some i else None) | _ \<Rightarrow> None)"

definition given_reason :: "json \<Rightarrow> bool" where
  "given_reason e \<longleftrightarrow> (case member ''Reason'' e of Some r \<Rightarrow> \<not> no_reason r | None \<Rightarrow> False)"

definition event_ok :: "json \<Rightarrow> bool" where
  "event_ok e \<longleftrightarrow> event_time ''Start'' e \<noteq> None \<and> (member ''Stop'' e = None \<or> event_time ''Stop'' e \<noteq> None) \<and>
     (given_reason e \<or> has_snapshot e)"

text \<open>An entry the handler gives up on.\<close>

definition event_corrupted :: "json \<Rightarrow> bool" where
  "event_corrupted e \<longleftrightarrow> member ''Start'' e = None \<or>
     event_time ''Start'' e \<noteq> None \<and> \<not> given_reason e \<and> \<not> has_snapshot e"

text \<open>The member at the end of a path below an entry.\<close>

definition policy_member :: "string \<Rightarrow> json \<Rightarrow> json option" where
  "policy_member k e = (case member ''Policy'' e of Some policy \<Rightarrow> member k policy | None \<Rightarrow> None)"

definition policy_trigger :: "json \<Rightarrow> json option" where
  "policy_trigger e = (case policy_member ''policyParams'' e of Some params \<Rightarrow> member ''triggerType'' params | None \<Rightarrow> None)"

definition event_shown :: "'q redfish_lib \<Rightarrow> int \<Rightarrow> json \<Rightarrow> json \<Rightarrow> bool" where
  "event_shown L now e e' \<longleftrightarrow>
     member ''Start'' e' = None \<and> member ''Stop'' e' = None \<and>
     member ''StartTimestamp'' e' = map_option (\<lambda>t. J_string (getDateTimeUintMs L (word_of_int t))) (event_time ''Start'' e) \<and>
     member ''InProgress'' e' = Some (J_bool (member ''Stop'' e = None)) \<and>
     member ''Duration'' e' = map_option (\<lambda>t. J_string (toDurationString L
        ((case event_time ''Stop'' e of Some stop \<Rightarrow> stop | None \<Rightarrow> now) - t))) (event_time ''Start'' e) \<and>
     (if given_reason e
      then member ''Reason'' e' = member ''Reason'' e \<and> member ''Source'' e' = Some (J_string ''SmaRTCLST'') \<and>
        member ''Policy'' e' = member ''Policy'' e
      else member ''Reason'' e' = policy_trigger e \<and> member ''Source'' e' = policy_member ''domainId'' e \<and>
        member ''Policy'' e' = map_option (\<lambda>p. J_string (json_dump L p)) (member ''Policy'' e)) \<and>
     (\<forall>k. k \<notin> {''Start'', ''Stop'', ''StartTimestamp'', ''InProgress'', ''Duration'', ''Reason'', ''Source'', ''Policy''} \<longrightarrow>
        member k e' = member k e)"

lemma event_time_SomeD: "event_time k e = Some i \<Longrightarrow> member k e = Some (J_int i) \<and> 0 \<le> i \<and> i < 2 ^ 63"
  by (auto simp: event_time_def split: option.splits json.splits if_splits)

lemma milliseconds_int: "0 \<le> i \<Longrightarrow> i < 2 ^ 63 \<Longrightarrow> milliseconds L (J_int i) = Inr i"
  by (simp add: milliseconds_def json_number_def sint_uint signed_take_bit_int_eq_self unsigned_of_int take_bit_int_eq_self)

lemma source_given:
  assumes "map_of m ''Reason'' = Some r" and "\<not> no_reason r"
  shows "\<exists>m'. entry_source L (J_object m) = (Inr True, J_object m') \<and>
    map_of m' = (map_of m)(''Source'' \<mapsto> J_string ''SmaRTCLST'')"
  using assms by (simp add: entry_source_def bindE_apply thenE_apply fun_eq_iff)

lemma has_snapshotE:
  assumes "has_snapshot e"
  obtains pm ps trig dom_id where "member ''Policy'' e = Some (J_object pm)" "map_of pm ''policyParams'' = Some (J_object ps)"
    "map_of ps ''triggerType'' = Some trig" "map_of pm ''domainId'' = Some dom_id"
  using assms by (auto simp: has_snapshot_def json_contains_def member_def split: option.splits json.splits)

lemma source_snapshot:
  assumes "case map_of m ''Reason'' of Some r \<Rightarrow> no_reason r | None \<Rightarrow> True" and "has_snapshot (J_object m)"
  shows "\<exists>m' trig dom_id policy. policy_trigger (J_object m) = Some trig \<and> policy_member ''domainId'' (J_object m) = Some dom_id \<and>
    map_of m ''Policy'' = Some policy \<and> entry_source L (J_object m) = (Inr True, J_object m') \<and>
    map_of m' = (map_of m)(''Reason'' \<mapsto> trig, ''Source'' \<mapsto> dom_id, ''Policy'' \<mapsto> J_string (json_dump L policy))"
proof -
  obtain pm ps trig dom_id where p: "map_of m ''Policy'' = Some (J_object pm)" "map_of pm ''policyParams'' = Some (J_object ps)"
    "map_of ps ''triggerType'' = Some trig" "map_of pm ''domainId'' = Some dom_id"
    using assms(2) by (auto elim: has_snapshotE)
  have r: "no_reason (case map_of m ''Reason'' of Some v \<Rightarrow> v | None \<Rightarrow> J_null)"
    using assms(1) by (auto simp: no_reason_def json_empty_def split: option.splits)
  have h: "has_snapshot (J_object (obj_set ''Reason'' v m))" for v
    using assms(2) by (simp add: has_snapshot_def)
  from p r h show ?thesis
    by (simp add: entry_source_def bindE_apply thenE_apply policy_trigger_def policy_member_def fun_eq_iff)
qed

lemma source_corrupted:
  assumes "case map_of m ''Reason'' of Some r \<Rightarrow> no_reason r | None \<Rightarrow> True" and "\<not> has_snapshot (J_object m)"
  shows "\<exists>e'. entry_source L (J_object m) = (Inr False, e')"
proof -
  have r: "no_reason (case map_of m ''Reason'' of Some v \<Rightarrow> v | None \<Rightarrow> J_null)"
    using assms(1) by (auto simp: no_reason_def json_empty_def split: option.splits)
  have h: "\<not> has_snapshot (J_object (obj_set ''Reason'' v m))" for v
    using assms(2) by (simp add: has_snapshot_def)
  from r h show ?thesis by (simp add: entry_source_def bindE_apply)
qed

text \<open>The duration of an entry whose times are in range.\<close>

lemma duration_run:
  assumes "map_of m ''Start'' = Some (J_int t)" and "0 \<le> t" and "t < 2 ^ 63" and "0 \<le> now" and "now < 2 ^ 63"
    and "case map_of m ''Stop'' of None \<Rightarrow> stop = now | Some j \<Rightarrow> j = J_int stop \<and> 0 \<le> stop \<and> stop < 2 ^ 63"
  shows "\<exists>e'. entry_duration L now (J_object m) = (Inr (), e') \<and> (\<forall>k. member k e' =
    (if k = ''Stop'' then None else if k = ''Duration'' then Some (J_string (toDurationString L (stop - t)))
     else if k = ''InProgress'' then Some (J_bool (map_of m ''Stop'' = None)) else map_of m k))"
proof -
  have t: "milliseconds L (J_int t) = Inr t" using assms(2,3) by (rule milliseconds_int)
  show ?thesis
  proof (cases "map_of m ''Stop''")
    case None
    with assms have "difference stop t = Inr (stop - t)" by (simp add: difference_def)
    with None assms(1,6) t show ?thesis
      by (simp add: entry_duration_def bindE_apply thenE_apply)
  next
    case (Some j)
    with assms have s: "j = J_int stop" "milliseconds L (J_int stop) = Inr stop" "difference stop t = Inr (stop - t)"
      by (simp_all add: difference_def milliseconds_int)
    with Some assms(1) t show ?thesis
      by (simp add: entry_duration_def bindE_apply thenE_apply)
  qed
qed

lemma event_object: "member k e = Some v \<Longrightarrow> \<exists>m. e = J_object m"
  by (cases e) (simp_all add: member_def)

lemma entry_run:
  assumes "event_ok e" and "0 \<le> now" and "now < 2 ^ 63"
  shows "\<exists>e'. throttling_entry L now e = (Inr True, e') \<and> event_shown L now e e'"
proof -
  obtain t where t: "event_time ''Start'' e = Some t" using assms(1) by (auto simp: event_ok_def)
  then have ti: "member ''Start'' e = Some (J_int t)" "0 \<le> t" "t < 2 ^ 63" by (auto dest: event_time_SomeD)
  then obtain m where e: "e = J_object m" using event_object by blast
  define ts where "ts = J_string (getDateTimeUintMs L (word_of_int t))"
  define m1 where "m1 = obj_set ''StartTimestamp'' ts (obj_set ''Start'' (J_int t) m)"
  have m1: "map_of m1 = (map_of m)(''StartTimestamp'' \<mapsto> ts)" using ti(1) by (auto simp: m1_def e)
  define stop where "stop = (case event_time ''Stop'' e of Some stop \<Rightarrow> stop | None \<Rightarrow> now)"
  have stop: "case map_of m ''Stop'' of None \<Rightarrow> stop = now | Some j \<Rightarrow> j = J_int stop \<and> 0 \<le> stop \<and> stop < 2 ^ 63"
    using assms(1) by (auto simp: event_ok_def stop_def e event_time_def split: option.splits json.splits if_splits)
  obtain m2 where src: "entry_source L (J_object m1) = (Inr True, J_object m2)" and
    same: "\<forall>k. k \<notin> {''Reason'', ''Source'', ''Policy''} \<longrightarrow> map_of m2 k = map_of m1 k" and
    given: "given_reason e \<Longrightarrow> map_of m2 = (map_of m1)(''Source'' \<mapsto> J_string ''SmaRTCLST'')" and
    snap: "\<not> given_reason e \<Longrightarrow> map_of m2 ''Reason'' = policy_trigger e \<and> map_of m2 ''Source'' = policy_member ''domainId'' e \<and>
        map_of m2 ''Policy'' = map_option (\<lambda>p. J_string (json_dump L p)) (map_of m ''Policy'')"
  proof (cases "given_reason e")
    case True
    then obtain r where "map_of m1 ''Reason'' = Some r" "\<not> no_reason r"
      by (auto simp: given_reason_def e m1 split: option.splits)
    from source_given [OF this] that True show ?thesis by fastforce
  next
    case False
    have "case map_of m1 ''Reason'' of Some r \<Rightarrow> no_reason r | None \<Rightarrow> True" "has_snapshot (J_object m1)"
      using False assms(1) by (auto simp: given_reason_def event_ok_def has_snapshot_def e m1 split: option.splits)
    from source_snapshot [OF this, of L] obtain m' trig dom_id policy where "policy_trigger (J_object m1) = Some trig"
      "policy_member ''domainId'' (J_object m1) = Some dom_id" "map_of m1 ''Policy'' = Some policy"
      "entry_source L (J_object m1) = (Inr True, J_object m')"
      "map_of m' = (map_of m1)(''Reason'' \<mapsto> trig, ''Source'' \<mapsto> dom_id, ''Policy'' \<mapsto> J_string (json_dump L policy))"
      by blast
    with False that [of m'] show ?thesis
      by (simp add: policy_trigger_def policy_member_def e m1)
  qed
  have m2: "map_of m2 ''Start'' = Some (J_int t)" "map_of m2 ''Stop'' = map_of m ''Stop''"
    using same ti(1) by (simp_all add: m1 e)
  have "case map_of m2 ''Stop'' of None \<Rightarrow> stop = now | Some j \<Rightarrow> j = J_int stop \<and> 0 \<le> stop \<and> stop < 2 ^ 63"
    using stop by (simp add: m2(2))
  from duration_run [OF m2(1) ti(2,3) assms(2,3) this, of L] obtain e2 where
    d: "entry_duration L now (J_object m2) = (Inr (), e2)" "\<forall>k. member k e2 =
    (if k = ''Stop'' then None else if k = ''Duration'' then Some (J_string (toDurationString L (stop - t)))
     else if k = ''InProgress'' then Some (J_bool (map_of m2 ''Stop'' = None)) else map_of m2 k)" by blast
  have run: "throttling_entry L now e = (Inr True, json_erase ''Start'' e2)"
    using ti(1) src d(1) by (simp add: throttling_entry_def bindE_apply thenE_apply e json_number_def ts_def m1_def)
  have "event_shown L now e (json_erase ''Start'' e2)"
    using given snap same t
    by (cases "given_reason e") (simp_all add: event_shown_def d(2) m2(2) m1 ts_def stop_def e)
  with run show ?thesis by blast
qed

lemma entry_corrupted_run:
  assumes "event_corrupted e"
  shows "\<exists>e'. throttling_entry L now e = (Inr False, e')"
proof (cases "member ''Start'' e")
  case None
  then show ?thesis by (simp add: throttling_entry_def bindE_apply contains_member)
next
  case (Some j)
  with assms obtain t where t: "event_time ''Start'' e = Some t" and g: "\<not> given_reason e" "\<not> has_snapshot e"
    by (auto simp: event_corrupted_def)
  then have ti: "member ''Start'' e = Some (J_int t)" by (auto dest: event_time_SomeD)
  then obtain m where e: "e = J_object m" using event_object by blast
  define m1 where "m1 = obj_set ''StartTimestamp'' (J_string (getDateTimeUintMs L (word_of_int t))) (obj_set ''Start'' (J_int t) m)"
  have "case map_of m1 ''Reason'' of Some r \<Rightarrow> no_reason r | None \<Rightarrow> True" "\<not> has_snapshot (J_object m1)"
    using g by (auto simp: given_reason_def has_snapshot_def e m1_def split: option.splits)
  from source_corrupted [OF this, of L] ti show ?thesis
    by (auto simp: throttling_entry_def bindE_apply thenE_apply e json_number_def m1_def)
qed

lemma log_run:
  assumes "list_all event_ok es" and "0 \<le> now" and "now < 2 ^ 63"
  shows "\<exists>es'. throttling_log L now es = (Inr True, es') \<and> list_all2 (event_shown L now) es es'"
  using assms(1)
proof (induction es)
  case (Cons e es)
  then obtain e' es' where "throttling_entry L now e = (Inr True, e')" "event_shown L now e e'"
    "throttling_log L now es = (Inr True, es')" "list_all2 (event_shown L now) es es'"
    using entry_run [of e now L] assms(2,3) by auto
  then show ?case by simp
qed simp

lemma log_corrupted:
  assumes "list_all event_ok xs" and "event_corrupted e" and "0 \<le> now" and "now < 2 ^ 63"
  shows "\<exists>es'. throttling_log L now (xs @ e # ys) = (Inr False, es')"
  using assms(1)
proof (induction xs)
  case Nil
  from entry_corrupted_run [OF assms(2), of L now] show ?case by auto
next
  case (Cons x xs)
  then obtain x' es' where "throttling_entry L now x = (Inr True, x')" "throttling_log L now (xs @ e # ys) = (Inr False, es')"
    using entry_run [of x now L] assms(3,4) by auto
  then show ?case by simp
qed

section \<open>Properties\<close>

text \<open>C23: The page of the throttling log shows every event of a well-formed log, in order: its start as a
  timestamp, its duration up to its end or up to now, whether it is still in progress, and its reason and
  source, which for an event without a reason are the trigger and the domain of its policy; the raw times are
  removed, every other member is kept, and no message is added.\<close>

theorem throttling_page_exact:
  assumes "json_parse L text = Inr (J_object m)" and "map_of m ''ThrottlingEvents'' = Some (J_array es)"
    and "list_all event_ok es" and "0 \<le> now" and "now < 2 ^ 63"
    and "onThrottling L req now (Inr text) s = (x, s')"
  shows "x = Inr () \<and> nm_calls s' = nm_calls s \<and> r_msgs (nm_res s') = r_msgs (nm_res s) \<and>
    r_result (nm_res s') = r_result (nm_res s) \<and>
    (\<exists>es'. member ''Events'' (r_json (nm_res s')) = Some (J_array es') \<and> list_all2 (event_shown L now) es es')"
proof -
  obtain es' where "throttling_log L now es = (Inr True, es')" "list_all2 (event_shown L now) es es'"
    using log_run [OF assms(3-5)] by blast
  with assms(1,2,6) show ?thesis
    by (auto simp: onThrottling_def bindE_apply thenE_apply put_apply json_put_def throttling_page_def json_upd.simps
        elements_def with_elements_def)
qed

definition demo_event :: json where
  "demo_event = J_object [(''Start'', J_int 1000), (''Stop'', J_int 3000),
     (''Policy'', J_object [(''domainId'', J_string ''PCIe''), (''policyParams'', J_object [(''triggerType'', J_string ''AlwaysOn'')])])]"

definition demo_log_redfish :: "json \<Rightarrow> json redfish_lib" where
  "demo_log_redfish j = demo_redfish\<lparr>json_parse := (\<lambda>s. if s = ''log'' then Inr j else Inl (Json_Error ''parse_error.101''))\<rparr>"

theorem throttling_page_exact_witness:
  "\<exists>s' es'. onThrottling (demo_log_redfish (J_object [(''ThrottlingEvents'', J_array [demo_event])])) J_null 5000 (Inr ''log'') sv_init =
     (Inr (), s') \<and> member ''Events'' (r_json (nm_res s')) = Some (J_array es') \<and>
     map (member ''Reason'') es' = [Some (J_string ''AlwaysOn'')] \<and> map (member ''Duration'') es' = [Some (J_string ''2000'')]"
proof -
  define j where "j = J_object [(''ThrottlingEvents'', J_array [demo_event])]"
  obtain x and s' :: "json sv_state" where run: "onThrottling (demo_log_redfish j) J_null 5000 (Inr ''log'') sv_init = (x, s')"
    by fastforce
  have "json_parse (demo_log_redfish j) ''log'' = Inr (J_object [(''ThrottlingEvents'', J_array [demo_event])])"
    by (simp add: demo_log_redfish_def j_def)
  moreover have ok: "list_all event_ok [demo_event]"
    by (simp add: event_ok_def event_time_def demo_event_def has_snapshot_def)
  ultimately obtain e' where x: "x = Inr ()" and e': "member ''Events'' (r_json (nm_res s')) = Some (J_array [e'])"
    "event_shown (demo_log_redfish j) 5000 demo_event e'"
    using throttling_page_exact [OF _ _ ok _ _ run] by (auto simp: list_all2_Cons1)
  have "to_string 2000 = ''2000''" by code_simp
  with e'(2) have "member ''Reason'' e' = Some (J_string ''AlwaysOn'')" "member ''Duration'' e' = Some (J_string ''2000'')"
    by (simp_all add: event_shown_def given_reason_def demo_event_def policy_trigger_def policy_member_def event_time_def
        demo_log_redfish_def demo_redfish_def)
  with run x e'(1) show ?thesis by (auto simp: j_def)
qed

text \<open>C24: A damaged log never shows up half: when the list of events is missing, or an event lacks its start, or
  has neither a reason nor the snapshot of a policy, the page is emptied and exactly one internal error is
  reported, whatever was shown before; but a text that is no JSON at all makes the handler throw.\<close>

theorem throttling_errors:
  assumes "0 \<le> now" and "now < 2 ^ 63" and "onThrottling L req now (Inr text) s = (x, s')"
  shows "(\<forall>data. json_parse L text = Inr data \<and> (member ''ThrottlingEvents'' data = None \<or>
       (\<exists>xs e ys. member ''ThrottlingEvents'' data = Some (J_array (xs @ e # ys)) \<and> list_all event_ok xs \<and> event_corrupted e)) \<longrightarrow>
      x = Inr () \<and> r_json (nm_res s') = msg_json L M_internalError J_null \<and>
      r_msgs (nm_res s') = r_msgs (nm_res s) @ [M_internalError]) \<and>
    (\<forall>e. json_parse L text = Inl e \<longrightarrow> x = Inl e \<and> s' = s)"
proof (intro conjI allI impI)
  fix data
  assume a: "json_parse L text = Inr data \<and> (member ''ThrottlingEvents'' data = None \<or>
       (\<exists>xs e ys. member ''ThrottlingEvents'' data = Some (J_array (xs @ e # ys)) \<and> list_all event_ok xs \<and> event_corrupted e))"
  have "x = Inr () \<and> nm_res s' = add_message L M_internalError ((nm_res s)\<lparr>r_json := J_null\<rparr>)"
  proof (cases "member ''ThrottlingEvents'' data")
    case None
    with a assms(3) show ?thesis
      by (auto simp: onThrottling_def bindE_apply thenE_apply put_apply json_put_def json_upd.simps corrupted_def send_apply)
  next
    case (Some j)
    with a obtain xs e ys where "j = J_array (xs @ e # ys)" "list_all event_ok xs" "event_corrupted e" by auto
    with log_corrupted [OF this(2,3) assms(1,2), of L ys] Some a assms(3) show ?thesis
      by (auto simp: onThrottling_def bindE_apply thenE_apply put_apply json_put_def json_upd.simps corrupted_def send_apply
          throttling_page_def elements_def)
  qed
  then show "x = Inr ()" "r_json (nm_res s') = msg_json L M_internalError J_null"
    "r_msgs (nm_res s') = r_msgs (nm_res s) @ [M_internalError]"
    by (simp_all add: add_message_def)
next
  fix e assume "json_parse L text = Inl e"
  with assms(3) show "x = Inl e" "s' = s" by (simp_all add: onThrottling_def bindE_apply)
qed

theorem throttling_errors_witness:
  "\<exists>s'. onThrottling (demo_log_redfish (J_object [(''ThrottlingEvents'', J_array [demo_event, J_object []])])) J_null 5000
     (Inr ''log'') sv_init = (Inr (), s') \<and> r_json (nm_res s') = J_null \<and> r_msgs (nm_res s') = [M_internalError]"
proof -
  define j where "j = J_object [(''ThrottlingEvents'', J_array ([demo_event] @ J_object [] # []))]"
  obtain x and s' :: "json sv_state" where run: "onThrottling (demo_log_redfish j) J_null 5000 (Inr ''log'') sv_init = (x, s')"
    by fastforce
  have "json_parse (demo_log_redfish j) ''log'' = Inr j" by (simp add: demo_log_redfish_def)
  moreover have "list_all event_ok [demo_event]"
    by (simp add: event_ok_def event_time_def demo_event_def has_snapshot_def)
  moreover have "event_corrupted (J_object [])" by (simp add: event_corrupted_def)
  moreover have "member ''ThrottlingEvents'' j = Some (J_array ([demo_event] @ J_object [] # []))" by (simp add: j_def)
  moreover have "0 \<le> (5000 :: int)" "(5000 :: int) < 2 ^ 63" by simp_all
  ultimately have "x = Inr () \<and> r_json (nm_res s') = msg_json (demo_log_redfish j) M_internalError J_null \<and>
      r_msgs (nm_res s') = r_msgs (nm_res (sv_init :: json sv_state)) @ [M_internalError]"
    using throttling_errors [OF _ _ run] by blast
  with run show ?thesis by (simp add: j_def sv_init_def response_new_def demo_log_redfish_def demo_redfish_def)
qed

text \<open>The page of the service does not depend on the order of its two replies: with well-typed properties
  the page shows the health, the state, the number of policies and the version in either order, keeps every other
  member of the page, and carries no message.\<close>

theorem service_page_any_order:
  assumes "last_property v_i32 ''Health'' ps = Some health" and "last_property v_u8 ''MaxNumberOfPolicies'' ps = Some n"
    and "last_property v_string ''Version'' ps = Some version" and "last_property v_bool ''Enabled'' qs = Some enabled"
    and "service_get sv_init = (x0, s0)"
    and "(x, s') = thenE (onService L (Inr ps)) (onGetEnabled L (Inr qs)) s0 \<or>
      (x, s') = thenE (onGetEnabled L (Inr qs)) (onService L (Inr ps)) s0"
  shows "x = Inr () \<and> r_msgs (nm_res s') = [] \<and>
    json_get [''Status'', ''Health''] (r_json (nm_res s')) = Some (J_string (if health = 0 then ''OK'' else ''Warning'')) \<and>
    json_get [''Status'', ''State''] (r_json (nm_res s')) = Some (J_string (if enabled then ''Enabled'' else ''Disabled'')) \<and>
    json_get [''MaxNumberOfPolicies''] (r_json (nm_res s')) = Some (J_int (uint n)) \<and>
    json_get [''NmVersion''] (r_json (nm_res s')) = Some (J_string version) \<and>
    (\<forall>k. k \<notin> {''Status'', ''MaxNumberOfPolicies'', ''NmVersion''} \<longrightarrow>
       member k (r_json (nm_res s')) = member k service_page)"
proof -
  have en: "foldl (\<lambda>enabled (key, value). if ''Enabled'' = key then v_bool value else enabled) None qs = Some enabled"
    using assms(4) by (simp add: last_property_def)
  have no_status: "member ''Status'' service_page = None" by code_simp
  have "\<exists>m. service_page = J_object m" unfolding service_page_def by (rule exI) (rule refl)
  then obtain m where page: "service_page = J_object m" ..
  have fresh: "map_of m ''Status'' = None" using no_status unfolding page object_simps .
  have s0: "r_json (nm_res s0) = J_object m" "r_msgs (nm_res s0) = []"
    using assms(5) by (auto simp: service_get_def thenE_apply call_apply put_apply json_put_def json_upd.simps sv_init_def
        response_new_def page)
  show ?thesis
    using assms(1-3,6) en s0 fresh unfolding page
    by (elim disjE) (simp_all add: thenE_apply onService_def onGetEnabled_def put_apply json_put_def json_upd.simps)
qed

theorem service_page_any_order_witness:
  "\<exists>s0 s'. service_get (sv_init :: json sv_state) = (Inr (), s0) \<and>
     thenE (onGetEnabled demo_redfish (Inr [(''Enabled'', DV_bool True)])) (onService demo_redfish
       (Inr [(''Health'', DV_i32 0), (''MaxNumberOfPolicies'', DV_u8 64), (''Version'', DV_string ''6.0'')])) s0 = (Inr (), s') \<and>
     json_get [''Status'', ''State''] (r_json (nm_res s')) = Some (J_string ''Enabled'')"
proof -
  define ps where "ps = [(''Health'', DV_i32 0), (''MaxNumberOfPolicies'', DV_u8 64), (''Version'', DV_string ''6.0'')]"
  obtain x0 and s0 :: "json sv_state" where g: "service_get sv_init = (x0, s0)" by fastforce
  have "x0 = Inr ()"
    using g by (simp add: service_get_def thenE_apply call_apply put_apply json_put_def json_upd.simps)
  obtain x s' where run: "(x, s') = thenE (onGetEnabled demo_redfish (Inr [(''Enabled'', DV_bool True)]))
      (onService demo_redfish (Inr ps)) s0" by (metis surj_pair)
  have p: "last_property v_i32 ''Health'' ps = Some 0" "last_property v_u8 ''MaxNumberOfPolicies'' ps = Some 64"
    "last_property v_string ''Version'' ps = Some ''6.0''" "last_property v_bool ''Enabled'' [(''Enabled'', DV_bool True)] = Some True"
    by (simp_all add: last_property_def ps_def)
  have "x = Inr () \<and> json_get [''Status'', ''State''] (r_json (nm_res s')) = Some (J_string ''Enabled'')"
    using service_page_any_order [OF p g disjI2 [OF run]] by simp
  with run [symmetric] g \<open>x0 = Inr ()\<close> show ?thesis
    unfolding ps_def [symmetric] by blast
qed

end
