(* ===== verification/C_Strings.thy ===== *)
theory C_Strings
  imports Prelude
begin

text \<open>
  The functions of the C library that the command line tools use on strings: character classes, \<open>strtok_r\<close>,
  \<open>strtoul\<close>, \<open>strtol\<close>, \<open>atoi\<close>, the conversions of \<open>printf\<close>, \<open>basename\<close>, \<open>strncmp\<close> and \<open>fgets\<close>.  A C string is
  the list of its characters before the terminator; \<open>long\<close> has 32 bits.
\<close>

section \<open>Characters\<close>

definition NUL :: char where
  "NUL = CHR 0x00"

definition NL :: string where
  "NL = [CHR 0x0A]"

definition isprint :: "char \<Rightarrow> bool" where
  "isprint c \<longleftrightarrow> 32 \<le> char_code c \<and> char_code c \<le> 126"

text \<open>The value of a digit in any base; 99 for a character that is none.\<close>

definition digit_value :: "char \<Rightarrow> nat" where
  "digit_value c = (let n = char_code c in
     if 48 \<le> n \<and> n \<le> 57 then n - 48
     else if 97 \<le> n \<and> n \<le> 122 then n - 87
     else if 65 \<le> n \<and> n \<le> 90 then n - 55 else 99)"

definition xdigit :: "nat \<Rightarrow> char" where
  "xdigit d = ''0123456789abcdef'' ! d"

definition toupper :: "char \<Rightarrow> char" where
  "toupper c = (if 97 \<le> char_code c \<and> char_code c \<le> 122 then char_of (char_code c - 32) else c)"

section \<open>Tokens\<close>

text \<open>\<open>strtok_r\<close>: the token and the string the save pointer is left at.\<close>

definition strtok :: "string \<Rightarrow> string \<Rightarrow> (string \<times> string) option" where
  "strtok delim s = (let s' = dropWhile (\<lambda>c. c \<in> set delim) s in
     if s' = [] then None
     else Some (takeWhile (\<lambda>c. c \<notin> set delim) s', drop 1 (dropWhile (\<lambda>c. c \<notin> set delim) s')))"

lemma strtok_shorter: "strtok delim s = Some (t, r) \<Longrightarrow> length r < length s"
proof -
  assume "strtok delim s = Some (t, r)"
  then have ne: "dropWhile (\<lambda>c. c \<in> set delim) s \<noteq> []"
    and r: "r = drop 1 (dropWhile (\<lambda>c. c \<notin> set delim) (dropWhile (\<lambda>c. c \<in> set delim) s))"
    by (auto simp: strtok_def Let_def split: if_splits)
  have "length (dropWhile (\<lambda>c. c \<notin> set delim) (dropWhile (\<lambda>c. c \<in> set delim) s)) \<le> length (dropWhile (\<lambda>c. c \<in> set delim) s)"
    "length (dropWhile (\<lambda>c. c \<in> set delim) s) \<le> length s"
    by (rule length_dropWhile_le)+
  moreover have "0 < length (dropWhile (\<lambda>c. c \<in> set delim) s)" using ne by simp
  ultimately show ?thesis unfolding r length_drop by linarith
qed

text \<open>What repeated calls deliver.  No caller writes into a part of the string that is still to be cut, so the
  tokens do not depend on what happens between the calls.\<close>

function tokens :: "string \<Rightarrow> string \<Rightarrow> string list" where
  "tokens delim s = (case strtok delim s of None \<Rightarrow> [] | Some (t, r) \<Rightarrow> t # tokens delim r)"
  by pat_completeness auto
termination by (relation "measure (\<lambda>(delim, s). length s)") (auto simp: strtok_shorter)

declare tokens.simps [simp del]

text \<open>After a first call of \<open>strtok_r\<close> the string itself ends where its first token ends.\<close>

definition strtok_cut :: "string \<Rightarrow> string \<Rightarrow> string" where
  "strtok_cut delim s = takeWhile (\<lambda>c. c \<in> set delim) s @
     takeWhile (\<lambda>c. c \<notin> set delim) (dropWhile (\<lambda>c. c \<in> set delim) s)"

section \<open>Numbers\<close>

definition number_value :: "nat \<Rightarrow> string \<Rightarrow> nat" where
  "number_value base ds = foldl (\<lambda>a c. base * a + digit_value c) 0 ds"

text \<open>
  The common part of \<open>strtoul\<close> and \<open>strtol\<close>: white space, a sign, the prefix of base 16 (which only counts when
  a digit follows), the digits.  The result is the sign, the magnitude and the rest; \<open>None\<close> when there are no
  digits, where the end pointer is left at the start.
\<close>

definition has_0x :: "string \<Rightarrow> bool" where
  "has_0x s \<longleftrightarrow> (case s of
     z # x # d # _ \<Rightarrow> z = CHR ''0'' \<and> (x = CHR ''x'' \<or> x = CHR ''X'') \<and> digit_value d < 16
   | _ \<Rightarrow> False)"

definition strto :: "nat \<Rightarrow> string \<Rightarrow> (bool \<times> nat \<times> string) option" where
  "strto base s =
     (let s1 = dropWhile isspace s;
          neg = (case s1 of c # _ \<Rightarrow> c = CHR ''-'' | [] \<Rightarrow> False);
          s2 = (case s1 of c # r \<Rightarrow> (if c = CHR ''-'' \<or> c = CHR ''+'' then r else s1) | [] \<Rightarrow> []);
          hex = (has_0x s2 \<and> (base = 0 \<or> base = 16));
          b = (if hex then 16 else if base \<noteq> 0 then base else case s2 of c # _ \<Rightarrow> (if c = CHR ''0'' then 8 else 10) | [] \<Rightarrow> 10);
          s3 = (if hex then drop 2 s2 else s2);
          ds = takeWhile (\<lambda>c. digit_value c < b) s3
      in if ds = [] then None else Some (neg, number_value b ds, drop (length ds) s3))"

definition strtoul16 :: "string \<Rightarrow> u32 \<times> string" where
  "strtoul16 s = (case strto 16 s of
     None \<Rightarrow> (0, s)
   | Some (neg, v, r) \<Rightarrow> (if 2 ^ 32 \<le> v then - 1 else if neg then - of_nat v else of_nat v, r))"

text \<open>\<open>strtoul\<close> with base 0, where a prefix selects the base.\<close>

definition strtoul0 :: "string \<Rightarrow> u32 \<times> string" where
  "strtoul0 s = (case strto 0 s of
     None \<Rightarrow> (0, s)
   | Some (neg, v, r) \<Rightarrow> (if 2 ^ 32 \<le> v then - 1 else if neg then - of_nat v else of_nat v, r))"

text \<open>\<open>strtol\<close>: the value, the rest, and whether \<open>errno\<close> is set to \<open>ERANGE\<close>.\<close>

definition strtol :: "nat \<Rightarrow> string \<Rightarrow> int \<times> string \<times> bool" where
  "strtol base s = (case strto base s of
     None \<Rightarrow> (0, s, False)
   | Some (neg, v, r) \<Rightarrow>
      (let i = (if neg then - int v else int v) in
       if 2 ^ 31 \<le> i then (2 ^ 31 - 1, r, True)
       else if i < - (2 ^ 31) then (- (2 ^ 31), r, True) else (i, r, False)))"

definition atoi :: "string \<Rightarrow> int" where
  "atoi s = fst (strtol 10 s)"

section \<open>Printing\<close>

text \<open>\<open>%0<n>lx\<close> for a value of at most \<open>n\<close> digits, \<open>%lx\<close>, \<open>%02X\<close>, \<open>%d\<close>.\<close>

primrec hex_pad :: "nat \<Rightarrow> nat \<Rightarrow> string" where
  "hex_pad 0 v = []"
| "hex_pad (Suc n) v = xdigit ((v div 16 ^ n) mod 16) # hex_pad n v"

definition hex8 :: "u32 \<Rightarrow> string" where
  "hex8 w = hex_pad 8 (unat w)"

fun hex_nat :: "nat \<Rightarrow> string" where
  "hex_nat n = (if n < 16 then [xdigit n] else hex_nat (n div 16) @ [xdigit (n mod 16)])"

declare hex_nat.simps [simp del]

definition hex :: "'a::len word \<Rightarrow> string" where
  "hex w = hex_nat (unat w)"

definition HEX02 :: "u8 \<Rightarrow> string" where
  "HEX02 b = map toupper (hex_pad 2 (unat b))"

definition dec :: "int \<Rightarrow> string" where
  "dec i = (if i < 0 then ''-'' @ to_string (nat (- i)) else to_string (nat i))"

section \<open>Other functions\<close>

definition basename :: "string \<Rightarrow> string" where
  "basename path = rev (takeWhile (\<lambda>c. c \<noteq> CHR ''/'') (rev path))"

text \<open>\<open>strncmp(s, t, length s + 1) == 0\<close> and \<open>strcmp(s, t) == 0\<close> are equality of C strings.

  \<open>fgets\<close> reads up to a newline, the end of the input or the room in the buffer; a caller that uses the buffer as
  a C string sees it up to the first NUL.\<close>

fun fgets_chars :: "nat \<Rightarrow> string \<Rightarrow> string \<times> string" where
  "fgets_chars 0 inp = ([], inp)"
| "fgets_chars (Suc n) [] = ([], [])"
| "fgets_chars (Suc n) (c # inp) =
     (if c = CHR 0x0A then ([c], inp) else case fgets_chars n inp of (l, r) \<Rightarrow> (c # l, r))"

definition fgets :: "nat \<Rightarrow> string \<Rightarrow> string option \<times> string" where
  "fgets len inp = (case fgets_chars (len - 1) inp of
     (l, r) \<Rightarrow> (if l = [] then None else Some (takeWhile (\<lambda>c. c \<noteq> NUL) l), r))"

section \<open>Laws\<close>

lemma char_code_char_of: "n < 256 \<Longrightarrow> char_code (char_of n) = n"
  by (simp add: char_code_def)

lemma xdigit_cases: "d < 16 \<Longrightarrow> d \<in> {0, 1, 2, 3, 4, 5, 6, 7, 8, 9, 10, 11, 12, 13, 14, 15 :: nat}"
  unfolding insert_iff empty_iff by presburger

lemma digit_value_xdigit [simp]: "d < 16 \<Longrightarrow> digit_value (xdigit d) = d"
  by (drule xdigit_cases) (auto simp: digit_value_def xdigit_def Let_def char_code_def)

lemma xdigit_class:
  "d < 16 \<Longrightarrow> isprint (xdigit d) \<and> \<not> isspace (xdigit d) \<and>
    xdigit d \<notin> {CHR ''-'', CHR ''+'', CHR ''x'', CHR ''X'', CHR '':'', CHR '','', NUL}"
  by (drule xdigit_cases) (auto simp: xdigit_def isprint_def isspace_def NUL_def char_code_def)

lemma length_hex_pad [simp]: "length (hex_pad n v) = n"
  by (induction n) simp_all

lemma hex_pad_digits: "c \<in> set (hex_pad n v) \<Longrightarrow> \<exists>d<16. c = xdigit d"
proof (induction n)
  case (Suc n)
  moreover have "v div 16 ^ n mod 16 < 16" by simp
  ultimately show ?case by (metis hex_pad.simps(2) set_ConsD)
qed simp

lemma number_value_foldl: "foldl (\<lambda>a c. base * a + digit_value c) x ds = x * base ^ length ds + number_value base ds"
proof (induction ds arbitrary: x)
  case (Cons c ds)
  show ?case
    using Cons [of "base * x + digit_value c"] Cons [of "digit_value c"]
    by (simp add: number_value_def algebra_simps)
qed (simp add: number_value_def)

lemma number_value_Cons: "number_value base (c # ds) = digit_value c * base ^ length ds + number_value base ds"
  using number_value_foldl [of base "digit_value c" ds] by (simp add: number_value_def)

lemma number_value_snoc: "number_value base (ds @ [c]) = base * number_value base ds + digit_value c"
  by (simp add: number_value_def)

lemma number_value_hex_pad: "number_value 16 (hex_pad n v) = v mod 16 ^ n"
proof (induction n)
  case (Suc n)
  have "v mod (16 ^ n * 16) = 16 ^ n * (v div 16 ^ n mod 16) + v mod 16 ^ n"
    by (rule mod_mult2_eq)
  with Suc show ?case by (simp add: number_value_Cons mult.commute)
qed (simp add: number_value_def)

lemma hex_nat_digits: "c \<in> set (hex_nat n) \<Longrightarrow> \<exists>d<16. c = xdigit d"
proof (induction n rule: hex_nat.induct)
  case (1 n)
  show ?case
  proof (cases "n < 16")
    case True
    with 1(2) show ?thesis by (subst (asm) hex_nat.simps) auto
  next
    case False
    have "n mod 16 < 16" by simp
    moreover have "c \<in> set (hex_nat (n div 16)) \<or> c = xdigit (n mod 16)"
      using False 1(2) hex_nat.simps [of n] by auto
    ultimately show ?thesis using False 1(1) by blast
  qed
qed

lemma number_value_hex_nat: "number_value 16 (hex_nat n) = n"
proof (induction n rule: hex_nat.induct)
  case (1 n)
  then show ?case
    by (subst hex_nat.simps) (auto simp: number_value_snoc number_value_def [of 16 "[_]"])
qed

lemma hex_nat_nonempty [simp]: "hex_nat n \<noteq> []"
  by (subst hex_nat.simps) simp

lemma unat_u32_less: "unat (w :: u32) < 2 ^ 32"
  using unsigned_less [of w, where ?'a = nat] by simp

text \<open>A string of hexadecimal digits is read completely, with its value.\<close>

lemma strto_digits:
  assumes "ds \<noteq> []" and "\<forall>c \<in> set ds. \<exists>d<16. c = xdigit d" and "r = [] \<or> 16 \<le> digit_value (hd r) \<and> hd r \<notin> {CHR ''x'', CHR ''X''}"
  shows "strto 16 (ds @ r) = Some (False, number_value 16 ds, r)"
proof -
  obtain c cs where ds: "ds = c # cs" using assms(1) by (cases ds) auto
  have c: "\<not> isspace c" "c \<noteq> CHR ''-''" "c \<noteq> CHR ''+''" "digit_value c < 16"
    using assms(2) xdigit_class by (auto simp: ds)
  have no_x: "x \<noteq> CHR ''x''" "x \<noteq> CHR ''X''" if "x \<in> set cs" for x
  proof -
    from that assms(2) obtain d where "d < 16" "x = xdigit d" by (auto simp: ds)
    with xdigit_class [of d] show "x \<noteq> CHR ''x''" "x \<noteq> CHR ''X''" by auto
  qed
  have not_hex: "\<not> has_0x (c # cs @ r)"
  proof (cases cs)
    case Nil
    with assms(3) show ?thesis by (auto simp: has_0x_def split: list.splits)
  next
    case (Cons x xs)
    with no_x [of x] show ?thesis by (auto simp: has_0x_def split: list.splits)
  qed
  have tw: "takeWhile (\<lambda>c. digit_value c < 16) (cs @ r) = cs"
  proof -
    have "takeWhile (\<lambda>c. digit_value c < 16) r = []" using assms(3) by (cases r) auto
    moreover have "\<forall>x \<in> set cs. digit_value x < 16" using assms(2) by (auto simp: ds)
    ultimately show ?thesis by (simp add: takeWhile_append2)
  qed
  show ?thesis
    using c not_hex tw by (simp add: strto_def Let_def ds)
qed

lemma length_hex8 [simp]: "length (hex8 w) = 8"
  by (simp add: hex8_def)

lemma hex8_nonempty [simp]: "hex8 w \<noteq> []"
  using length_hex8 [of w] by (auto simp del: length_hex8)

lemma strtoul16_hex8 [simp]: "strtoul16 (hex8 w) = (w, [])"
proof -
  have "unat w < 16 ^ 8" using unat_u32_less [of w] by simp
  then have "number_value 16 (hex8 w) = unat w" by (simp add: hex8_def number_value_hex_pad)
  moreover have "strto 16 (hex8 w @ []) = Some (False, number_value 16 (hex8 w), [])"
    by (rule strto_digits) (simp_all, auto simp: hex8_def dest: hex_pad_digits)
  ultimately show ?thesis using unat_u32_less [of w] by (simp add: strtoul16_def)
qed

lemma strtoul16_hex_prefix:
  assumes "r = [] \<or> 16 \<le> digit_value (hd r) \<and> hd r \<notin> {CHR ''x'', CHR ''X''}"
  shows "strtoul16 (hex (w :: u32) @ r) = (w, r)"
proof -
  have "strto 16 (hex w @ r) = Some (False, number_value 16 (hex w), r)"
    using assms by (intro strto_digits) (auto simp: hex_def dest: hex_nat_digits)
  then show ?thesis using unat_u32_less [of w] by (simp add: strtoul16_def hex_def number_value_hex_nat)
qed

lemma strtoul16_hex [simp]: "strtoul16 (hex (w :: u32)) = (w, [])"
  using strtoul16_hex_prefix [of "[]" w] by simp

text \<open>Decimal numbers are read back too.\<close>

lemma digit_value_digit: "d < 10 \<Longrightarrow> digit_value (digit_char d) = d"
  by (simp add: digit_value_def char_code_digit Let_def)

lemma number_value_to_string: "number_value 10 (to_string n) = n"
proof (induction n rule: to_string.induct)
  case (1 n)
  then show ?case
    by (subst to_string.simps) (auto simp: number_value_snoc digit_value_digit number_value_def [of 10 "[_]"])
qed

lemma hd_to_string: "0 < n \<Longrightarrow> hd (to_string n) \<noteq> CHR ''0''"
proof (induction n rule: to_string.induct)
  case (1 n)
  have "digit_char d = CHR ''0'' \<longleftrightarrow> d = 0" if "d < 10" for d
  proof -
    have "char_code CHR ''0'' = 48" by (simp add: char_code_def)
    with char_code_inject [of "digit_char d" "CHR ''0''"] char_code_digit [OF that] show ?thesis by auto
  qed
  with 1 show ?case by (subst to_string.simps) auto
qed

lemma digit_class: "isdigit c \<Longrightarrow> digit_value c < 10 \<and> c \<noteq> CHR ''x'' \<and> c \<noteq> CHR ''X''"
  by (auto simp: isdigit_def digit_value_def char_code_def Let_def)

lemma strto_to_string:
  assumes "b = 0 \<or> b = 10"
  shows "strto b (to_string n) = Some (False, n, [])"
proof (cases "n = 0")
  case True
  have "to_string 0 = ''0''" by code_simp
  with True assms show ?thesis
    by (auto simp: strto_def Let_def has_0x_def isspace_def char_code_def digit_value_def number_value_def)
next
  case False
  obtain c cs where cs: "to_string n = c # cs" by (cases "to_string n") auto
  have digits: "\<forall>x \<in> set (c # cs). isdigit x" using to_string_digits [of _ n] cs by auto
  then have c: "\<not> isspace c" "c \<noteq> CHR ''-''" "c \<noteq> CHR ''+''" "c \<noteq> CHR ''0''"
    using isdigit_not_space isdigit_no_sign hd_to_string [of n] False cs by auto
  have tw: "takeWhile (\<lambda>c. digit_value c < 10) cs = cs" using digits digit_class by auto
  have "digit_value c < 10" using digits digit_class by auto
  moreover have "\<not> has_0x (c # cs)" using c(4) by (auto simp: has_0x_def split: list.splits)
  ultimately show ?thesis
    using c assms number_value_to_string [of n] by (auto simp: strto_def Let_def cs tw simp del: takeWhile_eq_all_conv)
qed

lemma strtol_to_string: "n < 2 ^ 31 \<Longrightarrow> strtol 0 (to_string n) = (int n, [], False)"
  by (simp add: strtol_def strto_to_string)

lemma strtoul0_to_string: "n < 2 ^ 32 \<Longrightarrow> strtoul0 (to_string n) = (of_nat n, [])"
  by (simp add: strtoul0_def strto_to_string)

lemma atoi_to_string: "n < 2 ^ 31 \<Longrightarrow> atoi (to_string n) = int n"
  by (simp add: atoi_def strtol_def strto_to_string)

text \<open>Tokens separated by single delimiters.\<close>

lemma strtok_token:
  assumes "t \<noteq> []" and "\<forall>c \<in> set t. c \<notin> set delim"
  shows "strtok delim t = Some (t, [])" "d \<in> set delim \<Longrightarrow> strtok delim (t @ d # r) = Some (t, r)"
proof -
  have dw: "dropWhile (\<lambda>c. c \<in> set delim) (t @ r) = t @ r" for r using assms by (cases t) auto
  have "takeWhile (\<lambda>c. c \<notin> set delim) t = t" "dropWhile (\<lambda>c. c \<notin> set delim) t = []" using assms(2) by auto
  with dw [of "[]"] assms(1) show "strtok delim t = Some (t, [])"
    unfolding strtok_def Let_def by (simp del: dropWhile_eq_Nil_conv takeWhile_eq_all_conv)
  assume "d \<in> set delim"
  with dw [of "d # r"] assms show "strtok delim (t @ d # r) = Some (t, r)"
    by (simp add: strtok_def Let_def takeWhile_append2 dropWhile_append2)
qed

lemma tokens_Nil [simp]: "tokens delim [] = []"
  by (subst tokens.simps) (simp add: strtok_def)

lemma tokens_token: "t \<noteq> [] \<Longrightarrow> \<forall>c \<in> set t. c \<notin> set delim \<Longrightarrow> tokens delim t = [t]"
  by (subst tokens.simps) (simp add: strtok_token)

lemma tokens_Cons_token:
  "t \<noteq> [] \<Longrightarrow> \<forall>c \<in> set t. c \<notin> set delim \<Longrightarrow> d \<in> set delim \<Longrightarrow> tokens delim (t @ d # r) = t # tokens delim r"
  by (subst tokens.simps) (simp add: strtok_token)

lemma tokens_nonempty: "t \<in> set (tokens delim s) \<Longrightarrow> t \<noteq> [] \<and> (\<forall>c \<in> set t. c \<notin> set delim)"
proof (induction delim s rule: tokens.induct)
  case (1 delim s)
  show ?case
  proof (cases "strtok delim s")
    case None
    with 1(2) show ?thesis by (simp add: tokens.simps)
  next
    case (Some p)
    obtain t' r where p: "p = (t', r)" by fastforce
    have "t' \<noteq> [] \<and> (\<forall>c \<in> set t'. c \<notin> set delim)"
    proof -
      let ?s = "dropWhile (\<lambda>c. c \<in> set delim) s"
      have s: "?s \<noteq> []" "t' = takeWhile (\<lambda>c. c \<notin> set delim) ?s"
        using Some p by (auto simp: strtok_def Let_def split: if_splits)
      have "hd ?s \<notin> set delim" using s(1) by (rule hd_dropWhile)
      with s show ?thesis by (cases ?s) (auto dest: set_takeWhileD)
    qed
    with 1 Some p show ?thesis by (subst (asm) (2) tokens.simps) auto
  qed
qed

lemma fgets_chars_split: "fgets_chars n inp = (l, r) \<Longrightarrow> inp = l @ r \<and> length l \<le> n"
  by (induction n inp arbitrary: l rule: fgets_chars.induct) (auto split: if_splits prod.splits)

lemma fgets_shorter:
  assumes "fgets n inp = (x, r)"
  shows "length r \<le> length inp" and "x \<noteq> None \<Longrightarrow> length r < length inp" and "x = Some l \<Longrightarrow> length l \<le> n - 1"
proof -
  obtain cs where cs: "fgets_chars (n - 1) inp = (cs, r)" "x = (if cs = [] then None else Some (takeWhile (\<lambda>c. c \<noteq> NUL) cs))"
    using assms by (auto simp: fgets_def split: prod.splits)
  note sp = fgets_chars_split [OF cs(1)]
  then show "length r \<le> length inp" by simp
  show "length r < length inp" if "x \<noteq> None" using that cs(2) sp by (cases cs) auto
  show "length l \<le> n - 1" if "x = Some l"
    using that cs(2) sp length_takeWhile_le [of "\<lambda>c. c \<noteq> NUL" cs] by (auto split: if_splits)
qed

text \<open>A list of tokens with a delimiter after each, or between them, is cut into the same list.\<close>

fun join :: "char \<Rightarrow> string list \<Rightarrow> string" where
  "join d [] = []"
| "join d [t] = t"
| "join d (t # t' # ts) = t @ d # join d (t' # ts)"

definition is_token :: "string \<Rightarrow> string \<Rightarrow> bool" where
  "is_token delim t \<longleftrightarrow> t \<noteq> [] \<and> (\<forall>c \<in> set t. c \<notin> set delim)"

lemma tokens_join: "d \<in> set delim \<Longrightarrow> list_all (is_token delim) ts \<Longrightarrow> tokens delim (join d ts) = ts"
  by (induction d ts rule: join.induct) (auto simp: is_token_def tokens_token tokens_Cons_token)

lemma tokens_terminated:
  "d \<in> set delim \<Longrightarrow> list_all (is_token delim) ts \<Longrightarrow> tokens delim (concat (map (\<lambda>t. t @ [d]) ts) @ r) = ts @ tokens delim r"
  by (induction ts) (auto simp: is_token_def tokens_Cons_token)

text \<open>
  A way to print 32-bit numbers in hexadecimal digits that \<open>strtoul\<close> in base 16 reads back.  The tools print
  numbers in two such ways, with and without leading zeros.
\<close>

locale number_format =
  fixes print_number :: "u32 \<Rightarrow> string"
  assumes print_nonempty: "print_number w \<noteq> []"
    and print_digits: "c \<in> set (print_number w) \<Longrightarrow> \<exists>d<16. c = xdigit d"
    and read_print: "strtoul16 (print_number w) = (w, [])"
begin

lemma print_class: "c \<in> set (print_number w) \<Longrightarrow> isprint c \<and> \<not> isspace c \<and>
    c \<notin> {CHR ''-'', CHR ''+'', CHR ''x'', CHR ''X'', CHR '':'', CHR '','', NUL}"
proof -
  assume "c \<in> set (print_number w)"
  then obtain d where "d < 16" "c = xdigit d" using print_digits by blast
  with xdigit_class [of d] show ?thesis by simp
qed

lemma print_token: "(\<forall>c \<in> set delim. isspace c \<or> c = CHR '':'' \<or> c = CHR '','') \<Longrightarrow> is_token delim (print_number w)"
  using print_class [of _ w] print_nonempty by (auto simp: is_token_def)

lemma read_terminated:
  assumes "d \<in> set delim" and "\<forall>c \<in> set delim. isspace c \<or> c = CHR '':'' \<or> c = CHR '',''" and "tokens delim r = []"
  shows "map (\<lambda>t. fst (strtoul16 t)) (tokens delim (concat (map (\<lambda>w. print_number w @ [d]) ws) @ r)) = ws"
proof -
  have "list_all (is_token delim) (map print_number ws)"
    using assms(2) by (simp add: list_all_iff print_token)
  from tokens_terminated [OF assms(1) this, of r] assms(3) show ?thesis
    by (simp add: read_print comp_def)
qed

end

interpretation hex_fixed: number_format hex8
proof unfold_locales
  show "hex8 w \<noteq> []" for w by simp
  show "c \<in> set (hex8 w) \<Longrightarrow> \<exists>d<16. c = xdigit d" for c w by (auto simp: hex8_def dest: hex_pad_digits)
  show "strtoul16 (hex8 w) = (w, [])" for w by simp
qed

interpretation hex_plain: number_format "hex :: u32 \<Rightarrow> string"
proof unfold_locales
  show "hex w \<noteq> []" for w :: u32 by (simp add: hex_def)
  show "c \<in> set (hex w) \<Longrightarrow> \<exists>d<16. c = xdigit d" for c and w :: u32 by (auto simp: hex_def dest: hex_nat_digits)
  show "strtoul16 (hex w) = (w, [])" for w :: u32 by simp
qed

end
