(* ===== verification/Io_App.thy ===== *)
theory Io_App
  imports C_Strings
begin

text \<open>
  \<open>io-app.c\<close>: the tool \<open>io\<close>, \<open>md\<close>, \<open>mw\<close> that maps physical memory and reads and writes it.  Pointers, \<open>size_t\<close>,
  \<open>unsigned long\<close> and \<open>off_t\<close> have 32 bits.  The operating system is the record \<open>os\<close>, a parameter over a world
  \<open>'w\<close>: files, mappings, allocation, the terminal and the memory behind the mappings.  An access outside every
  mapping, at an address that is not a multiple of four, or outside a buffer is undefined behaviour.
\<close>

unbundle bit_operations_syntax

section \<open>Printing memory\<close>

text \<open>A loop of statements that may fail, over a local state.\<close>

primrec foldS :: "('b \<Rightarrow> 'a \<Rightarrow> exn + 'a) \<Rightarrow> 'b list \<Rightarrow> 'a \<Rightarrow> exn + 'a" where
  "foldS f [] a = Inr a"
| "foldS f (x # xs) a = sum_bind (f x a) (foldS f xs)"

definition poke :: "nat \<Rightarrow> char \<Rightarrow> string \<Rightarrow> exn + string" where
  "poke i c line = (if i < length line then Inr (line[i := c]) else Inl (Undefined_Behaviour ''write outside a buffer''))"

primrec sprintf_at :: "nat \<Rightarrow> string \<Rightarrow> string \<Rightarrow> exn + string" where
  "sprintf_at i [] line = poke i NUL line"
| "sprintf_at i (c # cs) line = sum_bind (poke i c line) (sprintf_at (Suc i) cs)"

definition fputs :: "string \<Rightarrow> exn + string" where
  "fputs line = (if NUL \<in> set line then Inr (takeWhile (\<lambda>c. c \<noteq> NUL) line)
     else Inl (Undefined_Behaviour ''string without end''))"

text \<open>The local state of the loop over a line: the cursors \<open>h\<close> and \<open>a\<close> and the buffer.\<close>

definition dump_byte :: "u32 \<Rightarrow> nat \<Rightarrow> nat \<times> nat \<times> string \<Rightarrow> exn + nat \<times> nat \<times> string" where
  "dump_byte v iv = (\<lambda>(h, a, line).
     let b = ucast (drop_bit (8 * ((4 - 1) - iv)) v) :: u8; c = char_of (unat b) in
     sum_bind (poke h (xdigit (unat (drop_bit 4 b))) line) (\<lambda>line.
     sum_bind (poke (h + 1) (xdigit (unat (b AND 0xF))) line) (\<lambda>line.
     sum_bind (poke a (if isprint c then c else CHR ''.'') line) (\<lambda>line.
       Inr (h + 2, a + 1, line)))))"

definition dump_word :: "u32 \<Rightarrow> nat \<times> nat \<times> string \<Rightarrow> exn + nat \<times> nat \<times> string" where
  "dump_word v st = sum_bind (foldS (dump_byte v) [0, 1, 2, 3] st) (\<lambda>(h, a, line).
     sum_bind (poke h CHR '' '' line) (\<lambda>line. Inr (h + 1, a, line)))"

definition dump_line :: "u32 \<Rightarrow> u32 list \<Rightarrow> exn + string" where
  "dump_line phys vs =
     sum_bind (sprintf_at 0 (hex8 phys @ '': '') (replicate 256 CHR '' '')) (\<lambda>line.
     sum_bind (foldS dump_word vs (10, 47, line)) (\<lambda>(h, a, line).
     sum_bind (poke a CHR 0x0A line) (\<lambda>line.
     sum_bind (poke (a + 1) NUL line) fputs)))"

text \<open>The counter of words stays below \<open>len\<close>, so it cannot wrap around; the address can.\<close>

function dump_from :: "u32 \<Rightarrow> u32 list \<Rightarrow> nat \<Rightarrow> nat \<Rightarrow> exn + nat \<times> string" where
  "dump_from phys ubuf wd len =
     (if wd < len
      then let l = min 4 (len - wd) in
        if length ubuf < l then Inl (Undefined_Behaviour ''read outside a buffer'')
        else sum_bind (dump_line (phys + of_nat wd * 4) (take l ubuf)) (\<lambda>line.
             sum_bind (dump_from phys (drop l ubuf) (wd + l) len) (\<lambda>(n, rest). Inr (n, line @ rest)))
      else Inr (wd, []))"
  by pat_completeness auto
termination by (relation "measure (\<lambda>(phys, ubuf, wd, len). len - wd)") auto

declare dump_from.simps [simp del]

section \<open>State and operating system\<close>

text \<open>\<open>None\<close> is the null pointer.\<close>

record mapping =
  mp_phys :: u32
  mp_virt :: "u32 option"
  mp_len :: u32

datatype cpu_type = CPU_NONE | CPU_AST2600 | CPU_MAX

record 'w io_state =
  io_quiet :: bool
  io_maps :: "mapping list"
  io_cpu :: cpu_type
  io_stdout :: string
  io_stderr :: string
  io_stdin :: string
  io_raw :: bool
  io_world :: 'w

text \<open>
  The calls into the operating system: \<open>open\<close> (for writing or not), \<open>close\<close>, the size \<open>fstat\<close> reports, \<open>mmap\<close> with
  its length, protection and flags, file and offset, \<open>munmap\<close>, whether \<open>malloc\<close> and \<open>realloc\<close> succeed, memory
  words, the C string at an address (none when it runs out of the mapping), a text file, the terminal.
\<close>

record 'w os =
  os_open :: "string \<Rightarrow> bool \<Rightarrow> 'w \<Rightarrow> int \<times> 'w"
  os_close :: "int \<Rightarrow> 'w \<Rightarrow> 'w"
  os_fstat :: "int \<Rightarrow> 'w \<Rightarrow> u32 option \<times> 'w"
  os_mmap :: "u32 \<Rightarrow> bool \<Rightarrow> bool \<Rightarrow> int \<Rightarrow> u32 \<Rightarrow> 'w \<Rightarrow> u32 option \<times> 'w"
  os_munmap :: "u32 \<Rightarrow> u32 \<Rightarrow> 'w \<Rightarrow> 'w"
  os_malloc :: "u32 \<Rightarrow> 'w \<Rightarrow> bool \<times> 'w"
  os_load :: "u32 \<Rightarrow> 'w \<Rightarrow> u32 \<times> 'w"
  os_store :: "u32 \<Rightarrow> u32 \<Rightarrow> 'w \<Rightarrow> 'w"
  os_string :: "u32 \<Rightarrow> 'w \<Rightarrow> string option"
  os_read_file :: "string \<Rightarrow> 'w \<Rightarrow> string option \<times> 'w"
  os_tcgetattr :: "'w \<Rightarrow> bool \<times> 'w"
  os_isatty :: "'w \<Rightarrow> bool \<times> 'w"

definition sys :: "('w \<Rightarrow> 'a \<times> 'w) \<Rightarrow> ('w io_state, 'a) exm" where
  "sys f = (\<lambda>s. case f (io_world s) of (a, w) \<Rightarrow> (Inr a, s\<lparr>io_world := w\<rparr>))"

definition sysdo :: "('w \<Rightarrow> 'w) \<Rightarrow> ('w io_state, unit) exm" where
  "sysdo f = modify (\<lambda>s. s\<lparr>io_world := f (io_world s)\<rparr>)"

definition put_out :: "string \<Rightarrow> ('w io_state, unit) exm" where
  "put_out t = modify (\<lambda>s. s\<lparr>io_stdout := io_stdout s @ t\<rparr>)"

definition put_err :: "string \<Rightarrow> ('w io_state, unit) exm" where
  "put_err t = modify (\<lambda>s. s\<lparr>io_stderr := io_stderr s @ t\<rparr>)"

definition dump :: "u32 \<Rightarrow> u32 list \<Rightarrow> nat \<Rightarrow> ('w io_state, nat) exm" where
  "dump phys ubuf len = bindE (lift_sum (dump_from phys ubuf 0 len)) (\<lambda>(wd, text). thenE (put_out text) (ret wd))"

section \<open>Mappings\<close>

definition unmap_one :: "'w os \<Rightarrow> nat \<Rightarrow> ('w io_state, unit) exm" where
  "unmap_one os i = bindE (gets (\<lambda>s. io_maps s ! i)) (\<lambda>m.
     thenE (case mp_virt m of Some v \<Rightarrow> sysdo (os_munmap os v (mp_len m)) | None \<Rightarrow> ret ())
       (modify (\<lambda>s. s\<lparr>io_maps := (io_maps s)[i := m\<lparr>mp_virt := None\<rparr>]\<rparr>)))"

definition unmap_all :: "'w os \<Rightarrow> ('w io_state, unit) exm" where
  "unmap_all os = bindE (gets (\<lambda>s. length (io_maps s))) (\<lambda>nr_maps. forE [0..<nr_maps] (unmap_one os))"

definition add_a_map :: "'w os \<Rightarrow> u32 \<Rightarrow> u32 \<Rightarrow> u32 \<Rightarrow> ('w io_state, int) exm" where
  "add_a_map os phys virt len = bindE (gets (\<lambda>s. length (io_maps s))) (\<lambda>nr_maps.
     bindE (sys (os_malloc os ((of_nat nr_maps + 1) * 12))) (\<lambda>new_maps.
       if \<not> new_maps then thenE (unmap_all os) (thenE (sysdo (os_munmap os virt len)) (ret (- 1)))
       else thenE (modify (\<lambda>s. s\<lparr>io_maps := io_maps s @ [\<lparr>mp_phys = phys, mp_virt = Some virt, mp_len = len\<rparr>]\<rparr>)) (ret 0)))"

text \<open>The result \<open>None\<close> is \<open>MAP_FAILED\<close>.\<close>

definition map_fd :: "'w os \<Rightarrow> int \<Rightarrow> u32 \<Rightarrow> u32 \<Rightarrow> bool \<Rightarrow> bool \<Rightarrow> ('w io_state, u32 option) exm" where
  "map_fd os fd offset len writable shared =
     (let (phys, offset) = (if offset \<noteq> - 1 then (offset, offset) else (- 1, 0)) in
      bindE (sys (os_mmap os len writable shared fd offset)) (\<lambda>mapped_at. case mapped_at of
        None \<Rightarrow> ret None
      | Some v \<Rightarrow> bindE (add_a_map os phys v len) (\<lambda>r. ret (if r \<noteq> 0 then None else Some v))))"

definition map_file :: "'w os \<Rightarrow> string \<Rightarrow> u32 \<Rightarrow> bool \<Rightarrow> bool \<Rightarrow> ('w io_state, u32 option \<times> u32) exm" where
  "map_file os fname len writable shared = bindE (sys (os_open os fname writable)) (\<lambda>fd.
     if fd < 0 then ret (None, len)
     else bindE (if len = 0
                 then bindE (sys (os_fstat os fd)) (\<lambda>sb. case sb of
                   Some st_size \<Rightarrow> ret st_size | None \<Rightarrow> throw (Undefined_Behaviour ''uninitialised struct stat''))
                 else ret len) (\<lambda>len.
       bindE (map_fd os fd (- 1) len writable shared) (\<lambda>ptr.
         thenE (sysdo (os_close os fd)) (ret (ptr, len)))))"

definition map_delim :: string where
  "map_delim = [CHR 0x0D, CHR 0x0A, CHR 0x09, CHR '' '', CHR '','']"

text \<open>One round of the loop over the map string: \<open>None\<close> goes on, \<open>Some ret\<close> is a \<open>break\<close>.\<close>

definition load_map :: "'w os \<Rightarrow> int \<Rightarrow> string \<Rightarrow> ('w io_state, int option) exm" where
  "load_map os fd paddr = (case strtok '':'' paddr of
     None \<Rightarrow> thenE (put_err (''malformed map string '' @ [CHR 0x27] @ paddr @ [CHR 0x27] @ NL)) (ret None)
   | Some (_, tmp_sl) \<Rightarrow> (case strtok '':'' tmp_sl of
       None \<Rightarrow> ret None
     | Some (plen, _) \<Rightarrow>
        (let paddr = strtok_cut '':'' paddr; (addr, endptr) = strtoul16 paddr in
         if endptr \<noteq> [] then thenE (put_err (''Failed to parse address from '' @ [CHR 0x27] @ paddr @ [CHR 0x27] @ NL)) (ret (Some (- 1)))
         else let (len, endptr) = strtoul16 plen in
         if endptr \<noteq> [] then thenE (put_err (''Failed to parse len from '' @ [CHR 0x27] @ plen @ [CHR 0x27] @ NL)) (ret (Some (- 1)))
         else bindE (map_fd os fd addr len True True) (\<lambda>mapped. case mapped of
           None \<Rightarrow> thenE (put_err (''Failed to map '' @ hex addr @ '' +'' @ hex len @ NL)) (ret (Some (- 1)))
         | Some v \<Rightarrow> bindE (gets io_quiet) (\<lambda>quiet.
             thenE (if quiet then ret ()
                    else put_out (''added map: 0x'' @ hex v @ '' ('' @ hex addr @ ''..'' @ hex (addr + len) @ '')'' @ NL))
               (ret None))))))"

primrec load_all :: "'w os \<Rightarrow> int \<Rightarrow> string list \<Rightarrow> ('w io_state, int) exm" where
  "load_all os fd [] = ret 0"
| "load_all os fd (paddr # rest) = bindE (load_map os fd paddr) (\<lambda>r. case r of None \<Rightarrow> load_all os fd rest | Some e \<Rightarrow> ret e)"

text \<open>The argument is the string behind the pointer, or \<open>None\<close> for a pointer that cannot be read as a string.\<close>

definition load_maps :: "'w os \<Rightarrow> string option \<Rightarrow> ('w io_state, int) exm" where
  "load_maps os cmap_str = bindE (sys (os_open os ''/dev/mem'' True)) (\<lambda>fd.
     if fd < 0 then ret (- 1)
     else (case cmap_str of
       None \<Rightarrow> throw (Undefined_Behaviour ''string outside mapped memory'')
     | Some str \<Rightarrow> bindE (sys (os_malloc os (of_nat (length str) + 1))) (\<lambda>map_str.
         if \<not> map_str then thenE (sysdo (os_close os fd)) (ret (- 1))
         else bindE (load_all os fd (tokens map_delim str)) (\<lambda>r. thenE (sysdo (os_close os fd)) (ret r)))))"

section \<open>Reading and writing memory\<close>

definition accessible :: "mapping list \<Rightarrow> u32 \<Rightarrow> bool" where
  "accessible ms v \<longleftrightarrow> 4 dvd unat v \<and> (\<exists>m \<in> set ms. \<exists>b. mp_virt m = Some b \<and>
     unat b \<le> unat v \<and> unat v + 4 \<le> unat b + unat (mp_len m))"

definition load32 :: "'w os \<Rightarrow> u32 \<Rightarrow> ('w io_state, u32) exm" where
  "load32 os v = bindE (gets (\<lambda>s. accessible (io_maps s) v)) (\<lambda>ok.
     if ok then sys (os_load os v) else throw (Undefined_Behaviour ''access outside mapped memory''))"

definition store32 :: "'w os \<Rightarrow> u32 \<Rightarrow> u32 \<Rightarrow> ('w io_state, unit) exm" where
  "store32 os v x = bindE (gets (\<lambda>s. accessible (io_maps s) v)) (\<lambda>ok.
     if ok then sysdo (os_store os v x) else throw (Undefined_Behaviour ''access outside mapped memory''))"

text \<open>The guard both commands use, with the wrap-around of \<open>unsigned long\<close>; the first mapping that passes it.\<close>

definition covers :: "u32 \<Rightarrow> u32 \<Rightarrow> mapping \<Rightarrow> bool" where
  "covers addr len m \<longleftrightarrow> mp_phys m \<noteq> - 1 \<and> mp_phys m \<le> addr \<and> addr + len * 4 < mp_phys m + mp_len m"

definition not_mapped :: "u32 \<Rightarrow> u32 \<Rightarrow> ('w io_state, unit) exm" where
  "not_mapped addr len = put_err (hex addr @ '' +'' @ hex len @ '' not in mapped memory'' @ NL)"

definition at_offset :: "mapping \<Rightarrow> u32 \<Rightarrow> ('w io_state, u32) exm" where
  "at_offset m addr = (case mp_virt m of
     Some v \<Rightarrow> ret (v + (addr - mp_phys m)) | None \<Rightarrow> throw (Undefined_Behaviour ''null pointer''))"

text \<open>The words read into a buffer of \<open>cap\<close> bytes, from the \<open>j\<close>-th on.\<close>

primrec md_words :: "'w os \<Rightarrow> u32 \<Rightarrow> u32 \<Rightarrow> nat \<Rightarrow> nat \<Rightarrow> ('w io_state, u32 list) exm" where
  "md_words os cap pv j 0 = ret []"
| "md_words os cap pv j (Suc n) =
     (if unat cap < 4 * j + 4 then throw (Undefined_Behaviour ''write outside a buffer'')
      else bindE (load32 os pv) (\<lambda>x. bindE (md_words os cap (pv + 4) (Suc j) n) (\<lambda>xs. ret (x # xs))))"

definition md :: "'w os \<Rightarrow> u32 \<Rightarrow> u32 \<Rightarrow> ('w io_state, int) exm" where
  "md os addr len = bindE (gets (\<lambda>s. find (covers addr len) (io_maps s))) (\<lambda>found. case found of
     None \<Rightarrow> thenE (not_mapped addr len) (ret 1)
   | Some m \<Rightarrow> bindE (sys (os_malloc os (len * 4))) (\<lambda>buf.
       if \<not> buf then ret 1
       else bindE (at_offset m addr) (\<lambda>pv. bindE (md_words os (len * 4) pv 0 (unat len)) (\<lambda>words.
         thenE (dump addr words (unat len)) (ret 0)))))"

text \<open>The pointer does not advance; the index is an \<open>int\<close>, which overflows for a larger length.\<close>

definition mw :: "'w os \<Rightarrow> u32 \<Rightarrow> u32 \<Rightarrow> u32 \<Rightarrow> ('w io_state, int) exm" where
  "mw os addr val len = bindE (gets (\<lambda>s. find (covers addr len) (io_maps s))) (\<lambda>found. case found of
     None \<Rightarrow> thenE (not_mapped addr len) (ret 1)
   | Some m \<Rightarrow>
       thenE (forE [0..<unat len] (\<lambda>j. bindE (at_offset m addr) (\<lambda>p.
           if 2 ^ 31 \<le> j + 1 then throw (Undefined_Behaviour ''signed overflow'') else store32 os p val)))
         (ret 0))"

section \<open>Reading a command line\<close>

text \<open>
  The loop in raw mode: the line so far, the input, the echo.  End of input and \<open>^D\<close> end it, \<open>^C\<close> empties the
  line, backspace takes back a character.  The result \<open>None\<close> is the null pointer.
\<close>

fun raw_loop :: "nat \<Rightarrow> string \<Rightarrow> string \<Rightarrow> string \<Rightarrow> string option \<times> string \<times> string" where
  "raw_loop len buf inp echo =
     (if \<not> length buf < len - 1 then (Some buf, inp, echo)
      else case inp of
        [] \<Rightarrow> (if buf = [] then None else Some buf, [], echo)
      | c # inp \<Rightarrow> (let n = char_code c in
          if n = 3 then (Some [], inp, echo)
          else if n = 4 then (None, inp, echo)
          else if n = 8 then (if buf \<noteq> [] then raw_loop len (butlast buf) inp (echo @ [c, CHR '' '', c])
                              else raw_loop len buf inp echo)
          else if n = 13 \<or> n = 10 then (Some (buf @ NL), inp, echo @ [CHR 0x0D, CHR 0x0A])
          else if 32 \<le> n \<and> n \<le> 126 then raw_loop len (buf @ [c]) inp (echo @ [c])
          else raw_loop len buf inp echo))"

declare raw_loop.simps [simp del]

definition readline :: "'w os \<Rightarrow> nat \<Rightarrow> ('w io_state, string option) exm" where
  "readline os len = bindE (gets io_quiet) (\<lambda>quiet.
     bindE (if quiet then ret False else sys (os_tcgetattr os)) (\<lambda>raw.
       if \<not> raw
       then bindE (gets (\<lambda>s. fgets len (io_stdin s))) (\<lambda>(line, rest).
              thenE (modify (\<lambda>s. s\<lparr>io_stdin := rest\<rparr>)) (ret line))
       else thenE (modify (\<lambda>s. s\<lparr>io_raw := True\<rparr>))
         (bindE (gets (\<lambda>s. raw_loop len [] (io_stdin s) [])) (\<lambda>(line, rest, echo).
            thenE (modify (\<lambda>s. s\<lparr>io_stdin := rest\<rparr>)) (thenE (put_out echo)
              (thenE (modify (\<lambda>s. s\<lparr>io_raw := False\<rparr>)) (ret line)))))))"

section \<open>The shell\<close>

datatype cmd_result = Quit | Cmd_Err | Cmd_Ok

definition with_len :: "string list \<Rightarrow> u32 \<Rightarrow> (u32 \<Rightarrow> ('w io_state, int) exm) \<Rightarrow> ('w io_state, cmd_result) exm" where
  "with_len args len fn = (case args of
     [] \<Rightarrow> thenE (fn len) (ret Cmd_Ok)
   | plen # _ \<Rightarrow> (let (len, endptr) = strtoul16 plen in
       if endptr \<noteq> [] then ret Cmd_Err else thenE (fn len) (ret Cmd_Ok)))"

definition run_command :: "'w os \<Rightarrow> string \<Rightarrow> ('w io_state, cmd_result) exm" where
  "run_command os command = (case tokens [CHR 0x09, CHR '' ''] command of
     [] \<Rightarrow> ret Cmd_Err
   | cmd # args \<Rightarrow>
      if hd cmd = CHR ''q'' \<or> hd cmd = CHR ''Q'' then ret Quit
      else (case args of
        [] \<Rightarrow> ret Cmd_Err
      | paddr # args \<Rightarrow> (let (addr, endptr) = strtoul16 paddr in
          if endptr \<noteq> [] then ret Cmd_Err
          else if cmd = ''mw''
          then (case args of
             [] \<Rightarrow> ret Cmd_Err
           | pval # args \<Rightarrow> (let (val, endptr) = strtoul16 pval in
               if endptr \<noteq> [] then ret Cmd_Err else with_len args 1 (mw os addr val)))
          else if cmd = ''md'' then with_len args 0x40 (md os addr)
          else ret Cmd_Err)))"

primrec run_commands :: "'w os \<Rightarrow> string list \<Rightarrow> ('w io_state, cmd_result) exm" where
  "run_commands os [] = ret Cmd_Ok"
| "run_commands os (command # rest) = bindE (run_command os command) (\<lambda>r.
     if r = Cmd_Ok then run_commands os rest else ret r)"

definition command_usage :: string where
  "command_usage = ''md addr [len]'' @ NL @ ''mw addr val [len]'' @ NL @ ''q[uit] | ctrl-d | ctrl-c to exit'' @ NL"

definition prompt :: "('w io_state, unit) exm" where
  "prompt = bindE (gets io_quiet) (\<lambda>quiet. if quiet then ret () else put_err ''> '')"

text \<open>One round of the loop: whether the shell ends.\<close>

definition io_line :: "'w os \<Rightarrow> string \<Rightarrow> ('w io_state, bool) exm" where
  "io_line os line = bindE (run_commands os (tokens [CHR 0x0D, CHR 0x0A, CHR '';''] line)) (\<lambda>r. case r of
     Quit \<Rightarrow> ret True
   | Cmd_Ok \<Rightarrow> thenE prompt (ret False)
   | Cmd_Err \<Rightarrow> thenE (put_err command_usage) (thenE prompt (ret False)))"

text \<open>Every round takes something from the input, which no command does, so the shell ends.\<close>

definition line_ok :: "nat \<Rightarrow> string \<Rightarrow> bool" where
  "line_ok len l \<longleftrightarrow> length l \<le> len - 1 \<and> (\<exists>t. list_all isprint t \<and> (l = t \<or> l = t @ NL))"

definition raw_ok :: "nat \<Rightarrow> string \<Rightarrow> string \<Rightarrow> string option \<Rightarrow> string \<Rightarrow> bool" where
  "raw_ok len buf inp x r \<longleftrightarrow> length r \<le> length inp \<and> (length buf < len - 1 \<and> inp \<noteq> [] \<longrightarrow> length r < length inp) \<and>
     (inp = [] \<and> buf = [] \<and> 1 < len \<longrightarrow> x = None) \<and>
     (length buf \<le> len - 1 \<and> list_all isprint buf \<longrightarrow> (\<forall>l. x = Some l \<longrightarrow> line_ok len l))"

lemma raw_ok_step:
  assumes "raw_ok len buf' cs x r" and "length buf' \<le> len - 1" and "list_all isprint buf \<Longrightarrow> list_all isprint buf'"
  shows "raw_ok len buf (c # cs) x r"
  using assms by (auto simp: raw_ok_def)

lemma raw_loop_result: "raw_loop len buf inp echo = (x, r, e) \<Longrightarrow> raw_ok len buf inp x r"
proof (induction len buf inp echo arbitrary: x r e rule: raw_loop.induct)
  case (1 len buf inp echo)
  note run = 1(5) [unfolded raw_loop.simps [of len buf inp echo]]
  show ?case
  proof (cases "length buf < len - 1")
    case False
    with run show ?thesis by (auto simp: raw_ok_def line_ok_def)
  next
    case room: True
    show ?thesis
    proof (cases inp)
      case Nil
      with room run show ?thesis by (auto simp: raw_ok_def line_ok_def split: if_splits)
    next
      case (Cons c cs)
      have bl: "list_all isprint buf \<Longrightarrow> list_all isprint (butlast buf)"
        by (auto simp: list_all_iff dest: in_set_butlastD)
      have room': "\<not> \<not> length buf < len - 1" using room by simp
      consider "char_code c = 3" | "char_code c = 4" | "char_code c = 8" "buf \<noteq> []" | "char_code c = 8" "buf = []"
        | "char_code c \<in> {13, 10}" | "32 \<le> char_code c" "char_code c \<le> 126"
        | "char_code c \<notin> {3, 4, 8, 13, 10}" "\<not> (32 \<le> char_code c \<and> char_code c \<le> 126)"
        by blast
      then show ?thesis
      proof cases
        case 3
        with run room Cons have "raw_loop len (butlast buf) cs (echo @ [c, CHR '' '', c]) = (x, r, e)" by simp
        from 1(1) [OF room' Cons refl _ _ _ _ this] 3 have "raw_ok len (butlast buf) cs x r" by simp
        then show ?thesis unfolding Cons by (rule raw_ok_step) (use room bl in auto)
      next
        case 4
        with run room Cons have "raw_loop len buf cs echo = (x, r, e)" by simp
        from 1(2) [OF room' Cons refl _ _ _ _ this] 4 have "raw_ok len buf cs x r" by simp
        then show ?thesis unfolding Cons by (rule raw_ok_step) (use room in auto)
      next
        case 6
        with run room Cons have "raw_loop len (buf @ [c]) cs (echo @ [c]) = (x, r, e)" by (simp add: Let_def)
        from 1(3) [OF room' Cons refl _ _ _ _ _ this] 6 have "raw_ok len (buf @ [c]) cs x r" by simp
        then show ?thesis unfolding Cons by (rule raw_ok_step) (use room 6 in \<open>auto simp: isprint_def\<close>)
      next
        case 7
        with run room Cons have "raw_loop len buf cs echo = (x, r, e)" by (auto simp: Let_def split: if_splits)
        from 1(4) [OF room' Cons refl _ _ _ _ _ this] 7 have "raw_ok len buf cs x r" by simp
        then show ?thesis unfolding Cons by (rule raw_ok_step) (use room in auto)
      qed (use run room Cons in \<open>auto simp: raw_ok_def line_ok_def NL_def Let_def split: if_splits\<close>)
    qed
  qed
qed

lemma readline_run:
  assumes "readline os len s = (y, s')"
  shows "\<exists>x. y = Inr x \<and> length (io_stdin s') \<le> length (io_stdin s) \<and>
    (1 < len \<and> x \<noteq> None \<longrightarrow> length (io_stdin s') < length (io_stdin s)) \<and>
    (\<forall>l. x = Some l \<longrightarrow> length l \<le> len - 1) \<and> io_maps s' = io_maps s \<and> io_quiet s' = io_quiet s \<and>
    (io_raw s' \<longrightarrow> io_raw s)"
proof (cases "\<not> io_quiet s \<and> fst (os_tcgetattr os (io_world s))")
  case False
  obtain x r where f: "fgets len (io_stdin s) = (x, r)" by fastforce
  from assms False f fgets_shorter [OF f] show ?thesis
    by (auto simp: readline_def exm_simps sys_def split: if_splits prod.splits)
next
  case True
  obtain x r e where l: "raw_loop len [] (io_stdin s) [] = (x, r, e)" by (metis surj_pair)
  from assms True l raw_loop_result [OF l] show ?thesis
    by (cases "io_stdin s") (auto simp: readline_def exm_simps sys_def put_out_def raw_ok_def line_ok_def split: prod.splits)
qed

subsection \<open>What the commands leave alone\<close>

lemma keeps_sys [keeps_intro]: "(\<And>s w. P s \<Longrightarrow> P (s\<lparr>io_world := w\<rparr>)) \<Longrightarrow> keeps P (sys f)"
  by (auto simp: keeps_def sys_def split: prod.splits)

lemma keeps_sysdo [keeps_intro]: "(\<And>s w. P s \<Longrightarrow> P (s\<lparr>io_world := w\<rparr>)) \<Longrightarrow> keeps P (sysdo f)"
  by (auto simp: keeps_def sysdo_def)

definition shell_frame :: "string \<Rightarrow> mapping list \<Rightarrow> bool \<Rightarrow> 'w io_state \<Rightarrow> bool" where
  "shell_frame inp ms q s \<longleftrightarrow> io_stdin s = inp \<and> io_maps s = ms \<and> io_quiet s = q"

lemma keeps_frame_base [keeps_intro]:
  "keeps (shell_frame inp ms q) (sys f)" "keeps (shell_frame inp ms q) (sysdo g)"
  "keeps (shell_frame inp ms q) (put_out t)" "keeps (shell_frame inp ms q) (put_err t)"
  by (auto intro!: keeps_intro simp: shell_frame_def put_out_def put_err_def)

lemma keeps_frame_memory [keeps_intro]:
  "keeps (shell_frame inp ms q) (load32 os v)" "keeps (shell_frame inp ms q) (store32 os v x)"
  "keeps (shell_frame inp ms q) (not_mapped addr len)" "keeps (shell_frame inp ms q) (at_offset m addr)"
  "keeps (shell_frame inp ms q) (dump addr words n)"
  by (auto intro!: keeps_intro simp: load32_def store32_def not_mapped_def at_offset_def dump_def)

lemma keeps_frame_words [keeps_intro]: "keeps (shell_frame inp ms q) (md_words os cap pv j n)"
  by (induction n arbitrary: pv j) (auto intro!: keeps_intro)

lemma keeps_frame_md [keeps_intro]: "keeps (shell_frame inp ms q) (md os addr len)"
  unfolding md_def by (intro keeps_intro)

lemma keeps_frame_mw [keeps_intro]: "keeps (shell_frame inp ms q) (mw os addr val len)"
  unfolding mw_def by (intro keeps_intro)

lemma keeps_frame_with_len [keeps_intro]:
  "(\<And>n. keeps (shell_frame inp ms q) (fn n)) \<Longrightarrow> keeps (shell_frame inp ms q) (with_len args len fn)"
  unfolding with_len_def by (cases args) (auto intro!: keeps_intro simp: Let_def split: prod.splits)

lemma keeps_frame_command [keeps_intro]: "keeps (shell_frame inp ms q) (run_command os command)"
  unfolding run_command_def Let_def
  by (auto intro!: keeps_intro split: list.splits prod.splits)

lemma keeps_frame_commands [keeps_intro]: "keeps (shell_frame inp ms q) (run_commands os commands)"
proof (induction commands)
  case Nil
  show ?case unfolding run_commands.simps by (rule keeps_ret)
next
  case (Cons c cs)
  show ?case unfolding run_commands.simps by (intro keeps_intro Cons)
qed

lemma keeps_frame_line [keeps_intro]: "keeps (shell_frame inp ms q) (io_line os line)"
proof -
  have "keeps (shell_frame inp ms q) (case r of Quit \<Rightarrow> ret True | Cmd_Ok \<Rightarrow> thenE prompt (ret False)
      | Cmd_Err \<Rightarrow> thenE (put_err command_usage) (thenE prompt (ret False)))" for r
    by (cases r) (auto intro!: keeps_intro simp: prompt_def)
  then show ?thesis unfolding io_line_def by (intro keeps_intro)
qed

lemma io_line_stdin: "io_line os line s = (y, s') \<Longrightarrow> io_stdin s' = io_stdin s"
  using keepsD [OF keeps_frame_line, of _ _ _ s] by (fastforce simp: shell_frame_def)

definition MAX_LINE_LEN :: nat where
  "MAX_LINE_LEN = 4096"

function io_loop :: "'w os \<Rightarrow> 'w io_state \<Rightarrow> (exn + int) \<times> 'w io_state" where
  "io_loop os s = (case readline os MAX_LINE_LEN s of
     (Inl e, s1) \<Rightarrow> (Inl e, s1)
   | (Inr None, s1) \<Rightarrow> (Inr 0, s1)
   | (Inr (Some line), s1) \<Rightarrow>
      (if line = [] then (Inr 0, s1)
       else case io_line os line s1 of
         (Inl e, s2) \<Rightarrow> (Inl e, s2)
       | (Inr done, s2) \<Rightarrow> if done then (Inr 0, s2) else io_loop os s2))"
  by pat_completeness auto
termination
proof (relation "measure (\<lambda>(os, s). length (io_stdin s))", goal_cases)
  case (2 os s r s1 x line r' s2 b)
  then have "readline os MAX_LINE_LEN s = (Inr (Some line), s1)" "io_line os line s1 = (r', s2)"
    by auto
  with readline_run [OF this(1)] io_line_stdin [OF this(2)] show ?case by (auto simp: MAX_LINE_LEN_def)
qed simp

declare io_loop.simps [simp del]

definition io :: "'w os \<Rightarrow> ('w io_state, int) exm" where
  "io os = thenE (bindE (gets io_quiet) (\<lambda>quiet. if quiet then ret () else put_out ''> '')) (io_loop os)"

section \<open>The command line\<close>

text \<open>The lines of \<open>/proc/cpuinfo\<close>, in a buffer of 128 characters, up to the one that names the processor.\<close>

definition cpu_line :: "string \<Rightarrow> bool" where
  "cpu_line cpuinfo = (let delim = [CHR 0x0D, CHR 0x0A, CHR 0x09, CHR '' '', CHR '':''] in
     strtok_cut delim cpuinfo = ''CPU'' \<and> (case tokens delim cpuinfo of
       _ # v # v' # _ \<Rightarrow> v = ''part'' \<and> v' = ''0xc07'' | _ \<Rightarrow> False))"

function probe_lines :: "string \<Rightarrow> bool" where
  "probe_lines f = (case fgets 128 f of
     (None, f') \<Rightarrow> False
   | (Some cpuinfo, f') \<Rightarrow> cpu_line cpuinfo \<or> probe_lines f')"
  by pat_completeness auto
termination
proof (relation "measure length", goal_cases)
  case (2 f x f' cpuinfo)
  then have "fgets 128 f = (Some cpuinfo, f')" by simp
  from fgets_shorter(2) [OF this] show ?case by simp
qed simp

declare probe_lines.simps [simp del]

definition probe_cpu :: "'w os \<Rightarrow> ('w io_state, cpu_type) exm" where
  "probe_cpu os = bindE (gets io_cpu) (\<lambda>this_cpu.
     if this_cpu \<noteq> CPU_NONE then ret this_cpu
     else bindE (sys (os_read_file os ''/proc/cpuinfo'')) (\<lambda>f. case f of
       None \<Rightarrow> ret CPU_NONE
     | Some f \<Rightarrow> if probe_lines f
         then bindE (gets io_quiet) (\<lambda>quiet. thenE (if quiet then ret () else put_err (''AST2600'' @ NL))
           (thenE (modify (\<lambda>s. s\<lparr>io_cpu := CPU_AST2600\<rparr>)) (ret CPU_AST2600)))
         else ret CPU_NONE))"

definition probe_cpu_for_map :: "'w os \<Rightarrow> ('w io_state, string) exm" where
  "probe_cpu_for_map os = bindE (probe_cpu os) (\<lambda>cpu. ret (case cpu of
     CPU_AST2600 \<Rightarrow> ''0:20000000,38000000:8000000,60000000:20000000'' | _ \<Rightarrow> []))"

definition usage_text :: string where
  "usage_text =
     ''Usage: io [-c config] [-m map]'' @ NL @
     ''       md [-c config] [-m map] <addr> [len]'' @ NL @
     ''       mw [-c config] [-m map] <addr> <val> [len]'' @ NL @ NL @
     ''With:      -c config    load mappings from file config'' @ NL @
     ''           -m map       load mappings from string map'' @ NL @
     ''           addr, val, len are all hex numbers'' @ NL @ NL @
     ''When invoked as io, this will start a shell that will'' @ NL @
     ''allow the user to type in md and mw commands much like'' @ NL @
     ''the U-Boot environment. By default, it will map in all'' @ NL @
     ''the addresses for the known processor type.'' @ NL @ NL @
     ''map string is of the format addr:len[,addr2:len2...]'' @ NL @
     ''config file is of the same format as map string'' @ NL @
     ''but with each mapping on separate lines instead of'' @ NL @
     ''comma separated values'' @ NL"

definition usage :: "('w io_state, 'a) exm" where
  "usage = thenE (put_err usage_text) (throw (Exit 1))"

text \<open>
  The loop over the options, on the arguments from the \<open>i\<close>-th on: the map string, the configuration file and
  the index of the first argument; \<open>None\<close> ends in \<open>usage\<close>.  The loop does not step over the value of an option.
\<close>

fun options :: "string list \<Rightarrow> nat \<Rightarrow> string option \<Rightarrow> string option \<Rightarrow> (string option \<times> string option \<times> nat) option" where
  "options [] i map_str cfg_file = Some (map_str, cfg_file, 1)"
| "options (arg # rest) i map_str cfg_file =
     (if starts_with ''-'' arg
      then if starts_with ''-m'' arg
        then (case rest of [] \<Rightarrow> None | v # _ \<Rightarrow> options rest (i + 1) (Some v) cfg_file)
        else if starts_with ''-c'' arg
        then (case rest of [] \<Rightarrow> None | v # _ \<Rightarrow> options rest (i + 1) map_str (Some v))
        else None
      else Some (map_str, cfg_file, i))"

text \<open>\<open>strtoul\<close> of an argument whose index may be past the end, where \<open>argv\<close> holds the null pointer.\<close>

definition arg_value :: "string list \<Rightarrow> nat \<Rightarrow> ('w io_state, u32) exm" where
  "arg_value argv i = (if i < length argv then ret (fst (strtoul16 (argv ! i)))
     else throw (Undefined_Behaviour ''null pointer''))"

definition run_exe :: "'w os \<Rightarrow> string \<Rightarrow> string list \<Rightarrow> nat \<Rightarrow> ('w io_state, int) exm" where
  "run_exe os exe argv first_arg =
     (let argc = length argv in
      if exe = ''md''
      then bindE (arg_value argv first_arg) (\<lambda>addr.
        bindE (if first_arg + 1 < argc then arg_value argv (first_arg + 1) else ret 0x40) (\<lambda>len. md os addr len))
      else if exe = ''mw''
      then bindE (arg_value argv first_arg) (\<lambda>addr.
        bindE (if first_arg + 1 < argc then arg_value argv (first_arg + 1) else usage) (\<lambda>val.
          bindE (if first_arg + 2 < argc then arg_value argv (first_arg + 2) else ret 1) (\<lambda>len. mw os addr val len)))
      else thenE (io os) (ret 0))"

definition set_quiet :: "'w os \<Rightarrow> string \<Rightarrow> ('w io_state, unit) exm" where
  "set_quiet os exe = bindE (if exe \<noteq> ''io'' then ret True else bindE (sys (os_isatty os)) (\<lambda>tty. ret (\<not> tty)))
     (\<lambda>q. if q then modify (\<lambda>s. s\<lparr>io_quiet := True\<rparr>) else ret ())"

definition map_string :: "'w os \<Rightarrow> string option \<Rightarrow> string option \<Rightarrow> ('w io_state, string option) exm" where
  "map_string os map_str cfg_file = (case map_str of
     Some m \<Rightarrow> ret (Some m)
   | None \<Rightarrow> (case cfg_file of
       None \<Rightarrow> bindE (probe_cpu_for_map os) (\<lambda>m. ret (Some m))
     | Some f \<Rightarrow> bindE (map_file os f 0 False False) (\<lambda>(ptr, flen). case ptr of
         None \<Rightarrow> ret None
       | Some p \<Rightarrow> gets (\<lambda>s. os_string os p (io_world s)))))"

definition main :: "'w os \<Rightarrow> string list \<Rightarrow> ('w io_state, int) exm" where
  "main os argv = (case options (drop 1 argv) 1 None None of
     None \<Rightarrow> usage
   | Some (map_str, cfg_file, first_arg) \<Rightarrow>
      if argv = [] then throw (Undefined_Behaviour ''null pointer'')
      else bindE (sys (os_malloc os (of_nat (length (hd argv)) + 1))) (\<lambda>exe_full.
        if \<not> exe_full then ret 0
        else let exe = basename (hd argv) in
          thenE (set_quiet os exe) (bindE (map_string os map_str cfg_file) (\<lambda>str. bindE (load_maps os str) (\<lambda>r.
            bindE (if r < 0
                   then thenE (put_err (''failed to map regions: check map string or config file'' @ NL)) (ret 0)
                   else run_exe os exe argv first_arg) (\<lambda>code.
              thenE (unmap_all os) (ret code)))))))"

end
