(* ===== verification/Io_Laws.thy ===== *)
theory Io_Laws
  imports Io_App
begin

text \<open>
  What the memory tool of \<open>Io_App\<close> promises: the text of a dump and how to read it back, the guard of \<open>md\<close> and
  \<open>mw\<close> and where it fails, the line editor, the commands, the map string and the options.
\<close>

section \<open>The text of a dump\<close>

definition word_bytes :: "u32 \<Rightarrow> u8 list" where
  "word_bytes w = map (\<lambda>iv. ucast (drop_bit (8 * (3 - iv)) w)) [0, 1, 2, 3]"

definition byte_digits :: "u8 \<Rightarrow> string" where
  "byte_digits b = [xdigit (unat (drop_bit 4 b)), xdigit (unat (b AND 0xF))]"

definition byte_char :: "u8 \<Rightarrow> char" where
  "byte_char b = (let c = char_of (unat b) in if isprint c then c else CHR ''.'')"

definition hex_column :: "u32 list \<Rightarrow> string" where
  "hex_column ws = concat (map (\<lambda>w. hex8 w @ '' '') ws)"

definition char_column :: "u32 list \<Rightarrow> string" where
  "char_column ws = map byte_char (concat (map word_bytes ws))"

definition line_text :: "u32 \<Rightarrow> u32 list \<Rightarrow> string" where
  "line_text phys ws = hex8 phys @ '': '' @ hex_column ws @ replicate (37 - length (hex_column ws)) CHR '' '' @
     char_column ws @ NL"

text \<open>Four words per line.\<close>

function dump_text :: "u32 \<Rightarrow> u32 list \<Rightarrow> string" where
  "dump_text phys ws = (if ws = [] then [] else line_text phys (take 4 ws) @ dump_text (phys + 16) (drop 4 ws))"
  by pat_completeness auto
termination by (relation "measure (\<lambda>(phys, ws). length ws)") auto

declare dump_text.simps [simp del]

text \<open>The buffer of a line while it is filled: the address, the two columns so far, blanks.\<close>

definition shape :: "string \<Rightarrow> string \<Rightarrow> string \<Rightarrow> string" where
  "shape A H S = A @ H @ drop (length H) (NUL # replicate 36 CHR '' '') @ S @ replicate (209 - length S) CHR '' ''"

lemma poke_hex:
  assumes "length A = 10" and "length H < 37"
  shows "poke (10 + length H) c (shape A H S) = Inr (shape A (H @ [c]) S)"
proof -
  let ?R = "NUL # replicate 36 CHR '' ''"
  have "drop (length H) ?R = ?R ! length H # drop (Suc (length H)) ?R"
    using assms(2) by (intro Cons_nth_drop_Suc [symmetric]) simp
  with assms show ?thesis by (simp add: poke_def shape_def list_update_append)
qed

lemma poke_char:
  assumes "length A = 10" and "length H \<le> 37" and "length S < 209"
  shows "poke (47 + length S) c (shape A H S) = Inr (shape A H (S @ [c]))"
proof -
  obtain n where n: "209 - length S = Suc n" "209 - Suc (length S) = n" using assms(3) by (cases "209 - length S") auto
  have "length (shape A H S) = 256" using assms by (simp add: shape_def)
  moreover have "(shape A H S)[47 + length S := c] = shape A H (S @ [c])"
  proof -
    have le: "\<not> 37 + length S < 37" "length H + (37 - length H) = 37" using assms(2) by simp_all
    have "(X @ S @ CHR '' '' # Z)[length X + length S := c] = X @ S @ c # Z" for X Z :: string
      by (simp add: list_update_append)
    from this [of "A @ H @ drop (length H) (NUL # replicate 36 CHR '' '')" "replicate n CHR '' ''"]
    show ?thesis using assms n by (simp add: shape_def)
  qed
  ultimately show ?thesis using assms(3) by (simp add: poke_def)
qed

lemma sprintf_at_run:
  "i + length cs < length line \<Longrightarrow> sprintf_at i cs line = Inr (take i line @ cs @ NUL # drop (Suc (i + length cs)) line)"
proof (induction cs arbitrary: i line)
  case Nil
  then show ?case by (simp add: poke_def upd_conv_take_nth_drop)
next
  case (Cons c cs)
  from Cons.prems have "sprintf_at (Suc i) cs (line[i := c]) =
      Inr (take (Suc i) (line[i := c]) @ cs @ NUL # drop (Suc (Suc i + length cs)) (line[i := c]))"
    by (intro Cons.IH) simp
  with Cons.prems show ?case by (simp add: poke_def take_Suc_conv_app_nth)
qed

lemma dump_byte_run:
  assumes "length A = 10" and "length H + 2 \<le> 37" and "length S < 209" and "iv \<le> 3"
    and "b = ucast (drop_bit (8 * (3 - iv)) w)"
  shows "dump_byte w iv (10 + length H, 47 + length S, shape A H S) =
    Inr (10 + length (H @ byte_digits b), 47 + length (S @ [byte_char b]), shape A (H @ byte_digits b) (S @ [byte_char b]))"
proof -
  have 1: "poke (10 + length H) c (shape A H S) = Inr (shape A (H @ [c]) S)" for c
    using assms(1,2) by (intro poke_hex) simp_all
  have 2: "poke (11 + length H) c' (shape A (H @ [c]) S) = Inr (shape A (H @ [c, c']) S)" for c c'
    using poke_hex [of A "H @ [c]" c' S] assms(1,2) by simp
  have 3: "poke (47 + length S) d (shape A (H @ [c, c']) S) = Inr (shape A (H @ [c, c']) (S @ [d]))" for c c' d
    using assms(1-3) by (intro poke_char) simp_all
  show ?thesis
    unfolding dump_byte_def using assms(5)
    by (simp add: Let_def 1 2 3 byte_digits_def byte_char_def)
qed

lemma nibbles:
  "unat (drop_bit 4 (ucast (drop_bit k w) :: u8)) = (unat (w :: u32) div 2 ^ (k + 4)) mod 16"
  "unat ((ucast (drop_bit k w) :: u8) AND 0xF) = (unat w div 2 ^ k) mod 16"
proof -
  have b: "unat (ucast (drop_bit k w) :: u8) = (unat w div 2 ^ k) mod 256"
    by (simp add: unsigned_ucast_eq unat_drop_bit_eq drop_bit_eq_div [of _ "unat w"] take_bit_eq_mod)
  have "unat (drop_bit 4 (ucast (drop_bit k w) :: u8)) = (unat w div 2 ^ k) mod 256 div 16"
    by (simp only: unat_drop_bit_eq b) (simp add: drop_bit_eq_div)
  also have "\<dots> = (unat w div 2 ^ k) div 16 mod 16"
    using mod_mult2_eq [of "unat w div 2 ^ k" 16 16] by simp
  finally show "unat (drop_bit 4 (ucast (drop_bit k w) :: u8)) = (unat w div 2 ^ (k + 4)) mod 16"
    by (simp add: div_mult2_eq power_add)
  have "unat ((ucast (drop_bit k w) :: u8) AND 0xF) = unat (ucast (drop_bit k w) :: u8) mod 16"
  proof -
    have "(ucast (drop_bit k w) :: u8) AND 0xF = take_bit 4 (ucast (drop_bit k w))"
      by (simp add: take_bit_eq_mask mask_eq_exp_minus_1)
    then show ?thesis by (simp only: unsigned_take_bit_eq) (simp add: take_bit_eq_mod)
  qed
  then show "unat ((ucast (drop_bit k w) :: u8) AND 0xF) = (unat w div 2 ^ k) mod 16"
    by (simp add: b mod_mod_cancel)
qed

lemma hex_pad_map: "hex_pad n v = map (\<lambda>i. xdigit (v div 16 ^ i mod 16)) (rev [0..<n])"
  by (induction n) simp_all

lemma hex8_bytes: "concat (map byte_digits (word_bytes w)) = hex8 w"
  unfolding hex8_def hex_pad_map word_bytes_def list.map concat.simps byte_digits_def nibbles
  by (simp add: upt_rec)

lemma length_hex_column [simp]: "length (hex_column ws) = 9 * length ws"
  by (induction ws) (simp_all add: hex_column_def)

lemma length_char_column [simp]: "length (char_column ws) = 4 * length ws"
  by (induction ws) (simp_all add: char_column_def word_bytes_def)

lemma dump_word_run:
  assumes "length A = 10" and "length H + 9 \<le> 37" and "length S + 4 \<le> 209"
  shows "dump_word w (10 + length H, 47 + length S, shape A H S) =
    Inr (10 + length (H @ hex8 w @ '' ''), 47 + length (S @ map byte_char (word_bytes w)),
      shape A (H @ hex8 w @ '' '') (S @ map byte_char (word_bytes w)))"
proof -
  have len: "length (byte_digits b) = 2" for b by (simp add: byte_digits_def)
  have fold: "foldS (dump_byte w) ivs (10 + length H, 47 + length S, shape A H S) =
      Inr (10 + length (H @ concat (map byte_digits bs)), 47 + length (S @ map byte_char bs),
        shape A (H @ concat (map byte_digits bs)) (S @ map byte_char bs))"
    if "bs = map (\<lambda>iv. ucast (drop_bit (8 * (3 - iv)) w)) ivs" "length H + 2 * length ivs \<le> 37"
      "length S + length ivs \<le> 209" "\<forall>iv \<in> set ivs. iv \<le> 3" for ivs bs H S
    using that
  proof (induction ivs arbitrary: bs H S)
    case (Cons iv ivs)
    let ?b = "ucast (drop_bit (8 * (3 - iv)) w) :: u8" and ?bs = "map (\<lambda>iv. ucast (drop_bit (8 * (3 - iv)) w) :: u8) ivs"
    have "dump_byte w iv (10 + length H, 47 + length S, shape A H S) =
        Inr (10 + length (H @ byte_digits ?b), 47 + length (S @ [byte_char ?b]), shape A (H @ byte_digits ?b) (S @ [byte_char ?b]))"
      using Cons.prems assms(1) by (intro dump_byte_run) simp_all
    with Cons.IH [of ?bs "H @ byte_digits ?b" "S @ [byte_char ?b]"] Cons.prems len show ?case by simp
  qed simp
  have "foldS (dump_byte w) [0, 1, 2, 3] (10 + length H, 47 + length S, shape A H S) =
      Inr (10 + length (H @ concat (map byte_digits (word_bytes w))), 47 + length (S @ map byte_char (word_bytes w)),
        shape A (H @ concat (map byte_digits (word_bytes w))) (S @ map byte_char (word_bytes w)))"
    by (rule fold) (use assms in \<open>simp_all add: word_bytes_def\<close>)
  note bytes = this [unfolded hex8_bytes]
  have "poke (10 + length (H @ hex8 w)) CHR '' '' (shape A (H @ hex8 w) S') = Inr (shape A ((H @ hex8 w) @ '' '') S')" for S'
    using assms by (intro poke_hex) simp_all
  with bytes show ?thesis by (simp add: dump_word_def)
qed

lemma foldS_dump_word:
  assumes "length A = 10" and "length H + 9 * length ws \<le> 37" and "length S + 4 * length ws \<le> 209"
  shows "foldS dump_word ws (10 + length H, 47 + length S, shape A H S) =
    Inr (10 + length (H @ hex_column ws), 47 + length (S @ char_column ws), shape A (H @ hex_column ws) (S @ char_column ws))"
  using assms
proof (induction ws arbitrary: H S)
  case Nil
  then show ?case by (simp add: hex_column_def char_column_def)
next
  case (Cons w ws)
  have len: "length (word_bytes w) = 4" by (simp add: word_bytes_def)
  have "dump_word w (10 + length H, 47 + length S, shape A H S) =
    Inr (10 + length (H @ hex8 w @ '' ''), 47 + length (S @ map byte_char (word_bytes w)),
      shape A (H @ hex8 w @ '' '') (S @ map byte_char (word_bytes w)))"
    using Cons.prems by (intro dump_word_run) simp_all
  with Cons.IH [of "H @ hex8 w @ '' ''" "S @ map byte_char (word_bytes w)"] Cons.prems len show ?case
    by (simp add: hex_column_def char_column_def)
qed

lemma byte_char_print: "isprint (byte_char b)"
  by (simp add: byte_char_def Let_def isprint_def char_code_def)

lemma print_not: "isprint c \<Longrightarrow> c \<noteq> NUL \<and> c \<noteq> CHR 0x0A"
  by (auto simp: isprint_def char_code_def NUL_def)

lemma columns_print:
  "c \<in> set (hex_column ws) \<Longrightarrow> isprint c" "c \<in> set (char_column ws) \<Longrightarrow> isprint c" "c \<in> set (hex8 w) \<Longrightarrow> isprint c"
proof -
  have b: "isprint CHR '' ''" by (simp add: isprint_def char_code_def)
  show "c \<in> set (hex_column ws) \<Longrightarrow> isprint c" "c \<in> set (hex8 w) \<Longrightarrow> isprint c"
    using hex_fixed.print_class b by (auto simp: hex_column_def split: if_splits)
  show "c \<in> set (char_column ws) \<Longrightarrow> isprint c"
    using byte_char_print by (auto simp: char_column_def)
qed

lemma dump_line_run:
  assumes "ws \<noteq> []" and "length ws \<le> 4"
  shows "dump_line phys ws = Inr (line_text phys ws)"
proof -
  define A where "A = hex8 phys @ '': ''"
  have A: "length A = 10" by (simp add: A_def)
  have "sprintf_at 0 A (replicate 256 CHR '' '') = Inr (take 0 (replicate 256 CHR '' '') @ A @ NUL # drop (Suc (0 + length A)) (replicate 256 CHR '' ''))"
    by (rule sprintf_at_run) (simp add: A)
  moreover have "take 0 (replicate 256 CHR '' '') @ A @ NUL # drop (Suc (0 + length A)) (replicate 256 CHR '' '') = shape A [] []"
    by (simp add: shape_def A flip: replicate_add)
  ultimately have 1: "sprintf_at 0 (hex8 phys @ '': '') (replicate 256 CHR '' '') = Inr (shape A [] [])"
    by (simp add: A_def)
  have 2: "foldS dump_word ws (10, 47, shape A [] []) =
      Inr (10 + length (hex_column ws), 47 + length (char_column ws), shape A (hex_column ws) (char_column ws))"
    using foldS_dump_word [of A "[]" ws "[]"] A assms(2) by simp
  have 3: "poke (47 + length (char_column ws)) CHR 0x0A (shape A (hex_column ws) (char_column ws)) =
      Inr (shape A (hex_column ws) (char_column ws @ NL))"
    using poke_char [of A "hex_column ws" "char_column ws" "CHR 0x0A"] A assms(2) by (simp add: NL_def)
  have 4: "poke (47 + length (char_column ws) + 1) NUL (shape A (hex_column ws) (char_column ws @ NL)) =
      Inr (shape A (hex_column ws) (char_column ws @ NL @ [NUL]))"
    using poke_char [of A "hex_column ws" "char_column ws @ NL" NUL] A assms(2) by (simp add: NL_def)
  have drop: "drop (length (hex_column ws)) (NUL # replicate 36 CHR '' '') = replicate (37 - length (hex_column ws)) CHR '' ''"
    using assms(1) by (cases "length (hex_column ws)") auto
  have "shape A (hex_column ws) (char_column ws @ NL @ [NUL]) =
      line_text phys ws @ NUL # replicate (209 - length (char_column ws @ NL @ [NUL])) CHR '' ''"
    by (simp only: shape_def drop) (simp add: line_text_def A_def)
  moreover have "\<forall>c \<in> set (line_text phys ws). c \<noteq> NUL"
    using columns_print print_not by (fastforce simp: line_text_def NL_def NUL_def)
  ultimately have 5: "fputs (shape A (hex_column ws) (char_column ws @ NL @ [NUL])) = Inr (line_text phys ws)"
    by (simp add: fputs_def takeWhile_append2)
  show ?thesis
    unfolding dump_line_def by (simp only: 1 2 3 4 5 sum_bind_simps prod.case)
qed

lemma dump_from_run:
  "wd \<le> len \<Longrightarrow> len - wd \<le> length ubuf \<Longrightarrow>
     dump_from phys ubuf wd len = Inr (len, dump_text (phys + of_nat wd * 4) (take (len - wd) ubuf))"
proof (induction phys ubuf wd len rule: dump_from.induct)
  case (1 phys ubuf wd len)
  show ?case
  proof (cases "wd < len")
    case False
    with 1(2) show ?thesis by (subst dump_from.simps, subst dump_text.simps) simp
  next
    case True
    define l where "l = min 4 (len - wd)"
    have l: "0 < l" "l \<le> 4" "wd + l \<le> len" "l \<le> length ubuf" using True 1(3) by (auto simp: l_def)
    have line: "dump_line (phys + of_nat wd * 4) (take l ubuf) = Inr (line_text (phys + of_nat wd * 4) (take l ubuf))"
      using l by (intro dump_line_run) auto
    have rest: "dump_from phys (drop l ubuf) (wd + l) len =
        Inr (len, dump_text (phys + of_nat (wd + l) * 4) (take (len - (wd + l)) (drop l ubuf)))"
      using 1(1) [OF True l_def] l 1(3) by auto
    have ne: "take (len - wd) ubuf \<noteq> []" using True 1(3) by auto
    have "take 4 (take (len - wd) ubuf) = take l ubuf" by (simp add: l_def)
    moreover have "dump_text (phys + of_nat wd * 4 + 16) (drop 4 (take (len - wd) ubuf)) =
        dump_text (phys + of_nat (wd + l) * 4) (take (len - (wd + l)) (drop l ubuf))"
    proof (cases "len - wd < 4")
      case True
      then show ?thesis using l by (simp add: l_def dump_text.simps [of _ "[]"])
    next
      case False
      then have "l = 4" by (simp add: l_def)
      then show ?thesis by (simp add: drop_take algebra_simps)
    qed
    ultimately have "dump_text (phys + of_nat wd * 4) (take (len - wd) ubuf) =
        line_text (phys + of_nat wd * 4) (take l ubuf) @
        dump_text (phys + of_nat (wd + l) * 4) (take (len - (wd + l)) (drop l ubuf))"
      using ne dump_text.simps [of "phys + of_nat wd * 4" "take (len - wd) ubuf"] by simp
    with True l line rest show ?thesis
      by (subst dump_from.simps) (simp add: Let_def flip: l_def)
  qed
qed

section \<open>Reading a dump back\<close>

definition words_of_line :: "string \<Rightarrow> u32 list" where
  "words_of_line l = map (\<lambda>t. fst (strtoul16 t)) (tokens '' '' (take 37 (drop 10 l)))"

definition address_of_line :: "string \<Rightarrow> u32" where
  "address_of_line l = fst (strtoul16 (take 8 l))"

lemma tokens_blanks: "tokens '' '' (replicate n CHR '' '') = []"
  by (subst tokens.simps) (simp add: strtok_def)

lemma line_of_text:
  assumes "length ws \<le> 4"
  shows "\<exists>l. line_text phys ws = l @ NL \<and> is_token NL l \<and> words_of_line l = ws \<and> address_of_line l = phys"
proof -
  define l where "l = hex8 phys @ '': '' @ hex_column ws @ replicate (37 - length (hex_column ws)) CHR '' '' @ char_column ws"
  have "is_token NL l"
    using columns_print print_not by (fastforce simp: is_token_def l_def NL_def)
  moreover have "words_of_line l = ws"
  proof -
    have "take 37 (drop 10 l) = concat (map (\<lambda>w. hex8 w @ [CHR '' '']) ws) @ replicate (37 - length (hex_column ws)) CHR '' ''"
      using assms by (simp add: l_def hex_column_def [symmetric])
    moreover have "isspace CHR '' ''" by (simp add: isspace_def char_code_def)
    ultimately show ?thesis
      unfolding words_of_line_def
      using hex_fixed.read_terminated [of "CHR '' ''" "'' ''" "replicate (37 - length (hex_column ws)) CHR '' ''" ws]
      by (simp add: tokens_blanks)
  qed
  moreover have "address_of_line l = phys" by (simp add: address_of_line_def l_def)
  ultimately show ?thesis by (intro exI [of _ l]) (simp add: line_text_def l_def)
qed

lemma dump_text_lines:
  "concat (map words_of_line (tokens NL (dump_text phys ws))) = ws \<and>
   map address_of_line (tokens NL (dump_text phys ws)) = map (\<lambda>i. phys + 16 * of_nat i) [0..<(length ws + 3) div 4]"
proof (induction phys ws rule: dump_text.induct)
  case (1 phys ws)
  show ?case
  proof (cases "ws = []")
    case True
    then show ?thesis by (simp add: dump_text.simps)
  next
    case False
    obtain l where l: "line_text phys (take 4 ws) = l @ NL" "is_token NL l" "words_of_line l = take 4 ws" "address_of_line l = phys"
      using line_of_text [of "take 4 ws" phys] by auto
    have "tokens NL (l @ NL @ r) = l # tokens NL r" for r
      using tokens_Cons_token [of l NL "CHR 0x0A" r] l(2) by (simp add: is_token_def NL_def)
    with l(1) False have "tokens NL (dump_text phys ws) = l # tokens NL (dump_text (phys + 16) (drop 4 ws))"
      by (subst dump_text.simps) simp
    moreover have "(length ws + 3) div 4 = Suc ((length (drop 4 ws) + 3) div 4)"
      using False by (cases "length ws \<le> 4") (auto simp: Suc_leI le_div_geq neq_Nil_conv)
    ultimately show ?thesis
      using 1 [OF False] l(3,4) by (simp add: map_upt_Suc algebra_simps del: upt_Suc)
  qed
qed

text \<open>The text of a dump is exactly the documented layout: for every four words a line with the address in eight
  digits, the words in a column of fixed width and their bytes as characters, dots for those that cannot be
  printed; the line buffer is never exceeded.\<close>

theorem dump_exact:
  assumes "n \<le> length ubuf"
  shows "dump_from phys ubuf 0 n = Inr (n, dump_text phys (take n ubuf))"
  using dump_from_run [of 0 n ubuf phys] assms by simp

theorem dump_exact_witness:
  "dump_from 0x1000 [0x41424344, 0xFF] 0 2 = Inr (2, dump_text 0x1000 [0x41424344, 0xFF])"
  using dump_exact [of 2 "[0x41424344, 0xFF]" "0x1000"] by simp

text \<open>C28: A dump can be read back with the number parser of the same tool: the columns of its lines are the words of
  the buffer in order, and the addresses of the lines are those of their first words, in steps of sixteen.\<close>

theorem dump_roundtrip:
  assumes "n \<le> length ubuf"
  shows "\<exists>text. dump_from phys ubuf 0 n = Inr (n, text) \<and>
    concat (map words_of_line (tokens NL text)) = take n ubuf \<and>
    map address_of_line (tokens NL text) = map (\<lambda>i. phys + 16 * of_nat i) [0..<(n + 3) div 4]"
  using dump_from_run [of 0 n ubuf phys] dump_text_lines [of phys "take n ubuf"] assms by (simp add: min_absorb2)

theorem dump_roundtrip_witness:
  "\<exists>text. dump_from 0xFFFFFFF0 [1, 2, 3, 4, 5] 0 5 = Inr (5, text) \<and>
     concat (map words_of_line (tokens NL text)) = [1, 2, 3, 4, 5] \<and>
     map address_of_line (tokens NL text) = [0xFFFFFFF0, 0]"
proof -
  have "map (\<lambda>i. (0xFFFFFFF0 :: u32) + 16 * of_nat i) [0..<2] = [0xFFFFFFF0, 0]"
    by (simp add: upt_rec)
  with dump_roundtrip [of 5 "[1, 2, 3, 4, 5]" "0xFFFFFFF0"] show ?thesis by simp
qed

section \<open>Memory\<close>

text \<open>What the operating system and \<open>load_maps\<close> make of a mapping: aligned, and inside the address space.\<close>

definition mapping_ok :: "mapping \<Rightarrow> bool" where
  "mapping_ok m \<longleftrightarrow> (\<exists>b. mp_virt m = Some b \<and> 4 dvd unat b \<and> unat b + unat (mp_len m) \<le> 2 ^ 32) \<and>
     4 dvd unat (mp_phys m) \<and> unat (mp_phys m) + unat (mp_len m) < 2 ^ 32"

definition range_ok :: "u32 \<Rightarrow> u32 \<Rightarrow> bool" where
  "range_ok addr len \<longleftrightarrow> 4 dvd unat addr \<and> unat addr + 4 * unat len < 2 ^ 32"

lemma unat_plus: "unat (x :: u32) + unat y < 2 ^ 32 \<Longrightarrow> unat (x + y) = unat x + unat y"
  by (simp add: unat_word_ariths)

lemma unat_times4: "4 * unat (x :: u32) < 2 ^ 32 \<Longrightarrow> unat (x * 4) = 4 * unat x"
  by (simp add: unat_word_ariths)

lemma unat_nat4: "4 * k < 2 ^ 32 \<Longrightarrow> unat (of_nat k * 4 :: u32) = 4 * k"
  by (simp add: unat_word_ariths unat_of_nat take_bit_eq_mod)

lemma unat_minus: "(y :: u32) \<le> x \<Longrightarrow> unat (x - y) = unat x - unat y"
  by (simp add: word_le_nat_alt unat_sub)

lemma covers_iff:
  assumes "mapping_ok m" and "range_ok addr len"
  shows "covers addr len m \<longleftrightarrow> mp_phys m \<noteq> - 1 \<and> unat (mp_phys m) \<le> unat addr \<and>
    unat addr + 4 * unat len < unat (mp_phys m) + unat (mp_len m)"
proof -
  have "unat (addr + len * 4) = unat addr + 4 * unat len"
    using assms(2) unat_times4 [of len] by (simp add: range_ok_def unat_plus)
  moreover have "unat (mp_phys m + mp_len m) = unat (mp_phys m) + unat (mp_len m)"
    using assms(1) by (simp add: mapping_ok_def unat_plus)
  ultimately show ?thesis by (simp add: covers_def word_less_nat_alt word_le_nat_alt)
qed

lemma covered_pointer:
  assumes "mapping_ok m" and "range_ok addr len" and "covers addr len m" and "mp_virt m = Some b" and "j \<le> unat len"
  shows "unat (b + (addr - mp_phys m) + of_nat j * 4) = unat b + (unat addr - unat (mp_phys m)) + 4 * j"
    and "4 dvd unat (b + (addr - mp_phys m) + of_nat j * 4)"
    and "unat b + (unat addr - unat (mp_phys m)) + 4 * unat len < unat b + unat (mp_len m)"
proof -
  note c = covers_iff [THEN iffD1, OF assms(1-3)]
  have b: "4 dvd unat b" "unat b + unat (mp_len m) \<le> 2 ^ 32" "4 dvd unat (mp_phys m)" "4 dvd unat addr"
    using assms(1,2,4) by (auto simp: mapping_ok_def range_ok_def)
  show lim: "unat b + (unat addr - unat (mp_phys m)) + 4 * unat len < unat b + unat (mp_len m)"
    using c by linarith
  have d: "unat (addr - mp_phys m) = unat addr - unat (mp_phys m)"
    using c by (intro unat_minus) (simp add: word_le_nat_alt)
  have "unat (b + (addr - mp_phys m)) = unat b + (unat addr - unat (mp_phys m))"
    using d b(2) lim by (subst unat_plus) simp_all
  moreover have "unat (of_nat j * 4 :: u32) = 4 * j"
    using assms(5) b(2) lim by (intro unat_nat4) simp
  ultimately show eq: "unat (b + (addr - mp_phys m) + of_nat j * 4) = unat b + (unat addr - unat (mp_phys m)) + 4 * j"
    using assms(5) b(2) lim by (subst unat_plus) simp_all
  show "4 dvd unat (b + (addr - mp_phys m) + of_nat j * 4)"
    unfolding eq using b by (intro dvd_add dvd_diff_nat) simp_all
qed

lemma covered_accessible:
  assumes "m \<in> set ms" and "mapping_ok m" and "range_ok addr len" and "covers addr len m" and "mp_virt m = Some b" and "j < unat len"
  shows "accessible ms (b + (addr - mp_phys m) + of_nat j * 4)"
  using covered_pointer [OF assms(2-5), of j] assms(1,5,6)
  by (auto simp: accessible_def intro!: bexI [of _ m])

lemma md_words_run:
  assumes "\<forall>k<n. accessible (io_maps s) (pv + of_nat k * 4)" and "4 * (j + n) \<le> unat cap"
  shows "\<exists>xs s'. md_words os cap pv j n s = (Inr xs, s') \<and> length xs = n \<and>
    (\<forall>M. (\<forall>v w. os_load os v w = (M v, w)) \<longrightarrow> xs = map (\<lambda>k. M (pv + of_nat k * 4)) [0..<n] \<and> s' = s)"
  using assms
proof (induction n arbitrary: pv j s)
  case (Suc n)
  obtain x w where ld: "os_load os pv (io_world s) = (x, w)" by fastforce
  have "accessible (io_maps s) pv" using Suc.prems(1) [rule_format, of 0] by simp
  with ld have 1: "load32 os pv s = (Inr x, s\<lparr>io_world := w\<rparr>)" by (simp add: load32_def exm_simps sys_def)
  have "\<forall>k<n. accessible (io_maps (s\<lparr>io_world := w\<rparr>)) (pv + 4 + of_nat k * 4)"
    using Suc.prems(1) by (force simp: algebra_simps dest: spec [of _ "Suc _"])
  from Suc.IH [OF this, of "Suc j"] Suc.prems(2)
  obtain xs s' where 2: "md_words os cap (pv + 4) (Suc j) n (s\<lparr>io_world := w\<rparr>) = (Inr xs, s')" "length xs = n"
    "\<And>M. \<forall>v w. os_load os v w = (M v, w) \<Longrightarrow> xs = map (\<lambda>k. M (pv + 4 + of_nat k * 4)) [0..<n] \<and> s' = s\<lparr>io_world := w\<rparr>"
    by auto
  have "x # xs = map (\<lambda>k. M (pv + of_nat k * 4)) [0..<Suc n] \<and> s' = s" if M: "\<forall>v w. os_load os v w = (M v, w)" for M
    using 2(3) [OF M] M ld by (simp add: map_upt_Suc algebra_simps del: upt_Suc)
  with 1 2(1,2) Suc.prems(2) show ?case by (auto simp: exm_simps)
qed simp

text \<open>The mapping a command finds and the pointer it uses.\<close>

lemma find_covers:
  assumes "\<forall>m \<in> set ms. mapping_ok m" and "find (covers addr len) ms = Some m"
  shows "m \<in> set ms \<and> covers addr len m \<and> mapping_ok m \<and> (\<exists>b. mp_virt m = Some b)"
  using assms by (auto simp: find_Some_iff mapping_ok_def)

lemma md_run:
  assumes "\<forall>m \<in> set (io_maps s). mapping_ok m" and "range_ok addr len" and "find (covers addr len) (io_maps s) = Some m"
    and "mp_virt m = Some b" and "os_malloc os (len * 4) (io_world s) = (True, w)"
  shows "\<exists>xs s'. md os addr len s = (Inr 0, s'\<lparr>io_stdout := io_stdout s' @ dump_text addr xs\<rparr>) \<and>
    md_words os (len * 4) (b + (addr - mp_phys m)) 0 (unat len) (s\<lparr>io_world := w\<rparr>) = (Inr xs, s') \<and> length xs = unat len"
proof -
  note m = find_covers [OF assms(1,3)]
  have acc: "\<forall>k<unat len. accessible (io_maps (s\<lparr>io_world := w\<rparr>)) (b + (addr - mp_phys m) + of_nat k * 4)"
    using covered_accessible [of m _ addr len b] m assms(2,4) by simp
  have cap: "4 * (0 + unat len) \<le> unat (len * 4)" using assms(2) by (simp add: range_ok_def unat_times4)
  obtain xs s' where r: "md_words os (len * 4) (b + (addr - mp_phys m)) 0 (unat len) (s\<lparr>io_world := w\<rparr>) = (Inr xs, s')"
    "length xs = unat len"
    using md_words_run [OF acc cap, of os] by blast
  have "dump_from addr xs 0 (unat len) = Inr (unat len, dump_text addr xs)"
    using dump_from_run [of 0 "unat len" xs addr] r(2) by simp
  with r assms(3-5) show ?thesis
    by (auto simp: md_def exm_simps sys_def at_offset_def dump_def put_out_def)
qed

lemma mw_run:
  assumes "\<forall>m \<in> set (io_maps s). mapping_ok m" and "range_ok addr len" and "find (covers addr len) (io_maps s) = Some m"
    and "mp_virt m = Some b"
  shows "mw os addr val len s = (Inr 0, s\<lparr>io_world := (os_store os (b + (addr - mp_phys m)) val ^^ unat len) (io_world s)\<rparr>)"
proof -
  note m = find_covers [OF assms(1,3)]
  let ?p = "b + (addr - mp_phys m)"
  let ?body = "\<lambda>j. bindE (at_offset m addr) (\<lambda>p. if 2 ^ 31 \<le> j + 1 then throw (Undefined_Behaviour ''signed overflow'') else store32 os p val)"
  have acc: "accessible (io_maps s) ?p" if "0 < unat len"
    using covered_accessible [of m _ addr len b 0] m assms(2,4) that by simp
  have "forE js ?body t = (Inr (), t\<lparr>io_world := (os_store os ?p val ^^ length js) (io_world t)\<rparr>)"
    if "\<forall>j \<in> set js. j < unat len" "io_maps t = io_maps s" for js t
    using that
  proof (induction js arbitrary: t)
    case (Cons j js)
    have small: "\<not> 2 ^ 31 \<le> j + 1" using Cons.prems(1) assms(2) by (simp add: range_ok_def)
    have "0 < unat len" using Cons.prems(1) by auto
    with acc Cons.prems(2) small assms(4)
    have "?body j t = (Inr (), t\<lparr>io_world := os_store os ?p val (io_world t)\<rparr>)"
      by (simp add: at_offset_def exm_simps store32_def sysdo_def)
    with Cons.IH [of "t\<lparr>io_world := os_store os ?p val (io_world t)\<rparr>"] Cons.prems show ?case
      by (simp add: thenE_apply funpow_swap1)
  qed simp
  from this [of "[0..<unat len]" s] assms(3) show ?thesis
    by (simp add: mw_def exm_simps)
qed

section \<open>A concrete system\<close>

text \<open>A memory that holds its own addresses and a log of what is written.\<close>

definition demo_os :: "(u32 \<times> u32) list os" where
  "demo_os = \<lparr>os_open = (\<lambda>f wr w. (3, w)), os_close = (\<lambda>fd w. w), os_fstat = (\<lambda>fd w. (Some 0x1000, w)),
     os_mmap = (\<lambda>len wr sh fd off w. (Some (off + 0x10000000), w)), os_munmap = (\<lambda>v len w. w),
     os_malloc = (\<lambda>n w. (True, w)), os_load = (\<lambda>v w. (v, w)), os_store = (\<lambda>v x w. w @ [(v, x)]),
     os_string = (\<lambda>p w. Some ''0:1000''), os_read_file = (\<lambda>f w. (None, w)), os_tcgetattr = (\<lambda>w. (True, w)),
     os_isatty = (\<lambda>w. (True, w))\<rparr>"

definition demo_io :: "string \<Rightarrow> (u32 \<times> u32) list io_state" where
  "demo_io inp = \<lparr>io_quiet = False, io_maps = [\<lparr>mp_phys = 0x1000, mp_virt = Some 0x20000000, mp_len = 0x100\<rparr>],
     io_cpu = CPU_NONE, io_stdout = [], io_stderr = [], io_stdin = inp, io_raw = False, io_world = []\<rparr>"

lemma demo_mapping_ok: "\<forall>m \<in> set (io_maps (demo_io inp)). mapping_ok m"
  by (simp add: demo_io_def mapping_ok_def)

lemma funpow_two: "(f ^^ 2) x = f (f x)"
  by (simp add: numeral_2_eq_2)

section \<open>The commands md and mw\<close>

text \<open>C27: For an aligned range that does not wrap around, \<open>md\<close> prints exactly the words behind the first mapping that
  contains the range and a byte more, changing nothing else, and reports every other range as not mapped.\<close>

theorem md_exact:
  assumes "\<forall>m \<in> set (io_maps s). mapping_ok m" and "range_ok addr len"
    and "\<forall>v w. os_load os v w = (M v, w)" and "\<forall>n w. fst (os_malloc os n w)"
  shows "case find (covers addr len) (io_maps s) of
      None \<Rightarrow> md os addr len s =
        (Inr 1, s\<lparr>io_stderr := io_stderr s @ hex addr @ '' +'' @ hex len @ '' not in mapped memory'' @ NL\<rparr>)
    | Some m \<Rightarrow> \<exists>b w. mp_virt m = Some b \<and> unat (mp_phys m) \<le> unat addr \<and>
        unat addr + 4 * unat len < unat (mp_phys m) + unat (mp_len m) \<and>
        md os addr len s = (Inr 0, s\<lparr>io_world := w, io_stdout := io_stdout s @
          dump_text addr (map (\<lambda>k. M (b + (addr - mp_phys m) + of_nat k * 4)) [0..<unat len])\<rparr>)"
proof (cases "find (covers addr len) (io_maps s)")
  case None
  then show ?thesis by (simp add: md_def exm_simps not_mapped_def put_err_def)
next
  case (Some m)
  note m = find_covers [OF assms(1) Some]
  then obtain b where b: "mp_virt m = Some b" by blast
  obtain w where w: "os_malloc os (len * 4) (io_world s) = (True, w)"
    using assms(4) by (metis prod.collapse)
  from md_run [OF assms(1,2) Some b w] obtain xs s' where
    r: "md os addr len s = (Inr 0, s'\<lparr>io_stdout := io_stdout s' @ dump_text addr xs\<rparr>)"
    "md_words os (len * 4) (b + (addr - mp_phys m)) 0 (unat len) (s\<lparr>io_world := w\<rparr>) = (Inr xs, s')"
    by blast
  have acc: "\<forall>k<unat len. accessible (io_maps (s\<lparr>io_world := w\<rparr>)) (b + (addr - mp_phys m) + of_nat k * 4)"
    using covered_accessible [of m _ addr len b] m assms(2) b by simp
  have cap: "4 * (0 + unat len) \<le> unat (len * 4)" using assms(2) by (simp add: range_ok_def unat_times4)
  from md_words_run [OF acc cap, of os] r(2) assms(3)
  have "xs = map (\<lambda>k. M (b + (addr - mp_phys m) + of_nat k * 4)) [0..<unat len]" "s' = s\<lparr>io_world := w\<rparr>"
    by auto
  with r(1) Some b covers_iff [of m addr len] m assms(2) show ?thesis by auto
qed

theorem md_exact_witness:
  "\<exists>w. md demo_os 0x1010 2 (demo_io []) =
     (Inr 0, (demo_io [])\<lparr>io_world := w, io_stdout := dump_text 0x1010 [0x20000010, 0x20000014]\<rparr>)"
proof -
  have "range_ok 0x1010 2" by (simp add: range_ok_def)
  moreover have "\<forall>v w. os_load demo_os v w = (v, w)" "\<forall>n w. fst (os_malloc demo_os n w)" by (simp_all add: demo_os_def)
  moreover have "find (covers 0x1010 2) (io_maps (demo_io [])) = Some \<lparr>mp_phys = 0x1000, mp_virt = Some 0x20000000, mp_len = 0x100\<rparr>"
    by (simp add: demo_io_def covers_def)
  moreover have "[0..<unat (2 :: u32)] = [0, 1]" by (simp add: upt_rec)
  ultimately show ?thesis
    using md_exact [OF demo_mapping_ok, of "0x1010" 2 demo_os "\<lambda>v. v" "[]"] by (auto simp: demo_io_def)
qed

text \<open>For an aligned range that does not wrap around, \<open>mw\<close> writes the value as many times as the length says, but
  always to the first word of the range, and writes nothing when no mapping contains the range.\<close>

theorem mw_exact:
  assumes "\<forall>m \<in> set (io_maps s). mapping_ok m" and "range_ok addr len"
  shows "case find (covers addr len) (io_maps s) of
      None \<Rightarrow> mw os addr val len s =
        (Inr 1, s\<lparr>io_stderr := io_stderr s @ hex addr @ '' +'' @ hex len @ '' not in mapped memory'' @ NL\<rparr>)
    | Some m \<Rightarrow> \<exists>b. mp_virt m = Some b \<and> mw os addr val len s =
        (Inr 0, s\<lparr>io_world := (os_store os (b + (addr - mp_phys m)) val ^^ unat len) (io_world s)\<rparr>)"
proof (cases "find (covers addr len) (io_maps s)")
  case None
  then show ?thesis by (simp add: mw_def exm_simps not_mapped_def put_err_def)
next
  case (Some m)
  with find_covers [OF assms(1) Some] mw_run [OF assms Some] show ?thesis by auto
qed

theorem mw_exact_witness:
  "mw demo_os 0x1010 7 2 (demo_io []) = (Inr 0, (demo_io [])\<lparr>io_world := [(0x20000010, 7), (0x20000010, 7)]\<rparr>)"
proof -
  have "range_ok 0x1010 2" by (simp add: range_ok_def)
  moreover have "find (covers 0x1010 2) (io_maps (demo_io [])) = Some \<lparr>mp_phys = 0x1000, mp_virt = Some 0x20000000, mp_len = 0x100\<rparr>"
    by (simp add: demo_io_def covers_def)
  ultimately show ?thesis
    using mw_exact [OF demo_mapping_ok [of "[]"], where addr = "0x1010" and len = 2 and os = demo_os and val = 7]
    by (auto simp: demo_os_def demo_io_def funpow_two)
qed

text \<open>C25: Whatever the device does, the two commands never leave the mappings or their buffer when the range is aligned
  and does not wrap around: they return 0 or 1 and never end in undefined behaviour.\<close>

theorem memory_commands_safe:
  assumes "\<forall>m \<in> set (io_maps s). mapping_ok m" and "range_ok addr len"
  shows "fst (md os addr len s) \<in> {Inr 0, Inr 1} \<and> fst (mw os addr val len s) \<in> {Inr 0, Inr 1}"
proof (cases "find (covers addr len) (io_maps s)")
  case None
  then show ?thesis by (simp add: md_def mw_def exm_simps not_mapped_def put_err_def)
next
  case (Some m)
  then obtain b where b: "mp_virt m = Some b" using find_covers [OF assms(1) Some] by blast
  obtain ok w where w: "os_malloc os (len * 4) (io_world s) = (ok, w)" by fastforce
  have "fst (md os addr len s) \<in> {Inr 0, Inr 1}"
  proof (cases ok)
    case False
    with Some w show ?thesis by (simp add: md_def exm_simps sys_def)
  next
    case True
    with md_run [OF assms Some b, of os w] w show ?thesis by auto
  qed
  with mw_run [OF assms Some b, of os val] show ?thesis by simp
qed

theorem memory_commands_safe_witness:
  "fst (md demo_os 0x10F0 3 (demo_io [])) \<in> {Inr 0, Inr 1} \<and> fst (mw demo_os 0x10F0 1 3 (demo_io [])) \<in> {Inr 0, Inr 1}"
  by (rule memory_commands_safe [OF demo_mapping_ok]) (simp add: range_ok_def)

lemma md_words_overflow:
  assumes "\<forall>k<n. accessible (io_maps s) (pv + of_nat k * 4)" and "4 * (j + n) = unat cap" and "n < l"
  shows "fst (md_words os cap pv j l s) = Inl (Undefined_Behaviour ''write outside a buffer'')"
  using assms
proof (induction n arbitrary: pv j l s)
  case 0
  then show ?case by (cases l) simp_all
next
  case (Suc n)
  then obtain l' where l: "l = Suc l'" "n < l'" by (cases l) auto
  obtain x w where ld: "os_load os pv (io_world s) = (x, w)" by fastforce
  have "accessible (io_maps s) pv" using Suc.prems(1) [rule_format, of 0] by simp
  with ld have 1: "load32 os pv s = (Inr x, s\<lparr>io_world := w\<rparr>)" by (simp add: load32_def exm_simps sys_def)
  have "\<forall>k<n. accessible (io_maps (s\<lparr>io_world := w\<rparr>)) (pv + 4 + of_nat k * 4)"
    using Suc.prems(1) by (force simp: algebra_simps dest: spec [of _ "Suc _"])
  from Suc.IH [OF this, of "Suc j" l'] Suc.prems(2) l
  obtain s' where "md_words os cap (pv + 4) (Suc j) l' (s\<lparr>io_world := w\<rparr>) = (Inl (Undefined_Behaviour ''write outside a buffer''), s')"
    by (metis add_Suc_shift prod.collapse)
  with 1 l(1) Suc.prems(2) show ?case by (simp add: exm_simps)
qed

text \<open>C35: The guard of both commands is not exact: a length that exceeds an accepted one by \<open>2^30\<close> is accepted too,
  because its size in bytes wraps around, and \<open>md\<close> then writes behind its buffer; the last word of a mapping is
  refused; and in a mapping that ends at the top of the address space every range is refused.\<close>

theorem guard_fails:
  assumes "\<forall>m \<in> set (io_maps s). mapping_ok m" and "range_ok addr len" and "find (covers addr len) (io_maps s) = Some m"
    and "\<forall>n w. fst (os_malloc os n w)"
  shows "fst (md os addr (len + 0x40000000) s) = Inl (Undefined_Behaviour ''write outside a buffer'') \<and>
    \<not> covers (mp_phys m + mp_len m - 4) 1 m \<and>
    covers (mp_phys m) len' (m\<lparr>mp_len := - mp_phys m\<rparr>) = False"
proof (intro conjI)
  note m = find_covers [OF assms(1,3)]
  then obtain b where b: "mp_virt m = Some b" by blast
  obtain w where w: "os_malloc os (len * 4) (io_world s) = (True, w)"
    using assms(4) by (metis prod.collapse)
  have zero: "(0x100000000 :: u32) = 0" by code_simp
  have four: "(len + 0x40000000) * 4 = len * 4" using zero by (simp add: distrib_right)
  then have cov: "covers addr (len + 0x40000000) = covers addr len" by (simp only: fun_eq_iff covers_def simp_thms)
  have small: "unat len < 2 ^ 30" using assms(2) by (simp add: range_ok_def)
  then have big: "unat len < unat (len + 0x40000000)" by (subst unat_plus) simp_all
  have acc: "\<forall>k<unat len. accessible (io_maps (s\<lparr>io_world := w\<rparr>)) (b + (addr - mp_phys m) + of_nat k * 4)"
    using covered_accessible [of m _ addr len b] m assms(2) b by simp
  have cap: "4 * (0 + unat len) = unat (len * 4)" using assms(2) by (simp add: range_ok_def unat_times4)
  obtain s' where "md_words os (len * 4) (b + (addr - mp_phys m)) 0 (unat (len + 0x40000000)) (s\<lparr>io_world := w\<rparr>) =
      (Inl (Undefined_Behaviour ''write outside a buffer''), s')"
    using md_words_overflow [OF acc cap big, of os] by (metis prod.collapse)
  with assms(3) b w show "fst (md os addr (len + 0x40000000) s) = Inl (Undefined_Behaviour ''write outside a buffer'')"
    unfolding md_def cov four by (simp add: exm_simps sys_def at_offset_def)
  show "\<not> covers (mp_phys m + mp_len m - 4) 1 m" by (simp add: covers_def)
  show "covers (mp_phys m) len' (m\<lparr>mp_len := - mp_phys m\<rparr>) = False" by (simp add: covers_def)
qed

theorem guard_fails_witness:
  "fst (md demo_os 0x1010 0x40000001 (demo_io [])) = Inl (Undefined_Behaviour ''write outside a buffer'')"
proof -
  have "range_ok 0x1010 1" by (simp add: range_ok_def)
  moreover have "find (covers 0x1010 1) (io_maps (demo_io [])) = Some \<lparr>mp_phys = 0x1000, mp_virt = Some 0x20000000, mp_len = 0x100\<rparr>"
    by (simp add: demo_io_def covers_def)
  moreover have "\<forall>n w. fst (os_malloc demo_os n w)" by (simp add: demo_os_def)
  ultimately show ?thesis
    using guard_fails [OF demo_mapping_ok, of "0x1010" 1 "[]"] by (fastforce simp: add.commute)
qed

section \<open>The shell\<close>

text \<open>C31: The line editor never overruns its buffer, whether the input is a terminal or not; it restores the terminal;
  and every line that it delivers takes something from the input, so that the shell, which stops when there is no
  line, ends on every input.\<close>

theorem readline_safe:
  assumes "readline os len s = (y, s')" and "1 < len"
  shows "\<exists>x. y = Inr x \<and> (\<forall>l. x = Some l \<longrightarrow> length l \<le> len - 1 \<and> length (io_stdin s') < length (io_stdin s)) \<and>
    (\<not> io_raw s \<longrightarrow> \<not> io_raw s') \<and> io_maps s' = io_maps s"
  using readline_run [OF assms(1)] assms(2) by auto

theorem readline_safe_witness:
  "\<exists>s'. readline demo_os 4 (demo_io (''md'' @ [CHR 0x08] @ ''wx'' @ NL)) = (Inr (Some ''mwx''), s') \<and>
     io_stdin s' = NL \<and> \<not> io_raw s'"
proof -
  obtain y s' where r: "readline demo_os 4 (demo_io (''md'' @ [CHR 0x08] @ ''wx'' @ NL)) = (y, s')" by fastforce
  then have y: "y = Inr (Some ''mwx'')" "io_stdin s' = NL"
    by (auto simp: readline_def exm_simps sys_def demo_os_def demo_io_def put_out_def raw_loop.simps char_code_def NL_def Let_def)
  from readline_safe [OF r] have "\<not> io_raw s'" by (auto simp: demo_io_def)
  with r y show ?thesis by blast
qed


section \<open>The map string\<close>

text \<open>A system in which every call succeeds.\<close>

definition os_willing :: "'w os \<Rightarrow> bool" where
  "os_willing os \<longleftrightarrow> (\<forall>f wr w. 0 \<le> fst (os_open os f wr w)) \<and> (\<forall>n w. fst (os_malloc os n w)) \<and>
     (\<forall>len wr sh fd off w. fst (os_mmap os len wr sh fd off w) \<noteq> None)"

definition region_text :: "u32 \<times> u32 \<Rightarrow> string" where
  "region_text = (\<lambda>(addr, len). hex addr @ '':'' @ hex len)"

definition region_map :: "u32 \<times> u32 \<Rightarrow> u32 \<Rightarrow> mapping" where
  "region_map = (\<lambda>(addr, len) v. \<lparr>mp_phys = addr, mp_virt = Some v, mp_len = len\<rparr>)"

lemma strtok_cut_token: "is_token delim t \<Longrightarrow> d \<in> set delim \<Longrightarrow> strtok_cut delim (t @ d # r) = t"
  by (cases t) (auto simp: strtok_cut_def is_token_def takeWhile_append2)

lemma map_fd_run:
  assumes "os_willing os" and "addr \<noteq> - 1"
  shows "\<exists>v s'. map_fd os fd addr len True True s = (Inr (Some v), s') \<and>
    io_maps s' = io_maps s @ [\<lparr>mp_phys = addr, mp_virt = Some v, mp_len = len\<rparr>]"
proof -
  obtain v w where m: "os_mmap os len True True fd addr (io_world s) = (Some v, w)"
    using assms(1) by (metis os_willing_def prod.collapse option.collapse)
  obtain w' where a: "os_malloc os ((of_nat (length (io_maps s)) + 1) * 12) w = (True, w')"
    using assms(1) by (metis os_willing_def prod.collapse)
  have "add_a_map os addr v len (s\<lparr>io_world := w\<rparr>) =
      (Inr 0, s\<lparr>io_world := w', io_maps := io_maps s @ [\<lparr>mp_phys = addr, mp_virt = Some v, mp_len = len\<rparr>]\<rparr>)"
    unfolding add_a_map_def using a by (simp add: bindE_apply thenE_apply sys_def)
  with assms(2) m show ?thesis
    by (simp add: map_fd_def bindE_apply sys_def)
qed

lemma load_map_run:
  assumes "os_willing os" and "fst r \<noteq> - 1"
  shows "\<exists>v s'. load_map os fd (region_text r) s = (Inr None, s') \<and> io_maps s' = io_maps s @ [region_map r v]"
proof -
  obtain addr len where r: "r = (addr, len)" by fastforce
  have d: "\<forall>c \<in> set '':''. isspace c \<or> c = CHR '':'' \<or> c = CHR '',''" by simp
  have tok: "is_token '':'' (hex w)" for w :: u32 by (rule hex_plain.print_token [OF d])
  note t = tok [unfolded is_token_def, THEN conjunct1] tok [unfolded is_token_def, THEN conjunct2]
  have 1: "strtok '':'' (hex addr @ CHR '':'' # hex len) = Some (hex addr, hex len)"
    "strtok '':'' (hex len) = Some (hex len, [])" "strtok_cut '':'' (hex addr @ CHR '':'' # hex len) = hex addr"
    using strtok_token(1) [OF t] strtok_token(2) [OF t] strtok_cut_token [OF tok] by simp_all
  obtain v s' where m: "map_fd os fd addr len True True s = (Inr (Some v), s')"
    "io_maps s' = io_maps s @ [\<lparr>mp_phys = addr, mp_virt = Some v, mp_len = len\<rparr>]"
    using map_fd_run [OF assms(1), of addr fd len s] assms(2) by (auto simp: r)
  then show ?thesis
    by (auto simp: load_map_def Let_def region_text_def region_map_def r 1 exm_simps put_out_def)
qed

lemma load_maps_run:
  assumes "os_willing os" and "\<forall>r \<in> set rs. fst r \<noteq> - 1" and "d \<in> {CHR '','', CHR 0x0A}"
  shows "\<exists>vs s'. load_maps os (Some (join d (map region_text rs))) s = (Inr 0, s') \<and>
    length vs = length rs \<and> io_maps s' = io_maps s @ map2 region_map rs vs"
proof -
  have tok: "is_token map_delim (region_text r)" for r
  proof (cases r)
    case (Pair addr len)
    have d: "\<forall>c \<in> set map_delim. isspace c \<or> c = CHR '':'' \<or> c = CHR '',''"
      by (simp add: map_delim_def isspace_def char_code_def)
    have "is_token map_delim (hex w)" for w :: u32 by (rule hex_plain.print_token [OF d])
    then show ?thesis by (fastforce simp: Pair region_text_def is_token_def map_delim_def)
  qed
  have toks: "tokens map_delim (join d (map region_text rs)) = map region_text rs"
    using assms(3) tok by (intro tokens_join) (auto simp: map_delim_def list_all_iff)
  have all: "\<exists>vs s'. load_all os fd (map region_text rs) s = (Inr 0, s') \<and> length vs = length rs \<and>
      io_maps s' = io_maps s @ map2 region_map rs vs" for fd s
    using assms(2)
  proof (induction rs arbitrary: s)
    case (Cons r rs)
    from load_map_run [OF assms(1), of r fd s] Cons.prems obtain v s1 where
      1: "load_map os fd (region_text r) s = (Inr None, s1)" "io_maps s1 = io_maps s @ [region_map r v]" by auto
    from Cons.IH [of s1] Cons.prems obtain vs s' where
      2: "load_all os fd (map region_text rs) s1 = (Inr 0, s')" "length vs = length rs" "io_maps s' = io_maps s1 @ map2 region_map rs vs"
      by auto
    with 1 show ?case by (intro exI [of _ "v # vs"] exI [of _ s']) (simp add: exm_simps)
  qed simp
  obtain fd w where fd: "os_open os ''/dev/mem'' True (io_world s) = (fd, w)" "0 \<le> fd"
    using assms(1) by (metis os_willing_def prod.collapse)
  obtain w' where a: "os_malloc os (of_nat (length (join d (map region_text rs))) + 1) w = (True, w')"
    using assms(1) by (metis os_willing_def prod.collapse)
  obtain vs s' where "load_all os fd (map region_text rs) (s\<lparr>io_world := w'\<rparr>) = (Inr 0, s')" "length vs = length rs"
    "io_maps s' = io_maps s @ map2 region_map rs vs"
    using all [of fd "s\<lparr>io_world := w'\<rparr>"] by auto
  then show ?thesis
    using fd a by (intro exI [of _ vs]) (auto simp: load_maps_def exm_simps sys_def sysdo_def toks)
qed



section \<open>The options\<close>

lemma main_md_run:
  assumes "\<not> starts_with ''-'' m" and "basename exe = ''md''" and "os_malloc os (of_nat (length exe) + 1) (io_world s) = (True, w)"
    and "load_maps os (Some m) (s\<lparr>io_world := w, io_quiet := True\<rparr>) = (Inr i, s')"
  shows "main os [exe, ''-m'', m, addr, len] s =
    (if i < 0 then thenE (put_err (''failed to map regions: check map string or config file'' @ NL)) (thenE (unmap_all os) (ret 0)) s'
     else bindE (md os (fst (strtoul16 m)) (fst (strtoul16 addr))) (\<lambda>code. thenE (unmap_all os) (ret code)) s')"
proof -
  have opt: "options [''-m'', m, addr, len] 1 None None = Some (Some m, None, 2)"
    using assms(1) by (simp add: starts_with_def)
  have md: "run_exe os ''md'' [exe, ''-m'', m, addr, len] 2 = md os (fst (strtoul16 m)) (fst (strtoul16 addr))"
    by (simp add: run_exe_def arg_value_def fun_eq_iff exm_simps)
  have "main os [exe, ''-m'', m, addr, len] s = bindE (load_maps os (Some m)) (\<lambda>r.
      bindE (if r < 0 then thenE (put_err (''failed to map regions: check map string or config file'' @ NL)) (ret 0)
        else md os (fst (strtoul16 m)) (fst (strtoul16 addr))) (\<lambda>code. thenE (unmap_all os) (ret code)))
      (s\<lparr>io_world := w, io_quiet := True\<rparr>)"
    unfolding main_def using opt assms(2,3)
    by (simp add: md bindE_apply thenE_apply sys_def set_quiet_def map_string_def cong: if_cong)
  with assms(4) show ?thesis
    by (simp add: exm_simps put_err_def)
qed

text \<open>With a map string or a configuration file on the command line the tools take the value of that option for
  their first argument: \<open>md -m map addr len\<close> reads at the number the map string begins with, and takes \<open>addr\<close> for
  the length; and a failure to map the regions still ends with exit status 0.\<close>

theorem option_value_is_first_argument:
  assumes "\<not> starts_with ''-'' m" and "basename exe = ''md''" and "os_malloc os (of_nat (length exe) + 1) (io_world s) = (True, w)"
    and "load_maps os (Some m) (s\<lparr>io_world := w, io_quiet := True\<rparr>) = (Inr i, s')"
  shows "main os [exe, ''-m'', m, addr, len] s =
    (if i < 0 then thenE (put_err (''failed to map regions: check map string or config file'' @ NL)) (thenE (unmap_all os) (ret 0)) s'
     else bindE (md os (fst (strtoul16 m)) (fst (strtoul16 addr))) (\<lambda>code. thenE (unmap_all os) (ret code)) s')"
  using assms by (rule main_md_run)

theorem option_value_is_first_argument_witness:
  "\<exists>s'. main demo_os [''/usr/bin/md'', ''-m'', ''1000:100'', ''2'', ''1''] (demo_io []) =
     bindE (md demo_os 0x1000 2) (\<lambda>code. thenE (unmap_all demo_os) (ret code)) s' \<and>
     (\<exists>v. io_maps s' = io_maps (demo_io []) @ [\<lparr>mp_phys = 0x1000, mp_virt = Some v, mp_len = 0x100\<rparr>])"
proof -
  have "os_willing demo_os" by (simp add: os_willing_def demo_os_def)
  let ?s = "(demo_io [])\<lparr>io_world := [], io_quiet := True\<rparr>"
  have nums: "hex (0x1000 :: u32) = ''1000''" "hex (0x100 :: u32) = ''100''" "hex (2 :: u32) = ''2''"
    by code_simp+
  then have "join CHR '','' (map region_text [(0x1000, 0x100)]) = ''1000:100''" by (simp add: region_text_def)
  with load_maps_run [OF \<open>os_willing demo_os\<close>, of "[(0x1000, 0x100)]" "CHR '',''" ?s]
  obtain vs s' where l: "load_maps demo_os (Some ''1000:100'') ?s = (Inr 0, s')" "length vs = 1"
    "io_maps s' = io_maps ?s @ map2 region_map [(0x1000, 0x100)] vs" by auto
  obtain v where "vs = [v]" using l(2) by (cases vs) auto
  with l(3) have maps: "io_maps s' = io_maps (demo_io []) @ [\<lparr>mp_phys = 0x1000, mp_virt = Some v, mp_len = 0x100\<rparr>]"
    by (simp add: region_map_def)
  have "\<not> starts_with ''-'' ''1000:100''" "basename ''/usr/bin/md'' = ''md''" by (simp_all add: starts_with_def basename_def)
  moreover have "os_malloc demo_os (of_nat (length ''/usr/bin/md'') + 1) (io_world (demo_io [])) = (True, [])"
    by (simp add: demo_os_def demo_io_def)
  moreover have "fst (strtoul16 ''1000:100'') = 0x1000" "fst (strtoul16 ''2'') = 2"
    using strtoul16_hex_prefix [of "'':100''" "0x1000"] strtoul16_hex [of 2] nums(1,3)
    by (simp_all add: digit_value_def char_code_def)
  ultimately have "main demo_os [''/usr/bin/md'', ''-m'', ''1000:100'', ''2'', ''1''] (demo_io []) =
     bindE (md demo_os 0x1000 2) (\<lambda>code. thenE (unmap_all demo_os) (ret code)) s'"
    using option_value_is_first_argument [OF _ _ _ l(1), of "''/usr/bin/md''" "''2''" "''1''"] by simp
  with maps show ?thesis by blast
qed

end
