(* ===== verification/Io_Resources.thy ===== *)
theory Io_Resources
  imports Io_Laws "HOL-Library.Multiset"
begin

text \<open>
  What the process of \<open>io-app.c\<close> holds: the file descriptors it has opened and the mappings it has made.  The invariant
  ties what the operating system counts to the table of mappings, and is carried through every operation up to \<open>main\<close>.
\<close>

section \<open>Counting\<close>

type_synonym resource = "int + u32 \<times> u32"

text \<open>
  \<open>live\<close> counts the descriptors (\<open>Inl\<close>) and the mappings (\<open>Inr\<close>, address and length) of the process: \<open>open\<close> and \<open>mmap\<close>
  add one when they succeed, \<open>close\<close> and \<open>munmap\<close> take one away, and no other call changes the count.
\<close>

definition os_counts :: "'w os \<Rightarrow> ('w \<Rightarrow> resource multiset) \<Rightarrow> bool" where
  "os_counts os live \<longleftrightarrow>
     (\<forall>f wr w. live (snd (os_open os f wr w)) =
        (if fst (os_open os f wr w) < 0 then live w else add_mset (Inl (fst (os_open os f wr w))) (live w))) \<and>
     (\<forall>fd w. live (os_close os fd w) = live w - {#Inl fd#}) \<and>
     (\<forall>n wr sh fd off w. live (snd (os_mmap os n wr sh fd off w)) =
        (case fst (os_mmap os n wr sh fd off w) of None \<Rightarrow> live w | Some v \<Rightarrow> add_mset (Inr (v, n)) (live w))) \<and>
     (\<forall>v n w. live (os_munmap os v n w) = live w - {#Inr (v, n)#}) \<and>
     (\<forall>fd w. live (snd (os_fstat os fd w)) = live w) \<and> (\<forall>n w. live (snd (os_malloc os n w)) = live w) \<and>
     (\<forall>v w. live (snd (os_load os v w)) = live w) \<and> (\<forall>v x w. live (os_store os v x w) = live w) \<and>
     (\<forall>f w. live (snd (os_read_file os f w)) = live w) \<and> (\<forall>w. live (snd (os_tcgetattr os w)) = live w) \<and>
     (\<forall>w. live (snd (os_isatty os w)) = live w)"

lemma os_countsD:
  assumes "os_counts os live"
  shows "live (snd (os_open os f wr w)) =
      (if fst (os_open os f wr w) < 0 then live w else add_mset (Inl (fst (os_open os f wr w))) (live w))"
    and "live (snd (os_mmap os n wr sh fd off w)) =
      (case fst (os_mmap os n wr sh fd off w) of None \<Rightarrow> live w | Some v \<Rightarrow> add_mset (Inr (v, n)) (live w))"
    and "live (os_close os fd w) = live w - {#Inl fd#}"
    and "live (os_munmap os v n w) = live w - {#Inr (v, n)#}"
    and "live (snd (os_fstat os fd w)) = live w" and "live (snd (os_malloc os n w)) = live w"
    and "live (snd (os_load os v w)) = live w" and "live (os_store os v x w) = live w"
    and "live (snd (os_read_file os f w)) = live w" and "live (snd (os_tcgetattr os w)) = live w"
    and "live (snd (os_isatty os w)) = live w"
  using assms by (simp_all add: os_counts_def)

definition held_by :: "mapping \<Rightarrow> resource multiset" where
  "held_by m = (case mp_virt m of Some v \<Rightarrow> {#Inr (v, mp_len m)#} | None \<Rightarrow> {#})"

definition held :: "mapping list \<Rightarrow> resource multiset" where
  "held ms = (\<Sum>m\<leftarrow>ms. held_by m)"

text \<open>The process holds what its table lists and the resources \<open>B\<close> beside it.\<close>

definition holds :: "('w \<Rightarrow> resource multiset) \<Rightarrow> resource multiset \<Rightarrow> 'w io_state \<Rightarrow> bool" where
  "holds live B s \<longleftrightarrow> live (io_world s) = B + held (io_maps s)"

lemma held_snoc [simp]: "held (ms @ [m]) = held ms + held_by m"
  by (simp add: held_def)

lemma held_update: "i < length ms \<Longrightarrow> held (ms[i := (ms ! i)\<lparr>mp_virt := None\<rparr>]) + held_by (ms ! i) = held ms"
  by (induction ms arbitrary: i) (auto simp: held_def held_by_def nth_Cons split: nat.splits)

lemma held_none: "\<forall>m \<in> set ms. mp_virt m = None \<Longrightarrow> held ms = {#}"
  by (induction ms) (auto simp: held_def held_by_def)

section \<open>The table of mappings\<close>

lemma unmap_one_run:
  assumes "i < length (io_maps s)"
  shows "\<exists>s'. unmap_one os i s = (Inr (), s') \<and> io_maps s' = (io_maps s)[i := (io_maps s ! i)\<lparr>mp_virt := None\<rparr>] \<and>
    (os_counts os live \<and> holds live B s \<longrightarrow> holds live B s')"
proof (cases "mp_virt (io_maps s ! i)")
  case None
  with held_update [OF assms] show ?thesis
    by (simp add: unmap_one_def exm_simps holds_def held_by_def)
next
  case (Some v)
  let ?r = "Inr (v, mp_len (io_maps s ! i)) :: resource"
  have "held (io_maps s) = held ((io_maps s)[i := (io_maps s ! i)\<lparr>mp_virt := None\<rparr>]) + {#?r#}"
    using held_update [OF assms] Some by (simp add: held_by_def)
  then have "live (os_munmap os v (mp_len (io_maps s ! i)) (io_world s)) =
      B + held ((io_maps s)[i := (io_maps s ! i)\<lparr>mp_virt := None\<rparr>])" if "os_counts os live" "holds live B s"
    using that(2) by (simp add: os_countsD(4) [OF that(1)] holds_def)
  with Some show ?thesis by (simp add: unmap_one_def exm_simps holds_def sysdo_def)
qed

lemma unmap_all_run:
  "\<exists>s'. unmap_all os s = (Inr (), s') \<and> (\<forall>m \<in> set (io_maps s'). mp_virt m = None) \<and>
    (os_counts os live \<and> holds live B s \<longrightarrow> holds live B s')"
proof -
  have "\<exists>s'. forE [0..<k] (unmap_one os) s = (Inr (), s') \<and> length (io_maps s') = length (io_maps s) \<and>
      (\<forall>j<k. mp_virt (io_maps s' ! j) = None) \<and> (os_counts os live \<and> holds live B s \<longrightarrow> holds live B s')"
    if "k \<le> length (io_maps s)" for k
    using that
  proof (induction k)
    case 0
    then show ?case by simp
  next
    case (Suc k)
    then obtain s1 where 1: "forE [0..<k] (unmap_one os) s = (Inr (), s1)"
      "length (io_maps s1) = length (io_maps s)" "\<forall>j<k. mp_virt (io_maps s1 ! j) = None"
      "os_counts os live \<and> holds live B s \<longrightarrow> holds live B s1" by auto
    obtain s2 where "unmap_one os k s1 = (Inr (), s2)" "os_counts os live \<and> holds live B s1 \<longrightarrow> holds live B s2"
      "io_maps s2 = (io_maps s1)[k := (io_maps s1 ! k)\<lparr>mp_virt := None\<rparr>]"
      using unmap_one_run [of k s1 os live B] 1(2) Suc.prems by auto
    with 1 Suc.prems show ?case
      by (intro exI [of _ s2]) (auto simp: forE_append exm_simps nth_list_update less_Suc_eq)
  qed
  from this [of "length (io_maps s)"] show ?thesis
    by (auto simp: unmap_all_def bindE_apply in_set_conv_nth)
qed

lemma unmap_all_none: "unmap_all os s = (r, s') \<Longrightarrow> m \<in> set (io_maps s') \<Longrightarrow> mp_virt m = None"
  using unmap_all_run [of os s] by auto

lemma sys_run: "sys f s = (Inr (fst (f (io_world s))), s\<lparr>io_world := snd (f (io_world s))\<rparr>)"
  by (simp add: sys_def split: prod.splits)

text \<open>A new mapping goes into the table, or everything is unmapped, the new mapping included.\<close>

lemma add_a_map_holds:
  assumes "os_counts os live" and "holds live (add_mset (Inr (v, n)) B) s"
  shows "holds live B (snd (add_a_map os phys v n s))"
proof -
  obtain ok w where m: "os_malloc os ((of_nat (length (io_maps s)) + 1) * 12) (io_world s) = (ok, w)" by fastforce
  have "live w = live (io_world s)" using os_countsD(6) [OF assms(1), of _ "io_world s"] m by (metis snd_conv)
  then have h: "holds live (add_mset (Inr (v, n)) B) (s\<lparr>io_world := w\<rparr>)" using assms(2) by (simp add: holds_def)
  show ?thesis
  proof (cases ok)
    case True
    with m h show ?thesis by (simp add: add_a_map_def bindE_apply thenE_apply sys_def holds_def held_by_def)
  next
    case False
    obtain t where t: "unmap_all os (s\<lparr>io_world := w\<rparr>) = (Inr (), t)" "holds live (add_mset (Inr (v, n)) B) t"
      using unmap_all_run [of os _ live] assms(1) h by blast
    then have "holds live B (t\<lparr>io_world := os_munmap os v n (io_world t)\<rparr>)"
      by (simp add: holds_def os_countsD(4) [OF assms(1)])
    with False m t(1) show ?thesis by (simp add: add_a_map_def bindE_apply thenE_apply sys_def sysdo_def)
  qed
qed

lemma map_fd_holds: "os_counts os live \<Longrightarrow> keeps (holds live B) (map_fd os fd offset n wr sh)"
proof (rule keepsI)
  fix s
  assume o: "os_counts os live" and h: "holds live B s"
  obtain phys off where po: "(if offset \<noteq> - 1 then (offset, offset) else (- 1, 0)) = (phys, off)" by fastforce
  obtain p w where m: "os_mmap os n wr sh fd off (io_world s) = (p, w)" by fastforce
  have live: "live w = (case p of None \<Rightarrow> live (io_world s) | Some v \<Rightarrow> add_mset (Inr (v, n)) (live (io_world s)))"
    using os_countsD(2) [OF o, of n wr sh fd off "io_world s"] m by simp
  show "holds live B (snd (map_fd os fd offset n wr sh s))"
  proof (cases p)
    case None
    with h live m show ?thesis by (simp add: map_fd_def po bindE_apply sys_def holds_def)
  next
    case (Some v)
    with h live have "holds live (add_mset (Inr (v, n)) B) (s\<lparr>io_world := w\<rparr>)" by (simp add: holds_def)
    from add_a_map_holds [OF o this, of phys] Some m show ?thesis
      by (auto simp: map_fd_def po bindE_apply sys_def split: prod.splits sum.splits)
  qed
qed

section \<open>Triples\<close>

text \<open>
  \<open>settles live A B m\<close>: a normal end of \<open>m\<close> turns the resources \<open>A\<close> held beside the table into \<open>B\<close>.  An exception is
  undefined behaviour or the end of the process, which may keep what it holds.
\<close>

definition settles :: "('w \<Rightarrow> resource multiset) \<Rightarrow> resource multiset \<Rightarrow> resource multiset \<Rightarrow> ('w io_state, 'a) exm \<Rightarrow> bool" where
  "settles live A B m \<longleftrightarrow> (\<forall>s a s'. holds live A s \<longrightarrow> m s = (Inr a, s') \<longrightarrow> holds live B s')"

named_theorems settles_intro \<open>rules for the resources a computation holds\<close>

lemma settlesD: "settles live A B m \<Longrightarrow> holds live A s \<Longrightarrow> m s = (Inr a, s') \<Longrightarrow> holds live B s'"
  unfolding settles_def by blast

lemma settles_keeps: "keeps (holds live A) m \<Longrightarrow> settles live A A m"
  unfolding settles_def by (blast dest: keepsD)

lemma settles_ret [settles_intro]: "settles live A A (ret a)"
  by (simp add: settles_def)

lemma settles_gets [settles_intro]: "settles live A A (gets f)"
  by (simp add: settles_def)

lemma settles_lift_sum [settles_intro]: "settles live A A (lift_sum r)"
  by (simp add: settles_def)

lemma settles_throw [settles_intro]: "settles live A B (throw e)"
  by (simp add: settles_def)

lemma settles_bindE [settles_intro]:
  "settles live A C m \<Longrightarrow> (\<And>a. settles live C B (f a)) \<Longrightarrow> settles live A B (bindE m f)"
  unfolding settles_def bindE_Inr_iff by blast

lemma settles_thenE [settles_intro]: "settles live A C m \<Longrightarrow> settles live C B k \<Longrightarrow> settles live A B (thenE m k)"
  unfolding thenE_def by (rule settles_bindE)

lemma settles_if [settles_intro]: "settles live A B m \<Longrightarrow> settles live A B k \<Longrightarrow> settles live A B (if b then m else k)"
  by simp

lemma settles_option [settles_intro]:
  "settles live A B m \<Longrightarrow> (\<And>a. settles live A B (f a)) \<Longrightarrow> settles live A B (case x of None \<Rightarrow> m | Some a \<Rightarrow> f a)"
  by (cases x) auto

lemma settles_list [settles_intro]:
  "settles live A B m \<Longrightarrow> (\<And>a as. settles live A B (f a as)) \<Longrightarrow> settles live A B (case x of [] \<Rightarrow> m | a # as \<Rightarrow> f a as)"
  by (cases x) auto

lemma settles_prod [settles_intro]: "(\<And>a b. settles live A B (f a b)) \<Longrightarrow> settles live A B (case x of (a, b) \<Rightarrow> f a b)"
  by (cases x) auto

lemma settles_Let [settles_intro]: "settles live A B (f a) \<Longrightarrow> settles live A B (Let a f)"
  by simp

lemma settles_forE [settles_intro]: "(\<And>x. settles live A A (f x)) \<Longrightarrow> settles live A A (forE xs f)"
  by (induction xs) (auto intro: settles_intro)

lemma settles_put [settles_intro]: "settles live A A (put_out t)" "settles live A A (put_err t)"
  by (simp_all add: settles_def holds_def put_out_def put_err_def)

lemma settles_sys:
  assumes "os_counts os live"
  shows "settles live A A (sys (os_fstat os fd))" and "settles live A A (sys (os_malloc os n))"
    and "settles live A A (sys (os_load os v))" and "settles live A A (sysdo (os_store os v x))"
    and "settles live A A (sys (os_read_file os f))" and "settles live A A (sys (os_tcgetattr os))"
    and "settles live A A (sys (os_isatty os))" and "settles live (add_mset (Inl fd) A) A (sysdo (os_close os fd))"
  by (auto simp: settles_def holds_def sys_run sysdo_def os_countsD [OF assms])

text \<open>A descriptor is closed by the function that opens it.\<close>

lemma settles_open:
  assumes "os_counts os live" and "\<And>fd. settles live (add_mset (Inl fd) A) A (f fd)"
  shows "settles live A A (bindE (sys (os_open os name wr)) (\<lambda>fd. if fd < 0 then ret x else f fd))"
  unfolding settles_def
proof (intro allI impI)
  fix s a s'
  assume h: "holds live A s" and r: "bindE (sys (os_open os name wr)) (\<lambda>fd. if fd < 0 then ret x else f fd) s = (Inr a, s')"
  obtain fd w where o: "os_open os name wr (io_world s) = (fd, w)" by fastforce
  have w: "live w = (if fd < 0 then live (io_world s) else add_mset (Inl fd) (live (io_world s)))"
    using os_countsD(1) [OF assms(1), of name wr "io_world s"] o by simp
  show "holds live A s'"
  proof (cases "fd < 0")
    case True
    with h r o w show ?thesis by (auto simp: bindE_apply sys_def holds_def)
  next
    case False
    with h w have "holds live (add_mset (Inl fd) A) (s\<lparr>io_world := w\<rparr>)" by (simp add: holds_def)
    with settlesD [OF assms(2) this] False r o show ?thesis by (simp add: bindE_apply sys_def)
  qed
qed

section \<open>The operations\<close>

lemma settles_map_fd: "os_counts os live \<Longrightarrow> settles live A A (map_fd os fd offset n wr sh)"
  by (rule settles_keeps) (rule map_fd_holds)

lemma settles_unmap_all: "os_counts os live \<Longrightarrow> settles live A A (unmap_all os)"
  unfolding settles_def using unmap_all_run by (metis Pair_inject)

lemma settles_map_file: "os_counts os live \<Longrightarrow> settles live A A (map_file os name n wr sh)"
  unfolding map_file_def
  by (rule settles_open settles_intro settles_sys settles_map_fd | assumption)+

lemma settles_load_map: "os_counts os live \<Longrightarrow> settles live A A (load_map os fd paddr)"
  unfolding load_map_def
  by (rule settles_intro settles_map_fd | assumption)+

lemma settles_load_all: "os_counts os live \<Longrightarrow> settles live A A (load_all os fd ps)"
proof (induction ps)
  case (Cons p ps)
  show ?case unfolding load_all.simps by (rule settles_intro settles_load_map Cons.IH Cons.prems)+
qed (simp add: settles_ret)

lemma settles_load_maps: "os_counts os live \<Longrightarrow> settles live A A (load_maps os str)"
  unfolding load_maps_def
  by (rule settles_open settles_intro settles_sys settles_load_all | assumption)+

lemma settles_memory:
  "os_counts os live \<Longrightarrow> settles live A A (load32 os v)" "os_counts os live \<Longrightarrow> settles live A A (store32 os v x)"
  "settles live A A (not_mapped addr n)" "settles live A A (at_offset m addr)" "settles live A A (dump addr words k)"
  unfolding load32_def store32_def not_mapped_def at_offset_def dump_def
  by (rule settles_intro settles_sys | assumption)+

lemma settles_md_words: "os_counts os live \<Longrightarrow> settles live A A (md_words os cap pv j n)"
proof (induction n arbitrary: pv j)
  case (Suc n)
  show ?case unfolding md_words.simps by (rule settles_intro settles_memory Suc.IH Suc.prems)+
qed (simp add: settles_ret)

lemma settles_commands:
  assumes "os_counts os live"
  shows "settles live A A (md os addr n)" and "settles live A A (mw os addr val n)"
  unfolding md_def mw_def
  by (rule settles_intro settles_memory settles_md_words settles_sys assms)+

lemma settles_with_len: "(\<And>n. settles live A A (fn n)) \<Longrightarrow> settles live A A (with_len args n fn)"
  unfolding with_len_def by (rule settles_intro | assumption)+

lemma settles_run_command: "os_counts os live \<Longrightarrow> settles live A A (run_command os command)"
  unfolding run_command_def
  by (rule settles_intro settles_with_len settles_commands | assumption)+

lemma settles_run_commands: "os_counts os live \<Longrightarrow> settles live A A (run_commands os commands)"
proof (induction commands)
  case (Cons c cs)
  show ?case unfolding run_commands.simps by (rule settles_intro settles_run_command Cons.IH Cons.prems)+
qed (simp add: settles_ret)

lemma settles_io_line: "os_counts os live \<Longrightarrow> settles live A A (io_line os line)"
proof -
  have "settles live A A (case r of Quit \<Rightarrow> ret True | Cmd_Ok \<Rightarrow> thenE prompt (ret False)
      | Cmd_Err \<Rightarrow> thenE (put_err command_usage) (thenE prompt (ret False)))" for r
    unfolding prompt_def by (cases r; simp; (rule settles_intro)+)
  then show "os_counts os live \<Longrightarrow> settles live A A (io_line os line)"
    unfolding io_line_def by - (rule settles_bindE [OF settles_run_commands])
qed

text \<open>The line editor changes the input, the terminal and the output.\<close>

lemma settles_terminal:
  "settles live A A (modify (\<lambda>s. s\<lparr>io_stdin := rest\<rparr>))" "settles live A A (modify (\<lambda>s. s\<lparr>io_raw := b\<rparr>))"
  "settles live A A (modify (\<lambda>s. s\<lparr>io_cpu := c\<rparr>))" "settles live A A (modify (\<lambda>s. s\<lparr>io_quiet := b\<rparr>))"
  by (simp_all add: settles_def holds_def)

lemma settles_readline: "os_counts os live \<Longrightarrow> settles live A A (readline os n)"
  unfolding readline_def
  by (rule settles_intro settles_terminal settles_sys | assumption)+

lemma io_loop_holds:
  "os_counts os live \<Longrightarrow> holds live A s \<Longrightarrow> io_loop os s = (Inr a, s') \<Longrightarrow> holds live A s'"
proof (induction os s rule: io_loop.induct)
  case (1 os s)
  note run = 1(4) [unfolded io_loop.simps [of os s]]
  obtain x s1 where r: "readline os MAX_LINE_LEN s = (x, s1)" by fastforce
  show ?case
  proof (cases x)
    case (Inl e)
    with run r show ?thesis by simp
  next
    case (Inr l)
    have h1: "holds live A s1" using settlesD [OF settles_readline [OF 1(2)] 1(3)] r Inr by blast
    show ?thesis
    proof (cases "l = None \<or> l = Some []")
      case True
      with run r Inr h1 show ?thesis by auto
    next
      case False
      then obtain line where l: "l = Some line" "line \<noteq> []" by auto
      obtain y s2 where c: "io_line os line s1 = (y, s2)" by fastforce
      show ?thesis
      proof (cases y)
        case (Inl e)
        with run r Inr l c \<open>x = Inr l\<close> show ?thesis by simp
      next
        case (Inr d)
        have h2: "holds live A s2" using settlesD [OF settles_io_line [OF 1(2)] h1] c Inr by blast
        show ?thesis
        proof (cases d)
          case True
          with run r \<open>x = Inr l\<close> l c Inr h2 show ?thesis by auto
        next
          case False
          have "io_loop os s2 = (Inr a, s')" using run r \<open>x = Inr l\<close> l c Inr False by simp
          moreover have "readline os MAX_LINE_LEN s = (Inr (Some line), s1)" "io_line os line s1 = (Inr d, s2)"
            using r \<open>x = Inr l\<close> l c Inr by simp_all
          ultimately show ?thesis
            using 1(1) [OF _ refl refl l(2) _ refl False 1(2) h2] by metis
        qed
      qed
    qed
  qed
qed

lemma settles_io_loop: "os_counts os live \<Longrightarrow> settles live A A (io_loop os)"
  unfolding settles_def using io_loop_holds by blast

section \<open>The program\<close>

lemma settles_usage: "settles live A B usage"
  unfolding usage_def by (rule settles_intro)+

lemma settles_arg_value: "settles live A A (arg_value argv i)"
  unfolding arg_value_def by (rule settles_intro)+

lemma settles_run_exe:
  assumes "os_counts os live"
  shows "settles live A A (run_exe os exe argv first_arg)"
  unfolding run_exe_def io_def
  by (rule settles_intro settles_usage settles_arg_value settles_commands settles_io_loop assms)+

lemma settles_map_string:
  assumes "os_counts os live"
  shows "settles live A A (map_string os map_str cfg_file)"
  unfolding map_string_def probe_cpu_for_map_def probe_cpu_def
  by (rule settles_intro settles_map_file settles_terminal settles_sys assms)+

lemma settles_set_quiet:
  assumes "os_counts os live"
  shows "settles live A A (set_quiet os exe)"
  unfolding set_quiet_def
  by (rule settles_intro settles_terminal settles_sys assms)+

lemma settles_main:
  assumes "os_counts os live"
  shows "settles live A A (main os argv)"
  unfolding main_def Let_def
  by (rule settles_intro settles_usage settles_set_quiet settles_map_string settles_load_maps settles_run_exe
      settles_unmap_all settles_sys assms)+

text \<open>C26: Whatever the arguments, the input and the system do, when the tool ends normally it holds what it held before:
  every file descriptor it has opened is closed and every mapping it has made is unmapped, once each, also when the
  table of mappings cannot grow, when a map string is broken in its middle, and when a command fails.\<close>

theorem main_releases_everything:
  assumes "os_counts os live" and "io_maps s = []" and "main os argv s = (Inr code, s')"
  shows "live (io_world s') = live (io_world s) \<and> (\<forall>m \<in> set (io_maps s'). mp_virt m = None)"
proof -
  have "holds live (live (io_world s)) s" using assms(2) by (simp add: holds_def held_def)
  with settlesD [OF settles_main [OF assms(1)]] assms(3) have "holds live (live (io_world s)) s'" by blast
  moreover have "usage t \<noteq> (Inr c, t')" for t t' :: "'a io_state" and c :: int
    by (auto simp: usage_def thenE_Inr_iff)
  then have "(\<exists>t. unmap_all os t = (Inr (), s')) \<or> io_maps s' = []"
    using assms(2,3)
    by (auto simp: main_def bindE_Inr_iff thenE_Inr_iff Let_def sys_run split: option.splits if_splits)
  then have "\<forall>m \<in> set (io_maps s'). mp_virt m = None" by (auto dest: unmap_all_none)
  ultimately show ?thesis by (simp add: holds_def held_none)
qed

definition count_os :: "resource multiset os" where
  "count_os = \<lparr>os_open = (\<lambda>f wr w. (3, add_mset (Inl 3) w)), os_close = (\<lambda>fd w. w - {#Inl fd#}),
     os_fstat = (\<lambda>fd w. (Some 0x1000, w)),
     os_mmap = (\<lambda>n wr sh fd off w. (Some (off + 0x10000000), add_mset (Inr (off + 0x10000000, n)) w)),
     os_munmap = (\<lambda>v n w. w - {#Inr (v, n)#}), os_malloc = (\<lambda>n w. (True, w)), os_load = (\<lambda>v w. (v, w)),
     os_store = (\<lambda>v x w. w), os_string = (\<lambda>p w. None), os_read_file = (\<lambda>f w. (None, w)),
     os_tcgetattr = (\<lambda>w. (True, w)), os_isatty = (\<lambda>w. (True, w))\<rparr>"

definition count_io :: "resource multiset io_state" where
  "count_io = \<lparr>io_quiet = False, io_maps = [], io_cpu = CPU_NONE, io_stdout = [], io_stderr = [], io_stdin = [],
     io_raw = False, io_world = {#}\<rparr>"

lemma count_run:
  "\<exists>s'. main count_os [''/usr/bin/md'', ''-m'', ''1000:100'', ''1000'', ''1''] count_io = (Inr 1, s') \<and> length (io_maps s') = 1"
proof -
  have w: "os_willing count_os" by (simp add: os_willing_def count_os_def)
  let ?s = "count_io\<lparr>io_world := {#}, io_quiet := True\<rparr>"
  have nums: "hex (0x1000 :: u32) = ''1000''" "hex (0x100 :: u32) = ''100''" by code_simp+
  then have "join CHR '','' (map region_text [(0x1000, 0x100)]) = ''1000:100''" by (simp add: region_text_def)
  with load_maps_run [OF w, of "[(0x1000, 0x100)]" "CHR '',''" ?s]
  obtain vs s1 where l: "load_maps count_os (Some ''1000:100'') ?s = (Inr 0, s1)" "length vs = 1"
    "io_maps s1 = map2 region_map [(0x1000, 0x100)] vs" by (auto simp: count_io_def)
  obtain v where "vs = [v]" using l(2) by (cases vs) auto
  with l(3) have maps: "io_maps s1 = [\<lparr>mp_phys = 0x1000, mp_virt = Some v, mp_len = 0x100\<rparr>]" by (simp add: region_map_def)
  have pre: "\<not> starts_with ''-'' ''1000:100''" "basename ''/usr/bin/md'' = ''md''"
    "os_malloc count_os (of_nat (length ''/usr/bin/md'') + 1) (io_world count_io) = (True, {#})"
    by (simp_all add: starts_with_def basename_def count_os_def count_io_def)
  have "fst (strtoul16 ''1000:100'') = 0x1000" "fst (strtoul16 ''1000'') = 0x1000"
    using strtoul16_hex_prefix [of "'':100''" "0x1000"] strtoul16_hex [of "0x1000"] nums(1)
    by (simp_all add: digit_value_def char_code_def)
  then have "main count_os [''/usr/bin/md'', ''-m'', ''1000:100'', ''1000'', ''1''] count_io =
      bindE (md count_os 0x1000 0x1000) (\<lambda>code. thenE (unmap_all count_os) (ret code)) s1"
    using main_md_run [OF pre l(1), of "''1000''" "''1''"] by simp
  moreover have "md count_os 0x1000 0x1000 s1 = (Inr 1, s1\<lparr>io_stderr := io_stderr s1 @ hex (0x1000 :: u32) @ '' +'' @ hex (0x1000 :: u32) @ '' not in mapped memory'' @ NL\<rparr>)"
    by (simp add: md_def covers_def maps not_mapped_def put_err_def exm_simps)
  ultimately show ?thesis
    by (simp add: exm_simps unmap_all_def maps upt_rec unmap_one_def sysdo_def)
qed

theorem main_releases_everything_witness:
  "\<exists>s'. main count_os [''/usr/bin/md'', ''-m'', ''1000:100'', ''1000'', ''1''] count_io = (Inr 1, s') \<and>
    io_world s' = {#} \<and> map mp_virt (io_maps s') = [None]"
proof -
  have "os_counts count_os (\<lambda>w. w)" by (simp add: os_counts_def count_os_def)
  from main_releases_everything [OF this] obtain s' where
    "main count_os [''/usr/bin/md'', ''-m'', ''1000:100'', ''1000'', ''1''] count_io = (Inr 1, s')" "length (io_maps s') = 1"
    "io_world s' = io_world count_io \<and> (\<forall>m \<in> set (io_maps s'). mp_virt m = None)"
    using count_run by (metis count_io_def io_state.select_convs(2))
  then show ?thesis by (cases "io_maps s'") (auto simp: count_io_def)
qed

end
