(* ===== verification/Lpc_Cmds.thy ===== *)
theory Lpc_Cmds
  imports C_Strings
begin

text \<open>
  \<open>lpc_cmds.c\<close> with \<open>lpc_drv.h\<close>: the command line tool for the SuperIO, KCS, mailbox, virtual wire and snoop
  devices.  The operating system and the drivers are the record \<open>lpc_os\<close> over a world \<open>'w\<close>.  The members of a
  structure that the program does not initialise are \<open>None\<close>; reading such a member is undefined behaviour.  The
  code under \<open>SUPPORT_KCS_ADDR_CMD\<close>, which is 0, is not compiled.
\<close>

unbundle bit_operations_syntax

section \<open>Drivers\<close>

datatype sio_cmd = SIO_GET_ACPI_STATE | SIO_GET_PWRGD_STATUS | SIO_GET_ONCTL_STATUS | SIO_SET_ONCTL_GPIO
  | SIO_GET_PWRBTN_OVERRIDE | SIO_GET_PFAIL_STATUS | SIO_SET_BMC_SCI_EVENT | SIO_SET_BMC_SMI_EVENT

record sio_ioctl_data =
  sio_cmd :: sio_cmd
  sio_param :: "u16 option"
  sio_value :: "u32 option"

datatype kcs_cmd = KCS_SET_ADDR | KCS_GET_ADDR | KCS_SMS_ATN | KCS_FORCE_ABORT

text \<open>\<open>enum ACPI_SLP_STATE\<close>.\<close>

definition ACPI_STATE_S12 :: u32 where "ACPI_STATE_S12 = 1"
definition ACPI_STATE_S3I :: u32 where "ACPI_STATE_S3I = 2"
definition ACPI_STATE_S45 :: u32 where "ACPI_STATE_S45 = 3"

definition SIO_DEVICE_NAME :: string where "SIO_DEVICE_NAME = ''/dev/lpc-sio''"
definition KCS_DEVICE_NAME :: string where "KCS_DEVICE_NAME = ''/dev/ipmi-kcs''"
definition MAILBOX_DEVICE_NAME :: string where "MAILBOX_DEVICE_NAME = ''/dev/aspeed-mbox''"
definition VW_DEVICE_NAME :: string where "VW_DEVICE_NAME = ''/dev/aspeed-espi-vw''"
definition SNOOP_DEVICE_NAME :: string where "SNOOP_DEVICE_NAME = ''/dev/aspeed-lpc-snoop''"

definition EAGAIN :: int where "EAGAIN = 11"

text \<open>
  The system calls: \<open>open\<close>, \<open>close\<close>, the \<open>ioctl\<close> requests of the drivers, \<open>read\<close> and \<open>pread\<close> (no list when they
  return -1, otherwise the bytes they return), \<open>write\<close> and \<open>pwrite\<close>, and \<open>errno\<close>.
\<close>

record 'w lpc_os =
  lo_open :: "string \<Rightarrow> 'w \<Rightarrow> int \<times> 'w"
  lo_close :: "int \<Rightarrow> 'w \<Rightarrow> 'w"
  lo_ioctl_kcs :: "int \<Rightarrow> kcs_cmd \<Rightarrow> u32 \<Rightarrow> 'w \<Rightarrow> 'w"
  lo_ioctl_sio :: "int \<Rightarrow> sio_ioctl_data \<Rightarrow> 'w \<Rightarrow> (int \<times> sio_ioctl_data) \<times> 'w"
  lo_vw_get :: "int \<Rightarrow> 'w \<Rightarrow> (int \<times> u32 option) \<times> 'w"
  lo_vw_put :: "int \<Rightarrow> u32 \<Rightarrow> 'w \<Rightarrow> int \<times> 'w"
  lo_read :: "int \<Rightarrow> nat \<Rightarrow> 'w \<Rightarrow> u8 list option \<times> 'w"
  lo_pread :: "int \<Rightarrow> nat \<Rightarrow> int \<Rightarrow> 'w \<Rightarrow> u8 list option \<times> 'w"
  lo_write :: "int \<Rightarrow> u8 list \<Rightarrow> 'w \<Rightarrow> int \<times> 'w"
  lo_pwrite :: "int \<Rightarrow> u8 list \<Rightarrow> int \<Rightarrow> 'w \<Rightarrow> int \<times> 'w"
  lo_errno :: "'w \<Rightarrow> int"
  lo_strerror :: "int \<Rightarrow> string"

record 'w lpc_state =
  lpc_out :: string
  lpc_world :: 'w

definition sysl :: "('w \<Rightarrow> 'a \<times> 'w) \<Rightarrow> ('w lpc_state, 'a) exm" where
  "sysl f = (\<lambda>s. case f (lpc_world s) of (a, w) \<Rightarrow> (Inr a, s\<lparr>lpc_world := w\<rparr>))"

definition syslo :: "('w \<Rightarrow> 'w) \<Rightarrow> ('w lpc_state, unit) exm" where
  "syslo f = modify (\<lambda>s. s\<lparr>lpc_world := f (lpc_world s)\<rparr>)"

definition printf :: "string \<Rightarrow> ('w lpc_state, unit) exm" where
  "printf t = modify (\<lambda>s. s\<lparr>lpc_out := lpc_out s @ t\<rparr>)"

definition TAB :: string where
  "TAB = [CHR 0x09]"

definition initialised :: "'a option \<Rightarrow> ('w lpc_state, 'a) exm" where
  "initialised x = (case x of Some a \<Rightarrow> ret a | None \<Rightarrow> throw (Undefined_Behaviour ''uninitialised value''))"

definition open_or_exit :: "'w lpc_os \<Rightarrow> string \<Rightarrow> string \<Rightarrow> ('w lpc_state, int) exm" where
  "open_or_exit os dev message = bindE (sysl (lo_open os dev)) (\<lambda>fd.
     if fd < 0 then thenE (printf message) (throw (Exit 1)) else ret fd)"

section \<open>KCS\<close>

definition kcs_response :: "u8 list \<Rightarrow> u8 list" where
  "kcs_response pReq = [pReq ! 0 OR 0x04, pReq ! 1, 0xC1]"

definition print_packet :: "string \<Rightarrow> u8 list \<Rightarrow> ('w lpc_state, unit) exm" where
  "print_packet title pkt = printf (NL @ title @ NL @ concat (map (\<lambda>b. HEX02 b @ '' '') pkt) @ NL @ replicate 38 CHR ''='' @ NL)"

definition ProcessKCSReq :: "'w lpc_os \<Rightarrow> int \<Rightarrow> u8 list \<Rightarrow> bool \<Rightarrow> ('w lpc_state, unit) exm" where
  "ProcessKCSReq os fd pReq NoPrint =
     thenE (if NoPrint then ret () else print_packet (''KCS Request '' @ replicate 26 CHR ''>'') pReq)
      (let SendPkt = kcs_response pReq in
       thenE (if NoPrint then ret () else print_packet (''KCS Response '' @ replicate 25 CHR ''<'') SendPkt)
         (bindE (sysl (lo_write os fd SendPkt)) (\<lambda>_. ret ())))"

definition kcs_round :: "'w lpc_os \<Rightarrow> int \<Rightarrow> bool \<Rightarrow> ('w lpc_state, unit) exm" where
  "kcs_round os fd NoPrint = bindE (sysl (lo_read os fd 512)) (\<lambda>pkt. case pkt of
     None \<Rightarrow> ret ()
   | Some RecvPkt \<Rightarrow> if length RecvPkt < 2 then ret () else ProcessKCSReq os fd RecvPkt NoPrint)"

text \<open>The loop has no end: the model runs a given number of rounds of it.\<close>

primrec kcs_loop :: "'w lpc_os \<Rightarrow> int \<Rightarrow> bool \<Rightarrow> nat \<Rightarrow> ('w lpc_state, unit) exm" where
  "kcs_loop os fd NoPrint 0 = ret ()"
| "kcs_loop os fd NoPrint (Suc n) = thenE (kcs_round os fd NoPrint) (kcs_loop os fd NoPrint n)"

definition KCSIfcTask :: "'w lpc_os \<Rightarrow> int \<Rightarrow> bool \<Rightarrow> nat \<Rightarrow> ('w lpc_state, unit) exm" where
  "KCSIfcTask os KCSIfcIdx NoPrint rounds =
     (let KCSDev = take 15 (KCS_DEVICE_NAME @ dec KCSIfcIdx) in
      bindE (open_or_exit os KCSDev (''Error open KCS device: '' @ KCSDev @ NL)) (\<lambda>fd.
        thenE (syslo (lo_ioctl_kcs os fd KCS_FORCE_ABORT 0)) (kcs_loop os fd NoPrint rounds)))"

section \<open>POST codes\<close>

definition ReadBiosPOSTCodes :: "'w lpc_os \<Rightarrow> int \<Rightarrow> ('w lpc_state, unit) exm" where
  "ReadBiosPOSTCodes os if_idx =
     (let snoop_dev = take 31 (SNOOP_DEVICE_NAME @ dec if_idx) in
      bindE (sysl (lo_open os snoop_dev)) (\<lambda>fd.
        if fd < 0 then printf (''Error open '' @ snoop_dev @ '' !'' @ NL)
        else bindE (sysl (lo_read os fd 4096)) (\<lambda>buf. bindE (gets (\<lambda>s. lo_errno os (lpc_world s))) (\<lambda>errno.
          thenE (if buf = Some [] \<or> errno = EAGAIN then printf (''No BIOS POST Codes Found!'' @ NL)
                 else case buf of
                   None \<Rightarrow> printf (''Failed to read the POST Codes! ('' @ lo_strerror os errno @ '')'' @ NL)
                 | Some codes \<Rightarrow> printf (''BIOS POST Codes in Hex ('' @ to_string (length codes) @ '' entries):'' @ NL @
                     concat (map (\<lambda>(i, b). '' '' @ to_string i @ '': '' @ HEX02 b @ NL) (enumerate 0 codes)) @ NL))
            (syslo (lo_close os fd))))))"

section \<open>SuperIO\<close>

text \<open>The part all requests share: open the device, send the request, look at the answer when it is 0, close.\<close>

definition sio_request :: "'w lpc_os \<Rightarrow> sio_ioctl_data \<Rightarrow> (sio_ioctl_data \<Rightarrow> ('w lpc_state, unit) exm) \<Rightarrow> ('w lpc_state, unit) exm" where
  "sio_request os sio_data answer =
     bindE (open_or_exit os SIO_DEVICE_NAME (''Error open '' @ SIO_DEVICE_NAME @ NL)) (\<lambda>fd.
       bindE (sysl (lo_ioctl_sio os fd sio_data)) (\<lambda>(r, sio_data).
         thenE (if r = 0 then answer sio_data else ret ()) (syslo (lo_close os fd))))"

definition SIOGetACPIState :: "'w lpc_os \<Rightarrow> u16 \<Rightarrow> ('w lpc_state, unit) exm" where
  "SIOGetACPIState os changed =
     sio_request os \<lparr>sio_cmd = SIO_GET_ACPI_STATE, sio_param = Some changed, sio_value = None\<rparr> (\<lambda>sio_data.
       thenE (if changed \<noteq> 0 then bindE (initialised (sio_param sio_data)) (\<lambda>param.
           printf (''ACPI SLP state is '' @ (if param \<noteq> 0 then ''Changed'' else ''Same'') @ ''!'' @ NL)) else ret ())
         (bindE (initialised (sio_value sio_data)) (\<lambda>v.
           if v = ACPI_STATE_S12 then printf (''ACPI SLP state --> SLP_12'' @ NL)
           else if v = ACPI_STATE_S3I then printf (''ACPI SLP state --> SLP_3I'' @ NL)
           else if v = ACPI_STATE_S45 then printf (''ACPI SLP state --> SLP_45'' @ NL) else ret ())))"

definition SIOGetPWRGDStatus :: "'w lpc_os \<Rightarrow> u16 \<Rightarrow> ('w lpc_state, unit) exm" where
  "SIOGetPWRGDStatus os changed =
     sio_request os \<lparr>sio_cmd = SIO_GET_PWRGD_STATUS, sio_param = Some changed, sio_value = None\<rparr> (\<lambda>sio_data.
       thenE (if changed \<noteq> 0 then bindE (initialised (sio_param sio_data)) (\<lambda>param.
           printf (''PWRGD status : '' @ (if param \<noteq> 0 then ''Changed'' else ''Same'') @ NL)) else ret ())
         (bindE (initialised (sio_value sio_data)) (\<lambda>v. printf (''PWRGD status value :'' @ to_string (unat v) @ NL))))"

definition SIOGetONCTLStatus :: "'w lpc_os \<Rightarrow> ('w lpc_state, unit) exm" where
  "SIOGetONCTLStatus os =
     sio_request os \<lparr>sio_cmd = SIO_GET_ONCTL_STATUS, sio_param = None, sio_value = None\<rparr> (\<lambda>sio_data.
       bindE (initialised (sio_value sio_data)) (\<lambda>v. printf (''ONCTL status value :'' @ to_string (unat v) @ NL)))"

definition SIOSetONCTLGPIO :: "'w lpc_os \<Rightarrow> u16 \<Rightarrow> u32 \<Rightarrow> ('w lpc_state, unit) exm" where
  "SIOSetONCTLGPIO os enable v =
     sio_request os \<lparr>sio_cmd = SIO_SET_ONCTL_GPIO, sio_param = Some enable, sio_value = Some v\<rparr> (\<lambda>sio_data.
       printf (''ONCTL GPIO mode setting is Done!'' @ NL))"

definition SIOGetPWRBTNOverride :: "'w lpc_os \<Rightarrow> u16 \<Rightarrow> ('w lpc_state, unit) exm" where
  "SIOGetPWRBTNOverride os clear =
     sio_request os \<lparr>sio_cmd = SIO_GET_PWRBTN_OVERRIDE, sio_param = Some clear, sio_value = None\<rparr> (\<lambda>sio_data.
       bindE (initialised (sio_value sio_data)) (\<lambda>v. printf (''PWRBTN Override status : '' @ to_string (unat v) @ NL)))"

definition SIOGetPFailStatus :: "'w lpc_os \<Rightarrow> ('w lpc_state, unit) exm" where
  "SIOGetPFailStatus os =
     sio_request os \<lparr>sio_cmd = SIO_GET_PFAIL_STATUS, sio_param = None, sio_value = None\<rparr> (\<lambda>sio_data.
       bindE (initialised (sio_value sio_data)) (\<lambda>v. printf (''PFail status : '' @ to_string (unat v) @ NL)))"

definition SIOSetBMCSCIEvent :: "'w lpc_os \<Rightarrow> u16 \<Rightarrow> ('w lpc_state, unit) exm" where
  "SIOSetBMCSCIEvent os set_event =
     sio_request os \<lparr>sio_cmd = SIO_SET_BMC_SCI_EVENT, sio_param = Some set_event, sio_value = None\<rparr> (\<lambda>sio_data.
       bindE (initialised (sio_value sio_data)) (\<lambda>v. printf (''BMC SCI event is '' @ (if v \<noteq> 0 then ''set'' else ''cleared'') @ NL)))"

definition SIOSetBMCSMIEvent :: "'w lpc_os \<Rightarrow> u16 \<Rightarrow> ('w lpc_state, unit) exm" where
  "SIOSetBMCSMIEvent os set_event =
     sio_request os \<lparr>sio_cmd = SIO_SET_BMC_SMI_EVENT, sio_param = Some set_event, sio_value = None\<rparr> (\<lambda>sio_data.
       bindE (initialised (sio_value sio_data)) (\<lambda>v. printf (''BMC SMI event is '' @ (if v \<noteq> 0 then ''set'' else ''cleared'') @ NL)))"

section \<open>Virtual wires\<close>

text \<open>\<open>1 << bitMask\<close> as the compiler computes it, for an index below 32.\<close>

definition vw_bit :: "nat \<Rightarrow> u32" where
  "vw_bit bitMask = push_bit bitMask 1"

text \<open>Open the device and read the register; \<open>None\<close> when the handler has ended already.\<close>

definition vw_read :: "'w lpc_os \<Rightarrow> ('w lpc_state, (int \<times> u32) option) exm" where
  "vw_read os = bindE (open_or_exit os VW_DEVICE_NAME (''Error open '' @ VW_DEVICE_NAME @ NL)) (\<lambda>fd.
     bindE (sysl (lo_vw_get os fd)) (\<lambda>(r, reg).
       if r < 0 then bindE (gets (\<lambda>s. lo_errno os (lpc_world s))) (\<lambda>errno.
         thenE (printf (''Error in getting value '' @ lo_strerror os errno @ NL)) (thenE (syslo (lo_close os fd)) (ret None)))
       else bindE (initialised reg) (\<lambda>v. ret (Some (fd, v)))))"

definition SIOGetBMCVWValue :: "'w lpc_os \<Rightarrow> nat \<Rightarrow> ('w lpc_state, unit) exm" where
  "SIOGetBMCVWValue os bitMask = bindE (vw_read os) (\<lambda>x. case x of
     None \<Rightarrow> ret ()
   | Some (fd, reg) \<Rightarrow>
       thenE (printf (''VW Register Bit '' @ to_string bitMask @ '' is '' @ (if reg AND vw_bit bitMask \<noteq> 0 then ''set'' else ''reset'') @ NL))
         (syslo (lo_close os fd)))"

text \<open>\<open>set ^ checkValue\<close> is a bitwise exclusive or of 0 or 1 with the masked register.\<close>

definition SIOSetBMCVWValue :: "'w lpc_os \<Rightarrow> nat \<Rightarrow> bool \<Rightarrow> ('w lpc_state, unit) exm" where
  "SIOSetBMCVWValue os bitMask to_set = bindE (vw_read os) (\<lambda>x. case x of
     None \<Rightarrow> ret ()
   | Some (fd, reg) \<Rightarrow>
       thenE (if (if to_set then 1 else 0) XOR (reg AND vw_bit bitMask) \<noteq> 0
              then let writeVirtualWireRegister = (if to_set then reg OR vw_bit bitMask else reg AND NOT (vw_bit bitMask)) in
                bindE (sysl (lo_vw_put os fd writeVirtualWireRegister)) (\<lambda>r.
                  if r < 0 then bindE (gets (\<lambda>s. lo_errno os (lpc_world s))) (\<lambda>errno.
                    thenE (printf (''Error in setting value '' @ lo_strerror os errno @ NL))
                      (thenE (syslo (lo_close os fd)) (throw (Exit (- 1)))))
                  else ret ())
              else ret ())
         (thenE (printf (''VW Register bit '' @ to_string bitMask @ '' is '' @ (if to_set then ''set'' else ''cleared'') @ NL))
           (syslo (lo_close os fd))))"

section \<open>Mailbox\<close>

definition MailBoxRead :: "'w lpc_os \<Rightarrow> int \<Rightarrow> ('w lpc_state, unit) exm" where
  "MailBoxRead os num = bindE (open_or_exit os MAILBOX_DEVICE_NAME (''Error open mailbox'' @ NL)) (\<lambda>fd.
     bindE (sysl (lo_pread os fd 1 num)) (\<lambda>buf. bindE (gets (\<lambda>s. lo_errno os (lpc_world s))) (\<lambda>errno.
       thenE (if buf = Some [] \<or> errno = EAGAIN then printf (''No mailbox message found!'' @ NL)
              else case buf of
                None \<Rightarrow> printf (''Error reading from mailbox'' @ dec num @ ''! ('' @ lo_strerror os errno @ '')'' @ NL)
              | Some bytes \<Rightarrow> printf (''MailBox'' @ dec num @ '' read value : 0x'' @ HEX02 (hd bytes) @ NL))
         (syslo (lo_close os fd)))))"

definition MailBoxWrite :: "'w lpc_os \<Rightarrow> int \<Rightarrow> u8 \<Rightarrow> ('w lpc_state, unit) exm" where
  "MailBoxWrite os num v = bindE (open_or_exit os MAILBOX_DEVICE_NAME (''Error open mailbox'' @ NL)) (\<lambda>fd.
     bindE (sysl (lo_pwrite os fd [v] num)) (\<lambda>rc.
       thenE (if rc = 1 then printf (''MailBox'' @ dec num @ '' write value : 0x'' @ HEX02 v @ '' done!'' @ NL)
              else printf (''Error writing to mailbox'' @ dec num @ '', rc: '' @ dec rc @ NL))
         (syslo (lo_close os fd))))"

section \<open>The command line\<close>

definition usage_lines :: "string list" where
  "usage_lines = [''sio get_acpi_state'', ''sio get_acpi_changed'', ''sio get_pwrgd_status'', ''sio get_pwrgd_changed'',
     ''sio get_onctl_status'', ''sio set_onctl_gpio_disable'', ''sio set_onctl_gpio_high'', ''sio set_onctl_gpio_low'',
     ''sio get_pwrbtn_override_status'', ''sio get_pwrbtn_override_status_clear'', ''sio get_pfail_status'',
     ''sio set_bmc_sci_event'', ''sio clear_bmc_sci_event'', ''sio set_bmc_smi_event'', ''sio clear_bmc_smi_event'',
     ''sio set_bmc_vw_value <gpio> <1|0>'', ''sio get_bmc_vw_value <gpio>'']"

definition usage_line :: "string \<Rightarrow> string" where
  "usage_line t = TAB @ ''lpc_cmds '' @ t @ NL"

definition lpc_usage :: "('w lpc_state, 'a) exm" where
  "lpc_usage = thenE (printf (''Usage:'' @ NL @ concat (map usage_line usage_lines) @ NL @
       usage_line ''kcs [1 ~ 4] (quiet)'' @ NL @
       usage_line ''mailbox read  (0 ~ 15)'' @ usage_line ''mailbox write (0 ~ 15) (0x00 ~ 0xFF)'' @ NL @
       usage_line ''snoop [0 ~ 1] read''))
     (throw (Exit (- 1)))"

text \<open>An argument as a number between 0 and a limit; anything else ends with a message and the usage.\<close>

definition number_argument :: "string \<Rightarrow> int \<Rightarrow> string \<Rightarrow> ('w lpc_state, int) exm" where
  "number_argument arg limit message = (case strtol 0 arg of (v, endptr, errno) \<Rightarrow>
     if errno \<or> endptr \<noteq> [] \<or> limit < v \<or> v < 0 then thenE (printf (message @ NL)) lpc_usage else ret v)"

definition gpio_index :: "string \<Rightarrow> ('w lpc_state, int) exm" where
  "gpio_index arg = number_argument arg 31 ''Invalid entry: GPIO Index must be between 0 and 31''"

definition gpio_value :: "string \<Rightarrow> ('w lpc_state, int) exm" where
  "gpio_value arg = number_argument arg 1 ''Invalid entry: GPIO value must be 0 or 1''"

definition sio_main :: "'w lpc_os \<Rightarrow> string list \<Rightarrow> ('w lpc_state, unit) exm" where
  "sio_main os argv =
     (let argc = length argv; sub = argv ! 2 in
      if sub = ''get_acpi_state'' then SIOGetACPIState os 0
      else if sub = ''get_acpi_changed'' then SIOGetACPIState os 1
      else if sub = ''get_pwrgd_status'' then SIOGetPWRGDStatus os 0
      else if sub = ''get_pwrgd_changed'' then SIOGetPWRGDStatus os 1
      else if sub = ''get_onctl_status'' then SIOGetONCTLStatus os
      else if sub = ''set_onctl_gpio_disable'' then SIOSetONCTLGPIO os 0 0
      else if sub = ''set_onctl_gpio_high'' then SIOSetONCTLGPIO os 1 1
      else if sub = ''set_onctl_gpio_low'' then SIOSetONCTLGPIO os 1 0
      else if sub = ''get_pwrbtn_override_status'' then SIOGetPWRBTNOverride os 0
      else if sub = ''get_pwrbtn_override_status_clear'' then SIOGetPWRBTNOverride os 1
      else if sub = ''get_pfail_status'' then SIOGetPFailStatus os
      else if sub = ''set_bmc_sci_event'' then SIOSetBMCSCIEvent os 1
      else if sub = ''clear_bmc_sci_event'' then SIOSetBMCSCIEvent os 0
      else if sub = ''set_bmc_smi_event'' then SIOSetBMCSMIEvent os 1
      else if sub = ''clear_bmc_smi_event'' then SIOSetBMCSMIEvent os 0
      else if sub = ''get_bmc_vw_value''
      then if argc < 4 then lpc_usage
        else bindE (gpio_index (argv ! 3)) (\<lambda>gpioIndex. SIOGetBMCVWValue os (nat gpioIndex))
      else if sub = ''set_bmc_vw_value''
      then if argc < 5 then lpc_usage
        else bindE (gpio_index (argv ! 3)) (\<lambda>gpioIndex. bindE (gpio_value (argv ! 4)) (\<lambda>gpioVal.
          SIOSetBMCVWValue os (nat gpioIndex) (gpioVal \<noteq> 0)))
      else ret ())"

text \<open>The exit status, or \<open>None\<close> while the KCS loop still runs after the given number of rounds.\<close>

definition lpc_main :: "'w lpc_os \<Rightarrow> nat \<Rightarrow> string list \<Rightarrow> ('w lpc_state, int option) exm" where
  "lpc_main os rounds argv =
     (let argc = length argv in
      if argc < 2 then lpc_usage
      else let cmd = argv ! 1 in
        if cmd = ''sio'' then if argc < 3 then lpc_usage else thenE (sio_main os argv) (ret (Some 0))
        else if cmd = ''kcs''
        then if argc < 3 then lpc_usage
          else let ifc = atoi (argv ! 2) in
            if ifc < 1 \<or> 4 < ifc then lpc_usage
            else if argc = 3 then thenE (KCSIfcTask os ifc False rounds) (ret None)
            else if argc = 4 \<and> argv ! 3 = ''quiet'' then thenE (KCSIfcTask os ifc True rounds) (ret None)
            else ret (Some 0)
        else if cmd = ''mailbox''
        then if argc < 4 then lpc_usage
          else if argv ! 2 = ''read'' then thenE (MailBoxRead os (atoi (argv ! 3))) (ret (Some 0))
          else if argc < 5 then lpc_usage
          else thenE (MailBoxWrite os (atoi (argv ! 3)) (ucast (fst (strtoul16 (argv ! 4))))) (ret (Some 0))
        else if cmd = ''snoop''
        then if argc < 3 then lpc_usage
          else let ifc = atoi (argv ! 2) in
            if ifc < 0 \<or> 1 < ifc then lpc_usage
            else if argc = 3 then throw (Undefined_Behaviour ''null pointer'')
            else if argv ! 3 = ''read'' then thenE (ReadBiosPOSTCodes os ifc) (ret (Some 0))
            else lpc_usage
        else ret (Some 0))"

section \<open>What the tool promises\<close>

text \<open>A virtual wire driver with one register.\<close>

definition vw_device :: "'w lpc_os \<Rightarrow> ('w \<Rightarrow> u32) \<Rightarrow> bool" where
  "vw_device os reg \<longleftrightarrow>
     (\<forall>w. 0 \<le> fst (lo_open os VW_DEVICE_NAME w) \<and> reg (snd (lo_open os VW_DEVICE_NAME w)) = reg w) \<and>
     (\<forall>fd w. fst (lo_vw_get os fd w) = (0, Some (reg w)) \<and> reg (snd (lo_vw_get os fd w)) = reg w) \<and>
     (\<forall>fd x w. fst (lo_vw_put os fd x w) = 0 \<and> reg (snd (lo_vw_put os fd x w)) = x) \<and>
     (\<forall>fd w. reg (lo_close os fd w) = reg w)"

lemma bit_vw_bit: "bit (vw_bit i) k \<longleftrightarrow> k = i \<and> i < 32"
  by (auto simp: vw_bit_def bit_exp_iff)

lemma and_vw_bit: "i < 32 \<Longrightarrow> reg AND vw_bit i \<noteq> 0 \<longleftrightarrow> bit reg i"
proof
  assume "reg AND vw_bit i \<noteq> 0"
  then obtain k where "bit (reg AND vw_bit i) k" by (metis bit_eqI bit_0_eq bot_apply bot_bool_def)
  then show "bit reg i" by (auto simp: bit_and_iff bit_vw_bit)
next
  assume "i < 32" "bit reg i"
  then have "bit (reg AND vw_bit i) i" by (simp add: bit_and_iff bit_vw_bit)
  then show "reg AND vw_bit i \<noteq> 0" by auto
qed

lemma vw_read_run:
  assumes "vw_device os reg"
  shows "\<exists>fd w. vw_read os s = (Inr (Some (fd, reg (lpc_world s))), s\<lparr>lpc_world := w\<rparr>) \<and> reg w = reg (lpc_world s)"
proof -
  obtain fd w where o: "lo_open os VW_DEVICE_NAME (lpc_world s) = (fd, w)" by fastforce
  obtain r w' where g: "lo_vw_get os fd w = (r, w')" by fastforce
  have "0 \<le> fd" "reg w = reg (lpc_world s)" using assms o by (auto simp: vw_device_def dest: spec [of _ "lpc_world s"])
  moreover have "r = (0, Some (reg w))" "reg w' = reg w"
    using assms g unfolding vw_device_def by (metis fst_conv snd_conv)+
  ultimately show ?thesis
    using o g by (intro exI [of _ fd] exI [of _ w']) (simp add: vw_read_def open_or_exit_def exm_simps sysl_def initialised_def)
qed

lemma set_vw_run:
  assumes "vw_device os reg" and "i < 32" and "SIOSetBMCVWValue os i v s = (x, s')"
  shows "x = Inr () \<and> reg (lpc_world s') = (if v then reg (lpc_world s) OR vw_bit i else reg (lpc_world s) AND NOT (vw_bit i))"
proof -
  let ?r = "reg (lpc_world s)"
  obtain fd w where rd: "vw_read os s = (Inr (Some (fd, ?r)), s\<lparr>lpc_world := w\<rparr>)" "reg w = ?r"
    using vw_read_run [OF assms(1)] by blast
  have close: "reg (lo_close os fd w) = reg w" for w using assms(1) by (simp add: vw_device_def)
  have put: "\<exists>w'. lo_vw_put os fd y w = (0, w') \<and> reg w' = y" for y w
    using assms(1) unfolding vw_device_def by (metis prod.collapse)
  have same: "(if v then ?r OR vw_bit i else ?r AND NOT (vw_bit i)) = ?r"
    if "(if v then 1 else 0) XOR (?r AND vw_bit i) = 0"
  proof (cases v)
    case True
    have "1 XOR (1 XOR (?r AND vw_bit i)) = ?r AND vw_bit i" by (simp flip: xor.assoc)
    with True that have "?r AND vw_bit i = 1" by simp
    then have "bit ?r i" using and_vw_bit [OF assms(2), of ?r] by simp
    then have "?r OR vw_bit i = ?r" by (intro bit_word_eqI) (auto simp: bit_or_iff bit_vw_bit)
    with True show ?thesis by simp
  next
    case False
    with that have "\<not> bit ?r i" using and_vw_bit [OF assms(2), of ?r] by simp
    then have "?r AND NOT (vw_bit i) = ?r" by (intro bit_word_eqI) (auto simp: bit_and_iff bit_not_iff bit_vw_bit)
    with False show ?thesis by simp
  qed
  show ?thesis
  proof (cases "(if v then 1 else 0) XOR (?r AND vw_bit i) = 0")
    case True
    with same rd assms(3) close show ?thesis
      by (auto simp: SIOSetBMCVWValue_def exm_simps printf_def syslo_def)
  next
    case False
    obtain w' where "lo_vw_put os fd (if v then ?r OR vw_bit i else ?r AND NOT (vw_bit i)) w = (0, w')"
      "reg w' = (if v then ?r OR vw_bit i else ?r AND NOT (vw_bit i))"
      using put by blast
    with False rd assms(3) close show ?thesis
      by (auto simp: SIOSetBMCVWValue_def exm_simps printf_def syslo_def sysl_def Let_def)
  qed
qed

lemma get_vw_run:
  assumes "vw_device os reg" and "i < 32" and "SIOGetBMCVWValue os i s = (x, s')"
  shows "x = Inr () \<and> reg (lpc_world s') = reg (lpc_world s) \<and>
    lpc_out s' = lpc_out s @ ''VW Register Bit '' @ to_string i @ '' is '' @ (if bit (reg (lpc_world s)) i then ''set'' else ''reset'') @ NL"
proof -
  obtain fd w where rd: "vw_read os s = (Inr (Some (fd, reg (lpc_world s))), s\<lparr>lpc_world := w\<rparr>)" "reg w = reg (lpc_world s)"
    using vw_read_run [OF assms(1)] by blast
  have "reg (lo_close os fd w) = reg w" using assms(1) by (simp add: vw_device_def)
  with rd assms(3) and_vw_bit [OF assms(2), of "reg (lpc_world s)"] show ?thesis
    by (auto simp: SIOGetBMCVWValue_def exm_simps printf_def syslo_def)
qed


text \<open>A system whose world holds the register, the KCS requests to come and the responses written.\<close>

record demo_world =
  dw_reg :: u32
  dw_requests :: "u8 list option list"
  dw_responses :: "u8 list list"

definition demo_lpc :: "demo_world lpc_os" where
  "demo_lpc = \<lparr>lo_open = (\<lambda>f w. (3, w)), lo_close = (\<lambda>fd w. w), lo_ioctl_kcs = (\<lambda>fd c d w. w),
     lo_ioctl_sio = (\<lambda>fd d w. ((0, d), w)), lo_vw_get = (\<lambda>fd w. ((0, Some (dw_reg w)), w)),
     lo_vw_put = (\<lambda>fd x w. (0, w\<lparr>dw_reg := x\<rparr>)),
     lo_read = (\<lambda>fd n w. case dw_requests w of [] \<Rightarrow> (None, w) | r # rs \<Rightarrow> (r, w\<lparr>dw_requests := rs\<rparr>)),
     lo_pread = (\<lambda>fd n off w. (Some [], w)), lo_write = (\<lambda>fd bs w. (int (length bs), w\<lparr>dw_responses := dw_responses w @ [bs]\<rparr>)),
     lo_pwrite = (\<lambda>fd bs off w. (1, w)), lo_errno = (\<lambda>w. 0), lo_strerror = (\<lambda>e. ''error'')\<rparr>"

definition demo_lpc_state :: "u8 list option list \<Rightarrow> demo_world lpc_state" where
  "demo_lpc_state rs = \<lparr>lpc_out = [], lpc_world = \<lparr>dw_reg = 0x100, dw_requests = rs, dw_responses = []\<rparr>\<rparr>"




text \<open>A KCS driver: a queue of what its reads return, and the responses written.\<close>

definition kcs_device :: "'w lpc_os \<Rightarrow> ('w \<Rightarrow> u8 list option list) \<Rightarrow> ('w \<Rightarrow> u8 list list) \<Rightarrow> bool" where
  "kcs_device os rq wr \<longleftrightarrow>
     (\<forall>f w. 0 \<le> fst (lo_open os f w) \<and> rq (snd (lo_open os f w)) = rq w \<and> wr (snd (lo_open os f w)) = wr w) \<and>
     (\<forall>fd c d w. rq (lo_ioctl_kcs os fd c d w) = rq w \<and> wr (lo_ioctl_kcs os fd c d w) = wr w) \<and>
     (\<forall>fd w. fst (lo_read os fd 512 w) = (case rq w of [] \<Rightarrow> None | r # _ \<Rightarrow> r) \<and>
        rq (snd (lo_read os fd 512 w)) = tl (rq w) \<and> wr (snd (lo_read os fd 512 w)) = wr w) \<and>
     (\<forall>fd bs w. rq (snd (lo_write os fd bs w)) = rq w \<and> wr (snd (lo_write os fd bs w)) = wr w @ [bs])"

definition requests :: "u8 list option list \<Rightarrow> u8 list list" where
  "requests rs = filter (\<lambda>r. 2 \<le> length r) (map the (filter (\<lambda>r. r \<noteq> None) rs))"

lemma kcs_round_run:
  assumes "kcs_device os rq wr"
  shows "\<exists>s'. kcs_round os fd q s = (Inr (), s') \<and> rq (lpc_world s') = tl (rq (lpc_world s)) \<and>
    wr (lpc_world s') = wr (lpc_world s) @ map kcs_response (requests (take 1 (rq (lpc_world s))))"
proof -
  obtain r w where rd: "lo_read os fd 512 (lpc_world s) = (r, w)" by fastforce
  have r: "r = (case rq (lpc_world s) of [] \<Rightarrow> None | r # _ \<Rightarrow> r)" "rq w = tl (rq (lpc_world s))" "wr w = wr (lpc_world s)"
    using assms rd unfolding kcs_device_def by (metis fst_conv snd_conv)+
  have req: "requests (take 1 (rq (lpc_world s))) = (case r of None \<Rightarrow> [] | Some p \<Rightarrow> if 2 \<le> length p then [p] else [])"
    by (cases "rq (lpc_world s)") (auto simp: requests_def r(1) split: option.splits)
  show ?thesis
  proof (cases "\<exists>p. r = Some p \<and> 2 \<le> length p")
    case False
    with rd r(2,3) req show ?thesis by (auto simp: kcs_round_def exm_simps sysl_def split: option.splits)
  next
    case True
    then obtain p where p: "r = Some p" "2 \<le> length p" by blast
    obtain c w' where wt: "lo_write os fd (kcs_response p) w = (c, w')" by fastforce
    have "rq w' = rq w" "wr w' = wr w @ [kcs_response p]"
      using assms wt unfolding kcs_device_def by (metis snd_conv)+
    with p rd r(2,3) req wt show ?thesis
      by (simp add: kcs_round_def exm_simps sysl_def ProcessKCSReq_def print_packet_def printf_def Let_def)
  qed
qed

lemma requests_append: "requests (xs @ ys) = requests xs @ requests ys"
  by (simp add: requests_def)

lemma kcs_loop_run:
  assumes "kcs_device os rq wr"
  shows "\<exists>s'. kcs_loop os fd q n s = (Inr (), s') \<and>
    wr (lpc_world s') = wr (lpc_world s) @ map kcs_response (requests (take n (rq (lpc_world s))))"
proof (induction n arbitrary: s)
  case 0
  then show ?case by (simp add: requests_def)
next
  case (Suc n)
  obtain s1 where 1: "kcs_round os fd q s = (Inr (), s1)" "rq (lpc_world s1) = tl (rq (lpc_world s))"
    "wr (lpc_world s1) = wr (lpc_world s) @ map kcs_response (requests (take 1 (rq (lpc_world s))))"
    using kcs_round_run [OF assms] by blast
  obtain s2 where 2: "kcs_loop os fd q n s1 = (Inr (), s2)"
    "wr (lpc_world s2) = wr (lpc_world s1) @ map kcs_response (requests (take n (rq (lpc_world s1))))"
    using Suc.IH by blast
  have "take (Suc n) xs = take 1 xs @ take n (tl xs)" for xs :: "u8 list option list" by (cases xs) auto
  with 1 2 show ?case by (auto simp: exm_simps requests_append)
qed

text \<open>C33: Within any number of rounds the KCS task answers exactly the requests of at least two bytes among what it has
  read, in order and once each, with the request's own command, its function code turned into that of the response,
  and the completion code 0xC1; failed and short reads are passed over, and the task never ends by itself.\<close>

theorem kcs_answers_every_request:
  assumes "kcs_device os rq wr" and "1 \<le> ifc" and "ifc \<le> 4"
  shows "\<exists>s'. lpc_main os n [exe, ''kcs'', to_string ifc] s = (Inr None, s') \<and>
    wr (lpc_world s') = wr (lpc_world s) @
      map (\<lambda>r. [r ! 0 OR 4, r ! 1, 0xC1]) (filter (\<lambda>r. 2 \<le> length r) (map the (filter (\<lambda>r. r \<noteq> None) (take n (rq (lpc_world s))))))"
proof -
  have ifc: "atoi (to_string ifc) = int ifc" using assms(3) by (intro atoi_to_string) simp
  obtain fd w where o: "lo_open os (take 15 (KCS_DEVICE_NAME @ dec (int ifc))) (lpc_world s) = (fd, w)" by fastforce
  have "0 \<le> fd" "rq w = rq (lpc_world s)" "wr w = wr (lpc_world s)"
    using assms(1) o unfolding kcs_device_def by (metis fst_conv snd_conv)+
  moreover obtain s' where "kcs_loop os fd False n (s\<lparr>lpc_world := lo_ioctl_kcs os fd KCS_FORCE_ABORT 0 w\<rparr>) = (Inr (), s')"
    "wr (lpc_world s') = wr w @ map kcs_response (requests (take n (rq w)))"
    using kcs_loop_run [OF assms(1), of fd False n "s\<lparr>lpc_world := lo_ioctl_kcs os fd KCS_FORCE_ABORT 0 w\<rparr>"] assms(1)
    by (auto simp: kcs_device_def)
  moreover have "kcs_response = (\<lambda>r. [r ! 0 OR 4, r ! 1, 0xC1])" by (simp add: fun_eq_iff kcs_response_def)
  ultimately show ?thesis
    using assms(2,3) o by (simp add: lpc_main_def Let_def ifc KCSIfcTask_def open_or_exit_def exm_simps sysl_def syslo_def requests_def)
qed

theorem kcs_answers_every_request_witness:
  "\<exists>s'. lpc_main demo_lpc 3 [''lpc_cmds'', ''kcs'', to_string 1] (demo_lpc_state [Some [0x18, 0x01], None, Some [0x2C, 0x02, 0xDC]]) = (Inr None, s') \<and>
     dw_responses (lpc_world s') = [[0x1C, 0x01, 0xC1], [0x2C, 0x02, 0xC1]]"
proof -
  have "kcs_device demo_lpc dw_requests dw_responses"
    by (simp add: kcs_device_def demo_lpc_def split: list.splits)
  from kcs_answers_every_request [OF this, of 1 3 "''lpc_cmds''" "demo_lpc_state [Some [0x18, 0x01], None, Some [0x2C, 0x02, 0xDC]]"]
  show ?thesis by (simp add: demo_lpc_state_def)
qed

text \<open>Arguments the tool does not check: a snoop request without its last argument dereferences a null pointer; an
  unknown command, or an unknown SuperIO request, ends with exit status 0 without doing anything; and a driver that
  leaves the data of an event request alone makes the tool print a value it never initialised.\<close>

theorem unchecked_arguments:
  "lpc_main os n [exe, ''snoop'', ''0''] s = (Inl (Undefined_Behaviour ''null pointer''), s) \<and>
   lpc_main os n [exe, ''smbus'', arg] s = (Inr (Some 0), s) \<and>
   lpc_main os n [exe, ''sio'', ''set_sci_event''] s = (Inr (Some 0), s) \<and>
   (case lo_open os SIO_DEVICE_NAME (lpc_world s) of (fd, w) \<Rightarrow>
      case lo_ioctl_sio os fd \<lparr>sio_cmd = SIO_SET_BMC_SCI_EVENT, sio_param = Some 1, sio_value = None\<rparr> w of ((r, d), w') \<Rightarrow>
        0 \<le> fd \<and> r = 0 \<and> sio_value d = None \<longrightarrow>
        fst (lpc_main os n [exe, ''sio'', ''set_bmc_sci_event''] s) = Inl (Undefined_Behaviour ''uninitialised value''))"
proof (intro conjI)
  have "to_string 0 = ''0''" by code_simp
  then have "atoi ''0'' = 0" using atoi_to_string [of 0] by simp
  then show "lpc_main os n [exe, ''snoop'', ''0''] s = (Inl (Undefined_Behaviour ''null pointer''), s)"
    by (simp add: lpc_main_def)
  show "lpc_main os n [exe, ''smbus'', arg] s = (Inr (Some 0), s)"
    "lpc_main os n [exe, ''sio'', ''set_sci_event''] s = (Inr (Some 0), s)"
    by (simp_all add: lpc_main_def sio_main_def exm_simps)
  show "case lo_open os SIO_DEVICE_NAME (lpc_world s) of (fd, w) \<Rightarrow>
      case lo_ioctl_sio os fd \<lparr>sio_cmd = SIO_SET_BMC_SCI_EVENT, sio_param = Some 1, sio_value = None\<rparr> w of ((r, d), w') \<Rightarrow>
        0 \<le> fd \<and> r = 0 \<and> sio_value d = None \<longrightarrow>
        fst (lpc_main os n [exe, ''sio'', ''set_bmc_sci_event''] s) = Inl (Undefined_Behaviour ''uninitialised value'')"
    by (auto simp: lpc_main_def sio_main_def SIOSetBMCSCIEvent_def sio_request_def open_or_exit_def exm_simps sysl_def
        initialised_def split: prod.splits)
qed

theorem unchecked_arguments_witness:
  "fst (lpc_main demo_lpc 0 [''lpc_cmds'', ''sio'', ''set_bmc_sci_event''] (demo_lpc_state [])) = Inl (Undefined_Behaviour ''uninitialised value'')"
  using unchecked_arguments [of demo_lpc 0 "''lpc_cmds''" "demo_lpc_state []" "[]"]
  by (simp add: demo_lpc_def)

end
