(* ===== verification/Beeper_Test.thy ===== *)
theory Beeper_Test
  imports C_Strings
begin

text \<open>
  \<open>beeper-test.cpp\<close>: plays a sequence of tones through an input device.  The system calls are the record
  \<open>beep_os\<close> over a world \<open>'w\<close>; \<open>int\<close> has 32 bits, and its overflow is undefined behaviour.
\<close>

record input_event =
  ev_type :: u16
  ev_code :: u16
  ev_value :: int

record 'w beep_os =
  bo_open :: "string \<Rightarrow> 'w \<Rightarrow> int \<times> 'w"
  bo_write :: "int \<Rightarrow> input_event \<Rightarrow> 'w \<Rightarrow> int \<times> 'w"
  bo_usleep :: "u32 \<Rightarrow> 'w \<Rightarrow> 'w"
  bo_close :: "int \<Rightarrow> 'w \<Rightarrow> 'w"
  bo_strerror :: "'w \<Rightarrow> string"

record 'w beep_state =
  beep_out :: string
  beep_err :: string
  beep_world :: 'w

definition EV_SND :: u16 where "EV_SND = 0x12"
definition SND_TONE :: u16 where "SND_TONE = 2"
definition sizeof_input_event :: int where "sizeof_input_event = 16"

definition beep_sys :: "('w \<Rightarrow> 'a \<times> 'w) \<Rightarrow> ('w beep_state, 'a) exm" where
  "beep_sys f = (\<lambda>s. case f (beep_world s) of (a, w) \<Rightarrow> (Inr a, s\<lparr>beep_world := w\<rparr>))"

definition perror :: "'w beep_os \<Rightarrow> string \<Rightarrow> ('w beep_state, unit) exm" where
  "perror os message = modify (\<lambda>s. s\<lparr>beep_err := beep_err s @ message @ '': '' @ bo_strerror os (beep_world s) @ NL\<rparr>)"

definition close_with :: "'w beep_os \<Rightarrow> int \<Rightarrow> int \<Rightarrow> ('w beep_state, int) exm" where
  "close_with os fd code = thenE (modify (\<lambda>s. s\<lparr>beep_world := bo_close os fd (beep_world s)\<rparr>)) (ret code)"

text \<open>The loop over the tokens of the sequence.\<close>

fun play :: "'w beep_os \<Rightarrow> int \<Rightarrow> string list \<Rightarrow> ('w beep_state, int) exm" where
  "play os fd [] = close_with os fd 0"
| "play os fd [tone] = thenE (modify (\<lambda>s. s\<lparr>beep_err := beep_err s @ ''Invalid tone,duration pair'' @ NL\<rparr>)) (close_with os fd (- 1))"
| "play os fd (tone # duration # rest) =
     (let durationMs = atoi duration in
      bindE (beep_sys (bo_write os fd \<lparr>ev_type = EV_SND, ev_code = SND_TONE, ev_value = atoi tone\<rparr>)) (\<lambda>n.
        if n \<noteq> sizeof_input_event
        then thenE (perror os ''Failed to write a tone sound event'') (close_with os fd (- 1))
        else if durationMs * 1000 < - (2 ^ 31) \<or> 2 ^ 31 \<le> durationMs * 1000
        then throw (Undefined_Behaviour ''signed overflow'')
        else thenE (modify (\<lambda>s. s\<lparr>beep_world := bo_usleep os (word_of_int (durationMs * 1000)) (beep_world s)\<rparr>))
          (play os fd rest)))"

definition beeper_main :: "'w beep_os \<Rightarrow> string list \<Rightarrow> ('w beep_state, int) exm" where
  "beeper_main os argv =
     (if length argv < 3
      then thenE (modify (\<lambda>s. s\<lparr>beep_out := beep_out s @
          ''usage: <input device> <sequence of '' @ [CHR 0x27] @ ''tone in Hz'' @ [CHR 0x27, CHR '','', CHR 0x27] @
          ''duration in ms'' @ [CHR 0x27] @ '' pair>'' @ NL @
          ''example: beeper-test /dev/input/event0 2100,100,0,150,2500,50,0,50,2200,100'' @ NL\<rparr>)) (ret 1)
      else bindE (beep_sys (bo_open os (argv ! 1))) (\<lambda>fd.
        if fd < 0 then thenE (perror os ''Failed to open input device'') (ret (- 1))
        else play os fd (tokens '','' (argv ! 2))))"

section \<open>What it plays\<close>

text \<open>A device that accepts every event, with a log of the tones and pauses.\<close>

definition beeper_device :: "'w beep_os \<Rightarrow> ('w \<Rightarrow> (int + u32) list) \<Rightarrow> bool" where
  "beeper_device os log \<longleftrightarrow>
     (\<forall>f w. 0 \<le> fst (bo_open os f w) \<and> log (snd (bo_open os f w)) = log w) \<and>
     (\<forall>fd e w. fst (bo_write os fd e w) = sizeof_input_event \<and>
        log (snd (bo_write os fd e w)) = log w @ (if ev_type e = EV_SND \<and> ev_code e = SND_TONE then [Inl (ev_value e)] else [])) \<and>
     (\<forall>t w. log (bo_usleep os t w) = log w @ [Inr t]) \<and> (\<forall>fd w. log (bo_close os fd w) = log w)"

lemma play_run:
  assumes "beeper_device os log" and "\<forall>(t, d) \<in> set ps. t < 2 ^ 31 \<and> 1000 * d < 2 ^ 31"
  shows "\<exists>s'. play os fd (concat (map (\<lambda>(t, d). [to_string t, to_string d]) ps)) s = (Inr 0, s') \<and>
    log (beep_world s') = log (beep_world s) @ concat (map (\<lambda>(t, d). [Inl (int t), Inr (of_nat (d * 1000))]) ps)"
  using assms(2)
proof (induction ps arbitrary: s)
  case Nil
  then show ?case using assms(1) by (simp add: close_with_def exm_simps beeper_device_def)
next
  case (Cons p ps)
  obtain t d where p: "p = (t, d)" by fastforce
  let ?e = "\<lparr>ev_type = EV_SND, ev_code = SND_TONE, ev_value = int t\<rparr>"
  obtain n w where w: "bo_write os fd ?e (beep_world s) = (n, w)" by fastforce
  have "fst (bo_write os fd ?e (beep_world s)) = sizeof_input_event \<and>
      log (snd (bo_write os fd ?e (beep_world s))) = log (beep_world s) @ [Inl (int t)]"
    using assms(1) by (simp add: beeper_device_def)
  with w have n: "n = sizeof_input_event" "log w = log (beep_world s) @ [Inl (int t)]" by simp_all
  have td: "t < 2 ^ 31" "d < 2 ^ 31" "1000 * int d < 2 ^ 31" using Cons.prems p by auto
  have u: "(word_of_int (int d * 1000) :: u32) = of_nat (d * 1000)" by simp
  let ?s = "s\<lparr>beep_world := bo_usleep os (of_nat (d * 1000)) w\<rparr>"
  have "log (beep_world ?s) = log (beep_world s) @ [Inl (int t), Inr (of_nat (d * 1000))]"
    using assms(1) n(2) by (simp add: beeper_device_def)
  moreover obtain s' where "play os fd (concat (map (\<lambda>(t, d). [to_string t, to_string d]) ps)) ?s = (Inr 0, s')"
    "log (beep_world s') = log (beep_world ?s) @ concat (map (\<lambda>(t, d). [Inl (int t), Inr (of_nat (d * 1000))]) ps)"
    using Cons.IH [of ?s] Cons.prems by auto
  ultimately show ?case
    using w n(1) td u by (simp add: p atoi_to_string exm_simps beep_sys_def Let_def)
qed

text \<open>A sequence of pairs is played as it is written: every tone, followed by a pause of its duration in microseconds.\<close>

theorem beeper_plays_exactly:
  assumes "beeper_device os log" and "\<forall>(t, d) \<in> set ps. t < 2 ^ 31 \<and> 1000 * d < 2 ^ 31"
  shows "\<exists>s'. beeper_main os [exe, dev, join CHR '','' (concat (map (\<lambda>(t, d). [to_string t, to_string d]) ps))] s = (Inr 0, s') \<and>
    log (beep_world s') = log (beep_world s) @ concat (map (\<lambda>(t, d). [Inl (int t), Inr (of_nat (d * 1000))]) ps)"
proof -
  have "is_token '','' (to_string n)" for n
    using to_string_digits [of _ n] by (fastforce simp: is_token_def isdigit_def char_code_def)
  then have "tokens '','' (join CHR '','' (concat (map (\<lambda>(t, d). [to_string t, to_string d]) ps))) =
      concat (map (\<lambda>(t, d). [to_string t, to_string d]) ps)"
    by (intro tokens_join) (auto simp: list_all_iff)
  moreover obtain fd w where o: "bo_open os dev (beep_world s) = (fd, w)" by fastforce
  moreover have "0 \<le> fd" "log w = log (beep_world s)" using assms(1) o unfolding beeper_device_def by (metis fst_conv snd_conv)+
  moreover obtain s' where "play os fd (concat (map (\<lambda>(t, d). [to_string t, to_string d]) ps)) (s\<lparr>beep_world := w\<rparr>) = (Inr 0, s')"
    "log (beep_world s') = log w @ concat (map (\<lambda>(t, d). [Inl (int t), Inr (of_nat (d * 1000))]) ps)"
    using play_run [OF assms, of fd "s\<lparr>beep_world := w\<rparr>"] by auto
  ultimately show ?thesis by (simp add: beeper_main_def exm_simps beep_sys_def)
qed

end
