(* ===== verification/Oom_Test.thy ===== *)
theory Oom_Test
  imports C_Strings
begin

text \<open>
  \<open>oom-test.c\<close>: allocates blocks of the size given with \<open>-s\<close>, fills them and never frees them, until \<open>malloc\<close>
  fails.  The option scanner is that of the C library, \<open>malloc\<close> is the record \<open>oom_os\<close> over a world \<open>'w\<close>, and the
  memory is a map from addresses to bytes.  \<open>int\<close> and \<open>size_t\<close> have 32 bits; overflow of \<open>int\<close> is undefined
  behaviour.
\<close>

section \<open>Options\<close>

text \<open>
  \<open>getopt\<close>: the state is what is left of the argument that is being scanned and the arguments after it.  An
  argument that is no option is passed over, \<open>--\<close> ends the options.  \<open>opt_spec\<close> looks a letter up in the option
  string: it is unknown, or it is known, with or without a value.
\<close>

fun opt_spec :: "string \<Rightarrow> char \<Rightarrow> bool option" where
  "opt_spec [] c = None"
| "opt_spec (x # xs) c = (if x = c \<and> c \<noteq> CHR '':'' then Some (starts_with '':'' xs) else opt_spec xs c)"

datatype getopt_result =
    Opt_End
  | Opt char "string option" string "string list"
  | Opt_Invalid char
  | Opt_Missing char

definition getopt_letter :: "string \<Rightarrow> char \<Rightarrow> string \<Rightarrow> string list \<Rightarrow> getopt_result" where
  "getopt_letter optstring c r args = (case opt_spec optstring c of
     None \<Rightarrow> Opt_Invalid c
   | Some False \<Rightarrow> Opt c None r args
   | Some True \<Rightarrow> (if r \<noteq> [] then Opt c (Some r) [] args
       else case args of [] \<Rightarrow> Opt_Missing c | v # args' \<Rightarrow> Opt c (Some v) [] args'))"

primrec getopt_next :: "string \<Rightarrow> string list \<Rightarrow> getopt_result" where
  "getopt_next optstring [] = Opt_End"
| "getopt_next optstring (arg # args) =
     (if arg = ''--'' then Opt_End
      else case arg of
        m # c # r \<Rightarrow> (if m = CHR ''-'' then getopt_letter optstring c r args else getopt_next optstring args)
      | _ \<Rightarrow> getopt_next optstring args)"

definition getopt :: "string \<Rightarrow> string \<Rightarrow> string list \<Rightarrow> getopt_result" where
  "getopt optstring nextchar args = (case nextchar of
     [] \<Rightarrow> getopt_next optstring args
   | c # r \<Rightarrow> getopt_letter optstring c r args)"

definition getopt_size :: "string \<Rightarrow> string list \<Rightarrow> nat" where
  "getopt_size nextchar args = length nextchar + sum_list (map (\<lambda>a. Suc (length a)) args)"

lemma getopt_letter_smaller:
  "getopt_letter optstring c r args = Opt c' v r' args' \<Longrightarrow> getopt_size r' args' \<le> getopt_size r args"
  by (auto simp: getopt_letter_def getopt_size_def split: option.splits bool.splits if_splits list.splits)

lemma getopt_next_smaller:
  "getopt_next optstring args = Opt c v r' args' \<Longrightarrow> getopt_size r' args' < getopt_size [] args"
proof (induction args)
  case (Cons arg args)
  then show ?case
    by (auto simp: getopt_size_def dest!: getopt_letter_smaller split: if_splits list.splits)
qed simp

lemma getopt_smaller: "getopt optstring nextchar args = Opt c v r' args' \<Longrightarrow> getopt_size r' args' < getopt_size nextchar args"
proof (cases nextchar)
  case (Cons a r)
  moreover assume "getopt optstring nextchar args = Opt c v r' args'"
  ultimately have "getopt_size r' args' \<le> getopt_size r args" using getopt_letter_smaller by (simp add: getopt_def)
  with Cons show ?thesis by (simp add: getopt_size_def)
qed (simp add: getopt_def getopt_next_smaller)

section \<open>The program\<close>

record 'w oom_os =
  oo_malloc :: "u32 \<Rightarrow> 'w \<Rightarrow> u32 option \<times> 'w"

record 'w oom_state =
  oom_out :: string
  oom_err :: string
  oom_mem :: "u32 \<Rightarrow> u8"
  oom_world :: 'w

definition say :: "string \<Rightarrow> ('w oom_state, unit) exm" where
  "say t = modify (\<lambda>s. s\<lparr>oom_out := oom_out s @ t\<rparr>)"

definition complain :: "string \<Rightarrow> ('w oom_state, unit) exm" where
  "complain t = modify (\<lambda>s. s\<lparr>oom_err := oom_err s @ t\<rparr>)"

text \<open>\<open>%-12s\<close>.\<close>

definition pad12 :: "string \<Rightarrow> string" where
  "pad12 t = t @ replicate (12 - length t) CHR '' ''"

definition Usage :: "string \<Rightarrow> ('w oom_state, unit) exm" where
  "Usage progname = say (''Usage:'' @ NL @ progname @ '' -s <size>'' @ NL @ ''Options:'' @ NL @
     [CHR 0x09] @ pad12 ''-h'' @ ''Display this help information'' @ NL @
     [CHR 0x09] @ pad12 ''-s <size>'' @ ''Allocation unit size for getting heap in infinite loop'' @ NL @ NL)"

text \<open>The loop over the options: the exit status when the program ends in it, or the unit size.\<close>

function oom_options :: "string \<Rightarrow> string \<Rightarrow> string list \<Rightarrow> int \<Rightarrow> ('w oom_state, int + int) exm" where
  "oom_options exe nextchar args unitSize = (case getopt ''h:s:'' nextchar args of
     Opt_End \<Rightarrow> ret (Inr unitSize)
   | Opt c optarg nextchar' args' \<Rightarrow>
      (if c = CHR ''h'' then thenE (Usage exe) (ret (Inl 0))
       else oom_options exe nextchar' args'
         (case optarg of None \<Rightarrow> unitSize | Some v \<Rightarrow> sint (fst (strtoul0 v))))
   | Opt_Invalid c \<Rightarrow> thenE (complain (exe @ '': invalid option -- '' @ [CHR 0x27, c, CHR 0x27] @ NL))
       (thenE (Usage exe) (ret (Inl 1)))
   | Opt_Missing c \<Rightarrow> thenE (complain (exe @ '': option requires an argument -- '' @ [CHR 0x27, c, CHR 0x27] @ NL))
       (thenE (Usage exe) (ret (Inl 1))))"
  by pat_completeness auto
termination
  by (relation "measure (\<lambda>(exe, nextchar, args, unitSize). getopt_size nextchar args)") (auto dest: getopt_smaller)

declare oom_options.simps [simp del]

text \<open>The loop that fills a block: \<open>buf[i] = 1\<close> for every \<open>i\<close> below the unit size, none when that is negative.\<close>

definition fill_block :: "u32 \<Rightarrow> int \<Rightarrow> (u32 \<Rightarrow> u8) \<Rightarrow> (u32 \<Rightarrow> u8)" where
  "fill_block buf unitSize mem = fold (\<lambda>i m. m(buf + of_nat i := 1)) [0..<nat unitSize] mem"

text \<open>The allocation loop has no end but a failing \<open>malloc\<close>: the model runs a given number of rounds of it.\<close>

primrec oom_loop :: "'w oom_os \<Rightarrow> int \<Rightarrow> int \<Rightarrow> nat \<Rightarrow> ('w oom_state, unit) exm" where
  "oom_loop os unitSize allocSize 0 = ret ()"
| "oom_loop os unitSize allocSize (Suc n) =
     bindE (\<lambda>s. case oo_malloc os (word_of_int unitSize) (oom_world s) of (p, w) \<Rightarrow> (Inr p, s\<lparr>oom_world := w\<rparr>)) (\<lambda>buf. case buf of
       None \<Rightarrow> thenE (say (''Can'' @ [CHR 0x27] @ ''t allocate memory!'' @ NL)) (throw (Exit 0))
     | Some buf \<Rightarrow>
        thenE (say (''Filling allocated memory...'' @ NL))
        (thenE (modify (\<lambda>s. s\<lparr>oom_mem := fill_block buf unitSize (oom_mem s)\<rparr>))
        (if 2 ^ 31 \<le> (allocSize + 1) * 10 then throw (Undefined_Behaviour ''signed overflow'')
         else thenE (say (''Allocated '' @ dec ((allocSize + 1) * 10) @ '' MB'' @ NL)) (oom_loop os unitSize (allocSize + 1) n))))"

text \<open>The exit status, or \<open>None\<close> while the program still allocates after the given number of rounds.\<close>

definition oom_main :: "'w oom_os \<Rightarrow> nat \<Rightarrow> string list \<Rightarrow> ('w oom_state, int option) exm" where
  "oom_main os rounds argv = (if argv = [] then throw (Undefined_Behaviour ''null pointer'') else let exe = hd argv in
     bindE (oom_options exe [] (tl argv) 0) (\<lambda>r. case r of
       Inl code \<Rightarrow> ret (Some code)
     | Inr unitSize \<Rightarrow>
        if unitSize = 0
        then thenE (say (''Error: Invalid allocation unit size'' @ NL)) (thenE (Usage exe) (ret (Some 1)))
        else thenE (oom_loop os unitSize 0 rounds) (ret None)))"

section \<open>What it does\<close>

lemma fill_block_apply:
  "u < 2 ^ 31 \<Longrightarrow> fill_block buf u mem a = (if unat (a - buf) < nat u then 1 else mem a)"
proof -
  have "fold (\<lambda>i m. m(buf + of_nat i := 1)) [0..<n] mem a = (if unat (a - buf) < n then 1 else mem a)" if "n \<le> 2 ^ 31" for n
    using that
  proof (induction n)
    case (Suc n)
    have "unat (of_nat n :: u32) = n" using Suc.prems by (simp add: unat_of_nat)
    then have "a = buf + of_nat n \<longleftrightarrow> unat (a - buf) = n"
      by (metis add_diff_cancel_left' diff_add_cancel add.commute of_nat_unat ucast_id)
    with Suc show ?case by (auto simp: less_Suc_eq)
  qed simp
  then show "u < 2 ^ 31 \<Longrightarrow> ?thesis" by (simp add: fill_block_def)
qed

text \<open>The addresses a number of calls of \<open>malloc\<close> deliver, up to the first that fails.\<close>

primrec mallocs :: "'w oom_os \<Rightarrow> u32 \<Rightarrow> nat \<Rightarrow> 'w \<Rightarrow> u32 list \<times> 'w" where
  "mallocs os n 0 w = ([], w)"
| "mallocs os n (Suc k) w = (case oo_malloc os n w of
     (None, w') \<Rightarrow> ([], w')
   | (Some p, w') \<Rightarrow> (case mallocs os n k w' of (ps, w'') \<Rightarrow> (p # ps, w'')))"

definition round_text :: "nat \<Rightarrow> string" where
  "round_text i = ''Filling allocated memory...'' @ NL @ ''Allocated '' @ dec ((int i + 1) * 10) @ '' MB'' @ NL"

definition filled :: "u32 list \<Rightarrow> nat \<Rightarrow> (u32 \<Rightarrow> u8) \<Rightarrow> (u32 \<Rightarrow> u8)" where
  "filled ps n mem = (\<lambda>a. if \<exists>p \<in> set ps. unat (a - p) < n then 1 else mem a)"

lemma filled_Cons: "filled ps n (filled [p] n mem) = filled (p # ps) n mem"
  by (auto simp: filled_def fun_eq_iff)

lemma fill_block_filled: "n < 2 ^ 31 \<Longrightarrow> fill_block p (int n) mem = filled [p] n mem"
  by (simp add: fun_eq_iff fill_block_apply filled_def)

lemma oom_loop_run:
  assumes "n < 2 ^ 31" and "mallocs os (of_nat n) (Suc (length ps)) (oom_world s) = (ps, w)"
    and "length ps < rounds" and "10 * (c + length ps) < 2 ^ 31"
  shows "oom_loop os (int n) (int c) rounds s = (Inl (Exit 0), s\<lparr>
      oom_out := oom_out s @ concat (map round_text [c..<c + length ps]) @ ''Can'' @ [CHR 0x27] @ ''t allocate memory!'' @ NL,
      oom_mem := filled ps n (oom_mem s), oom_world := w\<rparr>)"
  using assms
proof (induction ps arbitrary: c s rounds)
  case Nil
  obtain r where r: "rounds = Suc r" using Nil.prems by (cases rounds) auto
  with Nil.prems show ?case
    by (auto simp: exm_simps say_def filled_def split: prod.splits option.splits)
next
  case (Cons p ps)
  obtain r where r: "rounds = Suc r" "length ps < r" using Cons.prems by (cases rounds) auto
  obtain w1 where w1: "oo_malloc os (of_nat n) (oom_world s) = (Some p, w1)" "mallocs os (of_nat n) (Suc (length ps)) w1 = (ps, w)"
    using Cons.prems(2) by (auto split: prod.splits option.splits)
  let ?s = "s\<lparr>oom_world := w1, oom_mem := filled [p] n (oom_mem s), oom_out := oom_out s @ round_text c\<rparr>"
  have "oom_loop os (int n) (int c) rounds s = oom_loop os (int n) (int c + 1) r ?s"
    using w1(1) r Cons.prems(1,4)
    by (simp add: exm_simps say_def round_text_def fill_block_filled)
  also have "int c + 1 = int (Suc c)" by simp
  also have "oom_loop os (int n) (int (Suc c)) r ?s = (Inl (Exit 0), ?s\<lparr>
      oom_out := oom_out ?s @ concat (map round_text [Suc c..<Suc c + length ps]) @ ''Can'' @ [CHR 0x27] @ ''t allocate memory!'' @ NL,
      oom_mem := filled ps n (oom_mem ?s), oom_world := w\<rparr>)"
    using w1(2) r(2) Cons.prems(1,4) by (intro Cons.IH) auto
  finally have "oom_loop os (int n) (int c) rounds s = (Inl (Exit 0), ?s\<lparr>
      oom_out := oom_out ?s @ concat (map round_text [Suc c..<Suc c + length ps]) @ ''Can'' @ [CHR 0x27] @ ''t allocate memory!'' @ NL,
      oom_mem := filled ps n (oom_mem ?s), oom_world := w\<rparr>)" .
  moreover have "[c..<c + length (p # ps)] = c # [Suc c..<Suc c + length ps]" by (simp add: upt_conv_Cons del: upt_Suc)
  ultimately show ?case by (simp add: filled_Cons del: upt_Suc)
qed

text \<open>C36: With a size in decimal the program fills every block it gets with ones, touches no other byte, counts 10 MB for
  each block whatever its size, and ends with exit status 0 at the first block it does not get.\<close>

theorem oom_fills_every_block:
  assumes "0 < n" and "n < 2 ^ 31" and "mallocs os (of_nat n) (Suc (length ps)) (oom_world s) = (ps, w)"
    and "length ps < rounds" and "10 * length ps < 2 ^ 31"
  shows "oom_main os rounds [exe, ''-s'', to_string n] s = (Inl (Exit 0), s\<lparr>
      oom_out := oom_out s @ concat (map round_text [0..<length ps]) @ ''Can'' @ [CHR 0x27] @ ''t allocate memory!'' @ NL,
      oom_mem := filled ps n (oom_mem s), oom_world := w\<rparr>)"
proof -
  have "sint (fst (strtoul0 (to_string n))) = int n"
    using assms(2) sint_sbintrunc' [of "int n", where ?'a = 32]
    by (simp add: strtoul0_to_string signed_take_bit_int_eq_self)
  then have "oom_options exe [] [''-s'', to_string n] 0 s = (Inr (Inr (int n)), s)"
    by (simp add: oom_options.simps getopt_def getopt_letter_def starts_with_def)
  then show ?thesis using oom_loop_run [of n os ps s w rounds 0] assms
    by (simp add: oom_main_def exm_simps)
qed

text \<open>A \<open>malloc\<close> that gives out a list of addresses.\<close>

definition demo_malloc :: "u32 list oom_os" where
  "demo_malloc = \<lparr>oo_malloc = (\<lambda>n w. case w of [] \<Rightarrow> (None, []) | p # ps \<Rightarrow> (Some p, ps))\<rparr>"

definition demo_oom :: "u32 list oom_state" where
  "demo_oom = \<lparr>oom_out = [], oom_err = [], oom_mem = (\<lambda>_. 0), oom_world = [0x1000, 0x2000]\<rparr>"

theorem oom_fills_every_block_witness:
  "\<exists>s'. oom_main demo_malloc 5 [''oom-test'', ''-s'', to_string 2] demo_oom = (Inl (Exit 0), s') \<and>
     oom_mem s' 0x1001 = 1 \<and> oom_mem s' 0x1002 = 0 \<and> oom_mem s' 0x2000 = 1"
proof -
  have "mallocs demo_malloc (of_nat 2) (Suc (length [0x1000, 0x2000])) (oom_world demo_oom) = ([0x1000, 0x2000], [])"
    by (simp add: demo_malloc_def demo_oom_def)
  from oom_fills_every_block [OF _ _ this, of 5 "''oom-test''"] show ?thesis
    by (simp add: filled_def demo_oom_def)
qed

text \<open>\<open>-h\<close> needs a value: alone it is an error with exit status 1, and with any value it prints the usage and returns 0.\<close>

theorem help_needs_a_value:
  "fst (oom_main os rounds [exe, ''-h''] s) = Inr (Some 1)"
  "fst (oom_main os rounds [exe, ''-h'', v] s) = Inr (Some 0)"
  by (simp_all add: oom_main_def oom_options.simps getopt_def getopt_letter_def starts_with_def exm_simps complain_def Usage_def say_def)

end
