(* ===== verification/Spec2Isabelle.thy ===== *)
theory Spec2Isabelle
  imports Sst_Tpmi Lan_Oem Nm_Server Nm_Pages Nm_Service Io_Resources Lpc_Cmds Beeper_Test Oom_Test
begin

text \<open>
  A verification library for the C++ and C programs of \<open>meta-common\<close> (\<open>src/meta-common\<close>), the layer with the
  platform daemons and the web server handlers of an OpenBMC distribution for Intel servers.

  Parts and how they interact.

  \<^item> The speed-select provider \<open>recipes-intel/smbios/smbios-mdr/sst_tpmi.cpp\<close>.  A cache of D-Bus features
    (\<open>TPMIDBusCache\<close>) follows the signals of a TPMI daemon and issues corrective property writes; a register
    set (\<open>SSTRegisterSet\<close>) reads and writes device registers through PECI, waking the package when the wake
    manager (\<open>WakeOnPECIManager\<close>) allows it; the interface (\<open>SSTTPMI\<close>) answers the questions of the host.
  \<^item> The IPMI handler \<open>recipes-phosphor/ipmi/phosphor-ipmi-host/transporthandler_oem.cpp\<close>, which collects a
    hostname that arrives in blocks.
  \<^item> The Node Manager handlers \<open>recipes-phosphor/interfaces/bmcweb/node-manager/*.hpp\<close>, which translate
    Redfish requests into D-Bus calls and their replies into a JSON response.
  \<^item> The command line tools \<open>recipes-utilities/io-app/files/io-app.c\<close>, which maps physical memory and reads and
    writes it, and \<open>recipes-utilities/lpc-cmds/files/lpc_cmds.c\<close>, which drives the devices of the LPC bus.

  Theories.

  \<^item> \<open>Prelude\<close>: computations over a state that may throw (\<open>exm\<close>), the rules by which an invariant is carried
    through them (\<open>keeps\<close>, \<open>nothrow\<close>), strings and numbers of the C++ library.  \<open>Std_Map\<close>: \<open>std::map\<close> as an
    interface with its laws and the model's instance.
  \<^item> \<open>Tpmi_Cache\<close>, \<open>Peci_Wake\<close>, \<open>Sst_Registers\<close>, \<open>Sst_Tpmi\<close>: the parts of \<open>sst_tpmi.cpp\<close> in the order of
    the file.  The D-Bus cache is an event loop over the requests in flight; the register layer runs over a
    parameter that stands for the PECI library and the device behind it.
  \<^item> \<open>Lan_Oem\<close>: \<open>setLanOem\<close> and \<open>getLanOem\<close> with the static block buffer.
  \<^item> \<open>Redfish_Core\<close>: JSON values, the response, D-Bus values, calls in flight.  A handler is a computation on
    \<open>call_state\<close>: the shared response, the pending calls with one constructor per C++ lambda as continuation,
    and the shared \<open>FinalCallback\<close> with the number of its owners.  What \<open>bmcweb\<close> contributes (request
    parsing, registered messages, durations) is the record \<open>redfish_lib\<close>, a parameter.
  \<^item> \<open>Nm_Common\<close>, \<open>Nm_Policies\<close>, \<open>Nm_Domains\<close>: \<open>nm_common.hpp\<close>, \<open>policies_collection.hpp\<close> and
    \<open>domains_collection.hpp\<close>; \<open>Nm_Server\<close>: the routes of both and the step relation \<open>nm_step\<close>, in which any
    pending call is answered with any reply.
  \<^item> \<open>Nm_Power\<close>, \<open>Nm_Chassis\<close>: \<open>power_utility.hpp\<close> and \<open>power.hpp\<close> with their own continuations and step
    relation \<open>pw_step\<close>; \<open>Nm_Nodes\<close>: the order of the nodes of a page and of the list a PATCH goes through;
    \<open>Nm_Pages\<close>: the pages under every order of replies.
  \<^item> \<open>Nm_Service\<close>: \<open>node_manager.hpp\<close>, \<open>triggers.hpp\<close> and \<open>throttling_status.hpp\<close>.  A log entry is rewritten in
    place, so its operations are computations over the entry.
  \<^item> \<open>C_Strings\<close>: the functions of the C library the command line tools use on strings, and the interface
    \<open>number_format\<close> of the two ways they print numbers.  \<open>Io_App\<close>: \<open>io-app.c\<close> over a record of system calls;
    \<open>Io_Laws\<close>: its properties; \<open>Io_Resources\<close>: the descriptors and mappings it holds, from \<open>unmap_one\<close> up to \<open>main\<close>.
    \<open>Lpc_Cmds\<close>: \<open>lpc_cmds.c\<close> and \<open>lpc_drv.h\<close> over a record of system and driver calls, with their properties.
    \<open>Beeper_Test\<close>: \<open>beeper-test.cpp\<close>.  \<open>Oom_Test\<close>: \<open>oom-test.c\<close> with the option scanner of the C library.

  What the lemmas show.

  \<^item> SST: the cache holds usable features or has their corrective writes on the way; a woken die is never
    forgotten; the register cache is transparent and the named registers read what the layout says; setting a
    level or a feature changes exactly one field of every valid instance; a feature that is announced for a known
    CPU ends, over its corrective writes and a new register set, at the status register of the device.
  \<^item> LAN: a hostname is read back as it was sent, and no write leaves the buffer.
  \<^item> Policies and domains: requests are translated exactly, or rejected with an error that stays; only own
    policies are deleted; GET requests only read; the page of an update is read after the last update; at most 15
    replies follow a request.
  \<^item> Power: the page of all nodes and the list of a PATCH agree position by position, so that the k-th object
    of a PATCH writes the policy of the k-th node; the page of a single node is completed by the last of at most
    12 replies; GET requests only read.
  \<^item> Service: the page of the throttling log shows every event of a well-formed log and is emptied for a damaged
    one; the page of the service does not depend on the order of its replies.
  \<^item> Tools: a dump and a map string are read back as what they were printed from; the commands of the shell are
    executed as they are written; a tool that ends normally has closed and unmapped everything; \<open>md\<close> and \<open>mw\<close> stay in their mappings when the range does not wrap around, and
    leave their buffer when it does; the line editor stays in its buffer and the shell ends; a virtual wire is set
    exactly; every KCS request is answered once; arguments out of range cause no system call; a sequence of tones
    is played as it is written; the memory test fills every block it gets and nothing else.

  Bounds.  The bounds 15 and 12 on the number of replies are proved, not assumed: every reply lowers a weight
  of the pending calls.  Loops are structural recursions, or recursions with a termination proof: the
  shell of \<open>io-app.c\<close> ends because every line takes something from the input.  Only the KCS task of \<open>lpc_cmds.c\<close>
  and the allocation loop of \<open>oom-test.c\<close> have no bound: their models run a number of rounds, and what is proved holds
  for every number that reaches the end, if there is one.  \<open>size_t\<close> and
  \<open>unsigned long\<close> have 32 bits, as on the processor the layer builds for.

  What is assumed of code outside the repository, always as a named hypothesis: \<open>messages_ok\<close> and
  \<open>failures_ok\<close> (registered error messages set an error status), \<open>readers_ok\<close> (the JSON readers of \<open>bmcweb\<close>
  deliver what was asked for or report an error), \<open>messages_keep_page\<close> (messages are added beside the nodes of
  a page), the laws of the PECI library and of the device in \<open>Peci_Wake\<close> and \<open>Sst_Registers\<close>, and those of the
  system calls of the tools (\<open>mapping_ok\<close>, \<open>os_willing\<close>, \<open>os_counts\<close>, \<open>vw_device\<close>, \<open>kcs_device\<close>).  Each
  property that uses one has a witness at a concrete instance.

  Not modelled.  Logging and the registration of routes have no effect on what is modelled; the destructor of
  \<open>SensorsAsyncResp\<close> and the helper that adds the members of a collection are code of \<open>bmcweb\<close>, the latter a parameter
  of the two handlers that call it.  The code of \<open>lpc_cmds.c\<close> under \<open>SUPPORT_KCS_ADDR_CMD\<close> is not compiled.
  In the C tools the terminal settings are reduced to whether the terminal is in raw mode.
\<close>

end
